(* ===== verification/Prelude.thy ===== *)
theory Prelude
  imports Main "HOL-Library.Word"
begin

text \<open>
  Shared vocabulary of the development: the integer types of \<open>utils/MyTypes.hpp\<close>, the
  exceptions a C++ function can leave with, the sum type that carries them, the object
  representation of fixed-width integers, and the generic lemmas on lists and on the
  result type that the component theories use.
\<close>

section \<open>Types\<close>

type_synonym byte = "8 word"
type_synonym Account_ID_t = "64 word"
type_synonym Achievement_ID_t = "64 word"
type_synonym Seed_t = "32 word"
type_synonym errorcode_t = "8 word"

text \<open>\<open>std::array<byte, 32>\<close>: a list of bytes, of length 32 wherever it is a hash.\<close>

type_synonym Hash_t = "byte list"

abbreviation (input) SHA256_DIGEST_LENGTH :: nat where
  "SHA256_DIGEST_LENGTH \<equiv> 32"

text \<open>
  How a function of the source can end other than by returning. \<open>Undefined\<close> is not an
  exception: it marks a read or write outside an object, which C++ leaves undefined, so
  that a theorem can say that it never happens. Nor is \<open>Waits_forever\<close>: it marks a call that does
  not return unless another thread acts.
\<close>

datatype exn =
    Out_of_range string
  | Runtime_error string
  | Invalid_argument string
  | StackTraceExcept string
  | Undefined string
  | Waits_forever string

type_synonym 'a result = "exn + 'a"

section \<open>Collections of facts\<close>

named_theorems wf_intros "operations that keep a component's well-formedness invariant"
named_theorems obj_simps "object representations of integers"
named_theorems op_defs "definitions of the small operations of a component"

section \<open>The result type\<close>

definition bind_result :: "'a result \<Rightarrow> ('a \<Rightarrow> 'b result) \<Rightarrow> 'b result" where
  "bind_result m f = (case m of Inl e \<Rightarrow> Inl e | Inr x \<Rightarrow> f x)"

lemma bind_result_simps [simp]:
  "bind_result (Inl e) f = Inl e"
  "bind_result (Inr x) f = f x"
  by (simp_all add: bind_result_def)

lemma bind_result_Inr_conv:
  "bind_result m f = Inr y \<longleftrightarrow> (\<exists>x. m = Inr x \<and> f x = Inr y)"
  by (cases m) simp_all

definition is_ok :: "'a result \<Rightarrow> bool" where
  "is_ok r = (case r of Inl _ \<Rightarrow> False | Inr _ \<Rightarrow> True)"

lemma is_ok_simps [simp]: "is_ok (Inr x)" "\<not> is_ok (Inl e)"
  by (simp_all add: is_ok_def)

lemma is_ok_conv: "is_ok r \<longleftrightarrow> (\<exists>x. r = Inr x)"
  by (cases r) simp_all

section \<open>Lists\<close>

lemma take_drop_append_middle [simp]:
  "take (length ys) (drop (length xs) (xs @ ys @ zs)) = ys"
  by simp

lemma map_nth_upt: "map (\<lambda>i. xs ! i) [0..<length xs] = xs"
  by (rule map_nth)

lemma map_nth_rev_upt: "map (\<lambda>i. xs ! (length xs - i - 1)) [0..<length xs] = rev xs"
  by (rule nth_equalityI) (simp_all add: rev_nth)

lemma map_nth_upt_offset:
  "n + k \<le> length xs \<Longrightarrow> map (\<lambda>i. xs ! (n + i)) [0..<k] = take k (drop n xs)"
  by (rule nth_equalityI) simp_all

lemma map_nth_rev_upt_offset:
  "n + k \<le> length xs \<Longrightarrow> map (\<lambda>i. xs ! (n + k - i - 1)) [0..<k] = rev (take k (drop n xs))"
  by (rule nth_equalityI) (auto simp: rev_nth)

section \<open>Object representations\<close>

text \<open>
  The bytes of an unsigned value, least significant first, and back.
\<close>

fun le_bytes :: "nat \<Rightarrow> nat \<Rightarrow> byte list" where
  "le_bytes 0 n = []"
| "le_bytes (Suc k) n = of_nat (n mod 256) # le_bytes k (n div 256)"

fun of_le_bytes :: "byte list \<Rightarrow> nat" where
  "of_le_bytes [] = 0"
| "of_le_bytes (b # bs) = unat b + 256 * of_le_bytes bs"

lemma length_le_bytes [simp]: "length (le_bytes k n) = k"
  by (induction k arbitrary: n) simp_all

lemma of_le_bytes_bound: "of_le_bytes bs < 256 ^ length bs"
proof (induction bs)
  case Nil
  then show ?case by simp
next
  case (Cons b bs)
  have "unat b < 256" using unsigned_less [of b] by simp
  with Cons show ?case by simp
qed

lemma unat_byte_of_nat [simp]: "unat (of_nat (n mod 256) :: byte) = n mod 256"
  by (simp add: unat_of_nat)

lemma of_le_bytes_le_bytes [obj_simps]: "of_le_bytes (le_bytes k n) = n mod 256 ^ k"
proof (induction k arbitrary: n)
  case 0
  then show ?case by simp
next
  case (Suc k)
  have "of_le_bytes (le_bytes (Suc k) n) = n mod 256 + 256 * (n div 256 mod 256 ^ k)"
    by (simp add: Suc.IH)
  also have "\<dots> = n mod (256 * 256 ^ k)"
    by (simp add: mod_mult2_eq)
  finally show ?case by simp
qed

lemma le_bytes_of_le_bytes [obj_simps]: "le_bytes (length bs) (of_le_bytes bs) = bs"
proof (induction bs)
  case Nil
  then show ?case by simp
next
  case (Cons b bs)
  have "unat b < 256" using unsigned_less [of b] by simp
  then have "(unat b + 256 * of_le_bytes bs) mod 256 = unat b"
    and "(unat b + 256 * of_le_bytes bs) div 256 = of_le_bytes bs"
    by simp_all
  with Cons show ?case by simp
qed

text \<open>
  \<open>obj le w\<close> is what \<open>(byte*)&w\<close> reads on a host that is little endian (\<open>le\<close>) or
  big endian; \<open>of_obj\<close> is the value \<open>memcpy\<close> gives back.
\<close>

definition obj :: "bool \<Rightarrow> 'a::len word \<Rightarrow> byte list" where
  "obj le w = (let bs = le_bytes (LENGTH('a) div 8) (unat w) in if le then bs else rev bs)"

definition of_obj :: "bool \<Rightarrow> byte list \<Rightarrow> 'a::len word" where
  "of_obj le bs = of_nat (of_le_bytes (if le then bs else rev bs))"

lemma length_obj [simp]: "length (obj le (w :: 'a::len word)) = LENGTH('a) div 8"
  by (simp add: obj_def Let_def)

lemma of_obj_obj:
  assumes "8 * (LENGTH('a) div 8) = LENGTH('a)"
  shows "of_obj le (obj le (w :: 'a::len word)) = w"
proof -
  have "(256::nat) ^ (LENGTH('a) div 8) = 2 ^ (8 * (LENGTH('a) div 8))"
    by (simp only: power_mult) simp
  then have "unat w < 256 ^ (LENGTH('a) div 8)"
    using unsigned_less [of w] assms by simp
  then show ?thesis
    by (simp add: of_obj_def obj_def Let_def of_le_bytes_le_bytes)
qed

lemma of_obj_obj_8 [obj_simps]: "of_obj le (obj le (w :: 8 word)) = w"
  by (rule of_obj_obj) simp

lemma of_obj_obj_32 [obj_simps]: "of_obj le (obj le (w :: 32 word)) = w"
  by (rule of_obj_obj) simp

lemma of_obj_obj_64 [obj_simps]: "of_obj le (obj le (w :: 64 word)) = w"
  by (rule of_obj_obj) simp

lemma obj_8 [simp]: "obj le (b :: 8 word) = [b]"
proof -
  have "unat b < 256" using unsigned_less [of b] by simp
  then show ?thesis by (simp add: obj_def Let_def)
qed

end
