(* ===== verification/Codes.thy ===== *)
theory Codes
  imports Prelude
begin

text \<open>
  The protocol constants of \<open>utils/MyCodes.hpp\<close> and the error value of \<open>utils/ErrorCode.cpp\<close>.
  The texts that \<open>strerror\<close>, Boost and OpenSSL give for their codes are parameters.
\<close>

section \<open>Achievements\<close>

abbreviation (input) ACHIEVE_NEWBIE :: Achievement_ID_t where "ACHIEVE_NEWBIE \<equiv> 1"
abbreviation (input) ACHIEVE_MEDITATE_ADDICTION :: Achievement_ID_t where "ACHIEVE_MEDITATE_ADDICTION \<equiv> 2"
abbreviation (input) ACHIEVE_GUARD_ADDICTION :: Achievement_ID_t where "ACHIEVE_GUARD_ADDICTION \<equiv> 3"
abbreviation (input) ACHIEVE_EVADE_ADDICTION :: Achievement_ID_t where "ACHIEVE_EVADE_ADDICTION \<equiv> 4"
abbreviation (input) ACHIEVE_PUNCH_ADDICTION :: Achievement_ID_t where "ACHIEVE_PUNCH_ADDICTION \<equiv> 5"
abbreviation (input) ACHIEVE_FIRE_ADDICTION :: Achievement_ID_t where "ACHIEVE_FIRE_ADDICTION \<equiv> 6"
abbreviation (input) ACHIEVE_NOIVE :: Achievement_ID_t where "ACHIEVE_NOIVE \<equiv> 7"
abbreviation (input) ACHIEVE_CHALLENGER :: Achievement_ID_t where "ACHIEVE_CHALLENGER \<equiv> 8"
abbreviation (input) ACHIEVE_DOMINATOR :: Achievement_ID_t where "ACHIEVE_DOMINATOR \<equiv> 9"
abbreviation (input) ACHIEVE_SLAYER :: Achievement_ID_t where "ACHIEVE_SLAYER \<equiv> 10"
abbreviation (input) ACHIEVE_CONQUERER :: Achievement_ID_t where "ACHIEVE_CONQUERER \<equiv> 11"
abbreviation (input) ACHIEVE_KNEELINMYSIGHT :: Achievement_ID_t where "ACHIEVE_KNEELINMYSIGHT \<equiv> 12"
abbreviation (input) ACHIEVE_DOPPELGANGER :: Achievement_ID_t where "ACHIEVE_DOPPELGANGER \<equiv> 13"
abbreviation (input) ACHIEVE_AREYAWINNINGSON :: Achievement_ID_t where "ACHIEVE_AREYAWINNINGSON \<equiv> 14"

section \<open>Error codes, requests and answers\<close>

abbreviation (input) SUCCESS :: errorcode_t where "SUCCESS \<equiv> 0"
abbreviation (input) ERR_PROTOCOL_VIOLATION :: errorcode_t where "ERR_PROTOCOL_VIOLATION \<equiv> 10"
abbreviation (input) ERR_NO_MATCH_ACCOUNT :: errorcode_t where "ERR_NO_MATCH_ACCOUNT \<equiv> 11"
abbreviation (input) ERR_EXIST_ACCOUNT :: errorcode_t where "ERR_EXIST_ACCOUNT \<equiv> 12"
abbreviation (input) ERR_EXIST_ACCOUNT_MATCH :: errorcode_t where "ERR_EXIST_ACCOUNT_MATCH \<equiv> 13"
abbreviation (input) ERR_EXIST_ACCOUNT_BATTLE :: errorcode_t where "ERR_EXIST_ACCOUNT_BATTLE \<equiv> 14"
abbreviation (input) ERR_OUT_OF_CAPACITY :: errorcode_t where "ERR_OUT_OF_CAPACITY \<equiv> 15"
abbreviation (input) ERR_DB_FAILED :: errorcode_t where "ERR_DB_FAILED \<equiv> 16"
abbreviation (input) ERR_DUPLICATED_ACCESS :: errorcode_t where "ERR_DUPLICATED_ACCESS \<equiv> 17"
abbreviation (input) ERR_CONNECTION_CLOSED :: errorcode_t where "ERR_CONNECTION_CLOSED \<equiv> 18"
abbreviation (input) ERR_TIMEOUT :: errorcode_t where "ERR_TIMEOUT \<equiv> 19"
abbreviation (input) ERR_NO_MATCH_KEYWORD :: errorcode_t where "ERR_NO_MATCH_KEYWORD \<equiv> ERR_NO_MATCH_ACCOUNT"

abbreviation (input) REQ_REGISTER :: byte where "REQ_REGISTER \<equiv> 20"
abbreviation (input) REQ_LOGIN :: byte where "REQ_LOGIN \<equiv> 21"
abbreviation (input) REQ_CHPWD :: byte where "REQ_CHPWD \<equiv> 22"
abbreviation (input) REQ_STARTMATCH :: byte where "REQ_STARTMATCH \<equiv> 23"
abbreviation (input) REQ_PAUSEMATCH :: byte where "REQ_PAUSEMATCH \<equiv> 24"
abbreviation (input) REQ_GAME_ACTION :: byte where "REQ_GAME_ACTION \<equiv> 25"
abbreviation (input) REQ_CHNAME :: byte where "REQ_CHNAME \<equiv> 26"

abbreviation (input) ANS_HEARTBEAT :: byte where "ANS_HEARTBEAT \<equiv> 29"
abbreviation (input) ANS_MATCHMADE :: byte where "ANS_MATCHMADE \<equiv> 30"
abbreviation (input) GAME_ROUND_RESULT :: byte where "GAME_ROUND_RESULT \<equiv> 31"
abbreviation (input) GAME_FINISHED_WIN :: byte where "GAME_FINISHED_WIN \<equiv> 32"
abbreviation (input) GAME_FINISHED_DRAW :: byte where "GAME_FINISHED_DRAW \<equiv> 33"
abbreviation (input) GAME_FINISHED_LOOSE :: byte where "GAME_FINISHED_LOOSE \<equiv> 34"
abbreviation (input) GAME_CRASHED :: byte where "GAME_CRASHED \<equiv> 35"
abbreviation (input) GAME_PLAYER_DISCONNEDTED :: byte where "GAME_PLAYER_DISCONNEDTED \<equiv> 36"
abbreviation (input) GAME_PLAYER_ALL_CONNECTED :: byte where "GAME_PLAYER_ALL_CONNECTED \<equiv> 37"
abbreviation (input) GAME_PLAYER_INFO :: byte where "GAME_PLAYER_INFO \<equiv> 38"
abbreviation (input) GAME_PLAYER_INFO_NAME :: byte where "GAME_PLAYER_INFO_NAME \<equiv> 39"
abbreviation (input) GAME_PLAYER_ACHIEVE :: byte where "GAME_PLAYER_ACHIEVE \<equiv> 40"

section \<open>ErrorCode\<close>

abbreviation (input) TYPE_ERRNO :: int where "TYPE_ERRNO \<equiv> 0"
abbreviation (input) TYPE_BOOST :: int where "TYPE_BOOST \<equiv> 1"
abbreviation (input) TYPE_OPENSSL :: int where "TYPE_OPENSSL \<equiv> 2"
abbreviation (input) TYPE_CUSTOM :: int where "TYPE_CUSTOM \<equiv> 3"

record error_code =
  m_code :: int
  m_type :: int
  m_type_str :: string
  m_message :: string

definition strerrcode :: "(errorcode_t \<times> string) list" where
  "strerrcode =
     [(SUCCESS, ''Success''),
      (ERR_PROTOCOL_VIOLATION, ''Protocol Violation''),
      (ERR_NO_MATCH_ACCOUNT, ''There is no matched account''),
      (ERR_EXIST_ACCOUNT, '' There is already existing account''),
      (ERR_EXIST_ACCOUNT_MATCH, ''There is already existing account in Match Server''),
      (ERR_EXIST_ACCOUNT_BATTLE, ''There is already existing account in Battle Server''),
      (ERR_OUT_OF_CAPACITY, ''The Server is Out of Capacity''),
      (ERR_DB_FAILED, ''DB Fail''),
      (ERR_DUPLICATED_ACCESS, ''There is another Access already connected''),
      (ERR_CONNECTION_CLOSED, ''Connection is Closed''),
      (ERR_TIMEOUT, ''Time out'')]"

definition ErrorCode_custom :: "errorcode_t \<Rightarrow> error_code" where
  "ErrorCode_custom ec =
     \<lparr>m_code = uint ec, m_type = TYPE_CUSTOM, m_type_str = ''CustomCode'',
      m_message = (case map_of strerrcode ec of None \<Rightarrow> ''Unknown Code'' | Some msg \<Rightarrow> msg)\<rparr>"

definition ErrorCode_default :: error_code where
  "ErrorCode_default = ErrorCode_custom SUCCESS"

definition ErrorCode_errno :: "(int \<Rightarrow> string) \<Rightarrow> int \<Rightarrow> error_code" where
  "ErrorCode_errno strerror n =
     \<lparr>m_code = n, m_type = TYPE_ERRNO, m_type_str = ''Errno'', m_message = strerror n\<rparr>"

text \<open>A \<open>boost::system::error_code\<close> is seen through its value and its message.\<close>

definition ErrorCode_boost :: "int \<times> string \<Rightarrow> error_code" where
  "ErrorCode_boost ec =
     \<lparr>m_code = fst ec, m_type = TYPE_BOOST, m_type_str = ''Boost'', m_message = snd ec\<rparr>"

text \<open>The \<open>unsigned long\<close> code is narrowed to an \<open>int\<close>.\<close>

definition ErrorCode_openssl :: "(64 word \<Rightarrow> string) \<Rightarrow> 64 word \<Rightarrow> error_code" where
  "ErrorCode_openssl ERR_error_string ec =
     \<lparr>m_code = sint (ucast ec :: 32 word), m_type = TYPE_OPENSSL, m_type_str = ''OpenSSL'',
      m_message = ERR_error_string ec\<rparr>"

definition SetMessage :: "string \<Rightarrow> error_code \<Rightarrow> error_code" where
  "SetMessage new_message e = e\<lparr>m_message := ''('' @ new_message @ '')''\<rparr>"

definition ec_isSuccessed :: "error_code \<Rightarrow> bool" where
  "ec_isSuccessed e = (m_code e = 0)"

lemma ec_isSuccessed_custom [simp]: "ec_isSuccessed (ErrorCode_custom ec) \<longleftrightarrow> ec = SUCCESS"
  by (simp add: ec_isSuccessed_def ErrorCode_custom_def uint_0_iff)

lemma ec_isSuccessed_default [simp]: "ec_isSuccessed ErrorCode_default"
  by (simp add: ErrorCode_default_def)

lemma ec_isSuccessed_SetMessage [simp]: "ec_isSuccessed (SetMessage s e) = ec_isSuccessed e"
  by (simp add: ec_isSuccessed_def SetMessage_def)

end
