(* ===== verification/Decimal.thy ===== *)
theory Decimal
  imports Prelude
begin

text \<open>
  \<open>std::to_string\<close> on integers and the parsing functions \<open>std::stoull\<close> and \<open>std::stoi\<close> of the standard
  library: leading white space, an optional sign, then decimal digits up to the first other
  character; no digits is \<open>invalid_argument\<close>, a value outside the type is \<open>out_of_range\<close>.
\<close>

section \<open>Printing\<close>

definition digit :: "nat \<Rightarrow> char" where
  "digit n = char_of (48 + n)"

fun digits :: "nat \<Rightarrow> string" where
  "digits n = (if n < 10 then [digit n] else digits (n div 10) @ [digit (n mod 10)])"

declare digits.simps [simp del]

definition to_string_nat :: "nat \<Rightarrow> string" where
  "to_string_nat n = digits n"

definition to_string_int :: "int \<Rightarrow> string" where
  "to_string_int i = (if i < 0 then CHR ''-'' # digits (nat (- i)) else digits (nat i))"

section \<open>Parsing\<close>

definition is_space :: "char \<Rightarrow> bool" where
  "is_space c = (c \<in> {CHR '' '', CHR 0x09, CHR 0x0A, CHR 0x0B, CHR 0x0C, CHR 0x0D})"

definition is_digit :: "char \<Rightarrow> bool" where
  "is_digit c = (48 \<le> (of_char c :: nat) \<and> (of_char c :: nat) < 58)"

definition digit_value :: "char \<Rightarrow> nat" where
  "digit_value c = of_char c - 48"

definition number :: "string \<Rightarrow> nat" where
  "number s = fold (\<lambda>c n. 10 * n + digit_value c) s 0"

definition strto :: "string \<Rightarrow> (bool \<times> nat) option" where
  "strto s =
     (let s = dropWhile is_space s;
          neg = (case s of c # _ \<Rightarrow> c = CHR ''-'' | [] \<Rightarrow> False);
          s = (case s of c # r \<Rightarrow> if c = CHR ''-'' \<or> c = CHR ''+'' then r else s | [] \<Rightarrow> s);
          ds = takeWhile is_digit s
      in if ds = [] then None else Some (neg, number ds))"

definition stoull :: "string \<Rightarrow> 64 word result" where
  "stoull s = (case strto s of
       None \<Rightarrow> Inl (Invalid_argument ''stoull'')
     | Some (neg, n) \<Rightarrow>
         if n \<ge> 2 ^ 64 then Inl (Out_of_range ''stoull'')
         else Inr (if neg then - word_of_nat n else word_of_nat n))"

definition stoi :: "string \<Rightarrow> int result" where
  "stoi s = (case strto s of
       None \<Rightarrow> Inl (Invalid_argument ''stoi'')
     | Some (neg, n) \<Rightarrow>
         (let i = (if neg then - int n else int n)
          in if i < - (2 ^ 31) \<or> i \<ge> 2 ^ 31 then Inl (Out_of_range ''stoi'') else Inr i))"

section \<open>Round trip\<close>

lemma digit_table:
  "\<forall>n\<in>set [0..<10]. is_digit (digit n) \<and> digit_value (digit n) = n \<and> \<not> is_space (digit n)
    \<and> digit n \<noteq> CHR ''-'' \<and> digit n \<noteq> CHR ''+''"
  by code_simp

lemma digit_props: "n < 10 \<Longrightarrow> is_digit (digit n) \<and> digit_value (digit n) = n \<and> \<not> is_space (digit n)
    \<and> digit n \<noteq> CHR ''-'' \<and> digit n \<noteq> CHR ''+''"
  by (rule digit_table [THEN bspec]) simp

lemma digits_not_Nil [simp]: "digits n \<noteq> []"
  by (subst digits.simps) simp

lemma digits_all: "c \<in> set (digits n) \<Longrightarrow> \<exists>k<10. c = digit k"
proof (induction n rule: digits.induct)
  case (1 n)
  then show ?case
    by (auto simp: digits.simps [of n] intro: exI [of _ "n mod 10"] split: if_splits)
qed

lemma number_append: "number (s @ [c]) = 10 * number s + digit_value c"
  by (simp add: number_def)

lemma number_digits [simp]: "number (digits n) = n"
proof (induction n rule: digits.induct)
  case (1 n)
  then show ?case
    by (subst digits.simps) (simp add: number_append digit_props, simp add: number_def digit_props)
qed

lemma strto_digits: "strto (digits n) = Some (False, n)"
proof -
  obtain c s where d: "digits n = c # s" by (metis digits_not_Nil list.exhaust)
  then obtain k where k: "k < 10" "c = digit k" using digits_all [of c n] by auto
  have "takeWhile is_digit (digits n) = digits n"
    using digits_all digit_props by (metis takeWhile_eq_all_conv)
  then have t: "takeWhile is_digit (c # s) = c # s" "number (c # s) = n"
    unfolding d [symmetric] by simp_all
  have "dropWhile is_space (c # s) = c # s" "c \<noteq> CHR ''-''" "c \<noteq> CHR ''+''"
    using k digit_props [of k] by simp_all
  then show ?thesis
    unfolding d strto_def Let_def using t by simp
qed

lemma stoull_to_string: "stoull (to_string_nat (unat (w :: 64 word))) = Inr w"
proof -
  have "unat w < 2 ^ 64"
    using unsigned_less [of w] by simp
  then show ?thesis
    by (simp add: stoull_def to_string_nat_def strto_digits)
qed

lemma digits_inject: "digits m = digits n \<longleftrightarrow> m = n"
  by (metis number_digits)

lemma stoi_to_string: "0 \<le> i \<Longrightarrow> i < 2 ^ 31 \<Longrightarrow> stoi (to_string_int i) = Inr i"
  by (simp add: stoi_def to_string_int_def strto_digits)

end
