(* ===== verification/Errors.thy ===== *)
theory Errors
  imports Codes Decimal
begin

text \<open>
  How errors are carried: \<open>utils/Expected.hpp\<close>, a result that may have failed, and \<open>utils/StackTraceExcept.cpp\<close>, exceptions and error codes
  that collect the places they went through. The other theories use sums and exceptions of a data type for them; this
  theory shows what the classes of the repository are behind that.
\<close>

section \<open>Expected\<close>

text \<open>Both members exist whatever the flag says; the one that a constructor does not set is the argument \<open>unset\<close>.\<close>

record ('t, 'e) expected =
  ex_isSuccessed :: bool
  ex_value :: 't
  ex_ec :: 'e

definition Expected_value :: "'e \<Rightarrow> 't \<Rightarrow> bool \<Rightarrow> ('t, 'e) expected" where
  "Expected_value unset v ok = \<lparr>ex_isSuccessed = ok, ex_value = v, ex_ec = unset\<rparr>"

definition Expected_full :: "'t \<Rightarrow> 'e \<Rightarrow> bool \<Rightarrow> ('t, 'e) expected" where
  "Expected_full v ec ok = \<lparr>ex_isSuccessed = ok, ex_value = v, ex_ec = ec\<rparr>"

definition Expected_error :: "'t \<Rightarrow> 'e \<Rightarrow> ('t, 'e) expected" where
  "Expected_error unset ec = \<lparr>ex_isSuccessed = False, ex_value = unset, ex_ec = ec\<rparr>"

definition value_or :: "'t \<Rightarrow> ('t, 'e) expected \<Rightarrow> 't" where
  "value_or default_value x = (if ex_isSuccessed x then ex_value x else default_value)"

definition ex_assign :: "('t, 'e) expected \<Rightarrow> ('t, 'e) expected \<Rightarrow> ('t, 'e) expected" where
  "ex_assign copy x = x\<lparr>ex_isSuccessed := ex_isSuccessed copy, ex_value := ex_value copy, ex_ec := ex_ec copy\<rparr>"

definition ex_equal :: "('t, 'e) expected \<Rightarrow> ('t, 'e) expected \<Rightarrow> bool" where
  "ex_equal x y =
     (if ex_isSuccessed x = ex_isSuccessed y then (if ex_isSuccessed x then ex_value x = ex_value y else ex_ec x = ex_ec y)
      else False)"

text \<open>\<open>Expected<T, void>\<close>.\<close>

record 't expected_void =
  ev_isSuccessed :: bool
  ev_value :: 't

definition Expected_some :: "'t \<Rightarrow> bool \<Rightarrow> 't expected_void" where
  "Expected_some v ok = \<lparr>ev_isSuccessed = ok, ev_value = v\<rparr>"

definition Expected_none :: "'t \<Rightarrow> 't expected_void" where
  "Expected_none unset = \<lparr>ev_isSuccessed = False, ev_value = unset\<rparr>"

definition ev_value_or :: "'t \<Rightarrow> 't expected_void \<Rightarrow> 't" where
  "ev_value_or dvalue x = (if ev_isSuccessed x then ev_value x else dvalue)"

definition ev_equal :: "'t expected_void \<Rightarrow> 't expected_void \<Rightarrow> bool" where
  "ev_equal x y =
     (if ev_isSuccessed x = ev_isSuccessed y then (if ev_isSuccessed x then ev_value x = ev_value y else True) else False)"

text \<open>They are a sum and an option: the member that is not in use never shows.\<close>

definition sum_of :: "('t, 'e) expected \<Rightarrow> 'e + 't" where
  "sum_of x = (if ex_isSuccessed x then Inr (ex_value x) else Inl (ex_ec x))"

definition option_of :: "'t expected_void \<Rightarrow> 't option" where
  "option_of x = (if ev_isSuccessed x then Some (ev_value x) else None)"

lemma expected_sum:
  "sum_of (Expected_value u v True) = Inr v" "sum_of (Expected_error u e) = Inl e" "sum_of (Expected_full v e ok) = (if ok then Inr v else Inl e)"
  "value_or d x = (case sum_of x of Inl _ \<Rightarrow> d | Inr v \<Rightarrow> v)" "ex_assign x y = x" "ex_equal x y \<longleftrightarrow> sum_of x = sum_of y"
  by (simp_all add: sum_of_def Expected_value_def Expected_error_def Expected_full_def value_or_def ex_assign_def ex_equal_def)

lemma expected_option:
  "option_of (Expected_some v True) = Some v" "option_of (Expected_none u) = None"
  "ev_value_or d x = (case option_of x of None \<Rightarrow> d | Some v \<Rightarrow> v)" "ev_equal x y \<longleftrightarrow> option_of x = option_of y"
  by (simp_all add: option_of_def Expected_some_def Expected_none_def ev_value_or_def ev_equal_def)

section \<open>Stack traces\<close>

definition message_code :: "error_code \<Rightarrow> string" where
  "message_code ec = ''('' @ to_string_int (m_code ec) @ '') '' @ m_message ec"

abbreviation (input) CR :: string where "CR \<equiv> [CHR 0x0D, CHR 0x0A]"
abbreviation (input) TAB :: string where "TAB \<equiv> [CHR 0x09]"

type_synonym place = "string \<times> string \<times> int"

text \<open>A place is \<open>__STACKINFO__\<close>: file, function and line. An exception is its text.\<close>

definition ste_stack :: "place \<Rightarrow> string \<Rightarrow> string" where
  "ste_stack at stacktrace = (case at of (file, func, line) \<Rightarrow>
     stacktrace @ TAB @ func @ ''('' @ file @ '':'' @ to_string_int line @ '')'' @ CR)"

definition ste_with_trace :: "string \<Rightarrow> string \<Rightarrow> string \<Rightarrow> string" where
  "ste_with_trace name content stacktrace_str = ''['' @ name @ ''] '' @ content @ CR @ ''[Stack Trace]'' @ CR @ stacktrace_str"

definition ste_named :: "string \<Rightarrow> string \<Rightarrow> place \<Rightarrow> string" where
  "ste_named name content at = ste_stack at (ste_with_trace name content [])"

definition ste_new :: "string \<Rightarrow> place \<Rightarrow> string" where
  "ste_new content at = ste_named ''Except'' content at"

text \<open>\<open>Propagate\<close> throws the object again: the value is the text of the exception that is thrown.\<close>

definition Propagate :: "place \<Rightarrow> string \<Rightarrow> string" where
  "Propagate at stacktrace = ste_stack at stacktrace"

record stack_error_code = error_code +
  sc_stacktrace :: string

definition sec_new :: "error_code \<Rightarrow> place \<Rightarrow> stack_error_code" where
  "sec_new ec at = error_code.extend (error_code.truncate ec) \<lparr>sc_stacktrace = ste_stack at []\<rparr>"

definition sec_again :: "stack_error_code \<Rightarrow> place \<Rightarrow> stack_error_code" where
  "sec_again sec at = sec\<lparr>sc_stacktrace := ste_stack at (sc_stacktrace sec)\<rparr>"

definition sec_what :: "stack_error_code \<Rightarrow> string" where
  "sec_what sec = message_code (error_code.truncate sec) @ CR @ ''[Stack Trace]'' @ CR @ sc_stacktrace sec"

definition ece_code :: "error_code \<Rightarrow> place \<Rightarrow> string" where
  "ece_code ec at = ste_named (m_type_str ec) (message_code ec) at"

definition ece_stacked :: "stack_error_code \<Rightarrow> string" where
  "ece_stacked sec = ste_with_trace (m_type_str sec) (message_code (error_code.truncate sec)) (sc_stacktrace sec)"

definition ece_stacked_at :: "stack_error_code \<Rightarrow> place \<Rightarrow> string" where
  "ece_stacked_at sec at = ste_stack at (ece_stacked sec)"

text \<open>\<open>ThrowOnFail\<close>: the text of the exception, or nothing.\<close>

definition ThrowOnFail :: "error_code \<Rightarrow> place \<Rightarrow> string option" where
  "ThrowOnFail ec at = (if \<not> ec_isSuccessed ec then Some (ece_code ec at) else None)"

definition ThrowOnFail_stacked :: "stack_error_code \<Rightarrow> place \<Rightarrow> string option" where
  "ThrowOnFail_stacked sec at = (if \<not> ec_isSuccessed (error_code.truncate sec) then Some (ece_stacked_at sec at) else None)"

text \<open>
  The text of an exception names the places in the order of the way of the error: where the code was made, where it was passed
  on, where it was thrown and where the exception was propagated.
\<close>

definition place_line :: "place \<Rightarrow> string" where
  "place_line at = ste_stack at []"

lemma ste_stack_line: "ste_stack at s = s @ place_line at"
  by (cases at) (simp add: ste_stack_def place_line_def)

lemma propagated: "fold Propagate ps s = s @ concat (map place_line ps)"
  by (induction ps arbitrary: s) (simp_all add: Propagate_def ste_stack_line)

lemma passed_on:
  "fold (\<lambda>at sec. sec_again sec at) ps sec = sec\<lparr>sc_stacktrace := sc_stacktrace sec @ concat (map place_line ps)\<rparr>"
  by (induction ps arbitrary: sec) (simp_all add: sec_again_def ste_stack_line)

lemma sec_new_fields [simp]:
  "error_code.truncate (sec_new ec at) = ec" "m_type_str (sec_new ec at) = m_type_str ec" "sc_stacktrace (sec_new ec at) = place_line at"
  by (simp_all add: sec_new_def error_code.defs place_line_def)

lemma truncate_stack [simp]: "error_code.truncate (sec\<lparr>sc_stacktrace := s\<rparr>) = error_code.truncate sec"
  by (simp add: error_code.defs)

lemma trace_in_order:
  assumes "\<not> ec_isSuccessed ec"
  shows "map_option (fold Propagate rs) (ThrowOnFail_stacked (fold (\<lambda>at sec. sec_again sec at) ps (sec_new ec p)) q) =
    Some (''['' @ m_type_str ec @ ''] '' @ message_code ec @ CR @ ''[Stack Trace]'' @ CR @ concat (map place_line (p # ps @ q # rs)))"
  using assms
  by (simp add: passed_on ThrowOnFail_stacked_def ece_stacked_at_def ece_stacked_def ste_with_trace_def propagated ste_stack_line)

end
