(* ===== verification/ByteQueue.thy ===== *)
theory ByteQueue
  imports Prelude
begin

text \<open>
  The byte buffer of \<open>utils/ByteQueue.hpp\<close> and \<open>utils/ByteQueue.cpp\<close>: every packet the
  servers exchange is written and read through it.

  A \<open>ByteQueue\<close> is a vector of bytes, a read position and a default byte order. The read
  position is an \<open>unsigned long\<close> and wraps around, so it is a 64-bit word here; sizes of
  vectors are natural numbers and become 64-bit words where the code compares them with
  it. A value of a template type \<open>T\<close> is represented by its object representation, the
  bytes \<open>(byte*)&data\<close> reads; \<open>g\<close> is the static member \<open>g_isLittleEndian\<close>, computed from
  the byte order of the host.
\<close>

section \<open>State and operations\<close>

record byte_queue =
  bq_defaultEndian :: bool
  bq_bytes :: "byte list"
  bq_ptr :: "64 word"

definition isLittleEndianSystem :: "bool \<Rightarrow> bool" where
  "isLittleEndianSystem host_le = (obj host_le (1 :: 32 word) ! 0 = 1)"

definition bq_new :: "bool \<Rightarrow> byte_queue" where
  "bq_new g = \<lparr>bq_defaultEndian = g, bq_bytes = [], bq_ptr = 0\<rparr>"

definition bq_of_vector :: "bool \<Rightarrow> byte list \<Rightarrow> byte_queue" where
  "bq_of_vector g bstream =
     \<lparr>bq_defaultEndian = g,
      bq_bytes = fold (\<lambda>i bs. bs @ [bstream ! i]) [0..<length bstream] [],
      bq_ptr = 0\<rparr>"

definition bq_of_endian :: "bool \<Rightarrow> byte_queue" where
  "bq_of_endian endian = \<lparr>bq_defaultEndian = endian, bq_bytes = [], bq_ptr = 0\<rparr>"

definition bq_of_buf :: "bool \<Rightarrow> byte list \<Rightarrow> nat \<Rightarrow> byte_queue" where
  "bq_of_buf g buf sz =
     \<lparr>bq_defaultEndian = g, bq_bytes = fold (\<lambda>i bs. bs @ [buf ! i]) [0..<sz] [], bq_ptr = 0\<rparr>"

definition bq_copy :: "byte_queue \<Rightarrow> byte_queue" where
  "bq_copy c = \<lparr>bq_defaultEndian = bq_defaultEndian c, bq_bytes = bq_bytes c, bq_ptr = bq_ptr c\<rparr>"

text \<open>The move constructor gives the new object and what is left of the old one.\<close>

definition bq_move :: "byte_queue \<Rightarrow> byte_queue \<times> byte_queue" where
  "bq_move m =
     (\<lparr>bq_defaultEndian = bq_defaultEndian m, bq_bytes = bq_bytes m, bq_ptr = bq_ptr m\<rparr>,
      m\<lparr>bq_ptr := 0, bq_bytes := []\<rparr>)"

definition bq_add :: "byte_queue \<Rightarrow> byte_queue \<Rightarrow> byte_queue" where
  "bq_add q adder = (let result = bq_copy q in result\<lparr>bq_bytes := bq_bytes result @ bq_bytes adder\<rparr>)"

definition bq_append :: "byte_queue \<Rightarrow> byte_queue \<Rightarrow> byte_queue" where
  "bq_append q adder = q\<lparr>bq_bytes := bq_bytes q @ bq_bytes adder\<rparr>"

definition bq_index :: "byte_queue \<Rightarrow> 64 word \<Rightarrow> byte result" where
  "bq_index q index =
     (if index \<ge> of_nat (length (bq_bytes q))
      then Inl (Out_of_range ''ByteQueue::operator[long unsigned int] : Byte Out of Range'')
      else Inr (bq_bytes q ! unat index))"

text \<open>The lambda \<open>value\<close> of \<open>push\<close> and \<open>push_head\<close>.\<close>

definition push_value :: "bool \<Rightarrow> bool \<Rightarrow> byte list \<Rightarrow> nat \<Rightarrow> byte" where
  "push_value g endian p i = (if g = endian then p ! i else p ! (length p - i - 1))"

definition push :: "bool \<Rightarrow> byte list \<Rightarrow> bool \<Rightarrow> byte_queue \<Rightarrow> byte_queue" where
  "push g p endian q =
     q\<lparr>bq_bytes := fold (\<lambda>i bs. bs @ [push_value g endian p i]) [0..<length p] (bq_bytes q)\<rparr>"

definition push_default :: "bool \<Rightarrow> byte list \<Rightarrow> byte_queue \<Rightarrow> byte_queue" where
  "push_default g p q = push g p (bq_defaultEndian q) q"

definition push_head :: "bool \<Rightarrow> byte list \<Rightarrow> bool \<Rightarrow> byte_queue \<Rightarrow> byte_queue" where
  "push_head g p endian q =
     q\<lparr>bq_bytes := fold (\<lambda>i bs. take i bs @ [push_value g endian p i] @ drop i bs)
                        [0..<length p] (bq_bytes q)\<rparr>"

definition push_head_default :: "bool \<Rightarrow> byte list \<Rightarrow> byte_queue \<Rightarrow> byte_queue" where
  "push_head_default g p q = push_head g p (bq_defaultEndian q) q"

definition pushraw :: "byte list \<Rightarrow> nat \<Rightarrow> byte_queue \<Rightarrow> byte_queue" where
  "pushraw datas len q = q\<lparr>bq_bytes := fold (\<lambda>i bs. bs @ [datas ! i]) [0..<len] (bq_bytes q)\<rparr>"

definition push_string :: "byte list \<Rightarrow> byte_queue \<Rightarrow> byte_queue" where
  "push_string data q = pushraw data (length data) q"

definition Remain :: "byte_queue \<Rightarrow> 64 word" where
  "Remain q = of_nat (length (bq_bytes q)) - bq_ptr q"

definition Size :: "byte_queue \<Rightarrow> nat" where
  "Size q = length (bq_bytes q)"

definition vector :: "byte_queue \<Rightarrow> byte list" where
  "vector q = bq_bytes q"

text \<open>\<open>std::vector::operator[]\<close>: outside the vector the behaviour is undefined.\<close>

definition vec_at :: "byte list \<Rightarrow> int \<Rightarrow> byte result" where
  "vec_at xs i = (if 0 \<le> i \<and> i < int (length xs) then Inr (xs ! nat i)
                  else Inl (Undefined ''vector index out of range''))"

fun map_result :: "('a \<Rightarrow> 'b result) \<Rightarrow> 'a list \<Rightarrow> 'b list result" where
  "map_result f [] = Inr []"
| "map_result f (x # xs) =
     bind_result (f x) (\<lambda>y. bind_result (map_result f xs) (\<lambda>ys. Inr (y # ys)))"

text \<open>
  \<open>pop<T>(peek, endian)\<close> with \<open>len = sizeof(T)\<close>: the lambda \<open>value\<close> takes the position as
  an \<open>int\<close>, so it is truncated to 32 bits and read as signed. The result is the object
  representation that \<open>memcpy\<close> copies into the returned \<open>T\<close>.
\<close>

definition pop :: "bool \<Rightarrow> nat \<Rightarrow> bool \<Rightarrow> bool \<Rightarrow> byte_queue \<Rightarrow> (byte list \<times> byte_queue) result" where
  "pop g len peek endian q =
     (if bq_ptr q + of_nat len > of_nat (length (bq_bytes q))
      then Inl (Out_of_range ''ByteQueue : Byte Out of Range'')
      else
        (let start = sint (ucast (bq_ptr q) :: 32 word);
             value = (\<lambda>i. vec_at (bq_bytes q)
               (if g = endian then start + int i else start + int len - int i - 1))
         in bind_result (map_result value [0..<len])
              (\<lambda>b. Inr (b, if peek then q else q\<lparr>bq_ptr := bq_ptr q + of_nat len\<rparr>))))"

definition pop_default :: "bool \<Rightarrow> nat \<Rightarrow> bool \<Rightarrow> byte_queue \<Rightarrow> (byte list \<times> byte_queue) result" where
  "pop_default g len peek q = pop g len peek (bq_defaultEndian q) q"

text \<open>
  \<open>pops<T>(size, peek, endian)\<close> with \<open>cell = sizeof(T)\<close>. \<open>reserve\<close> throws when the
  elements would not fit into a vector.
\<close>

definition pops :: "bool \<Rightarrow> nat \<Rightarrow> 64 word \<Rightarrow> bool \<Rightarrow> bool \<Rightarrow> byte_queue
    \<Rightarrow> (byte list list \<times> byte_queue) result" where
  "pops g cell size0 peek endian q =
     (let sz = (if size0 \<le> 0 then Remain q - bq_ptr q else size0)
      in if bq_ptr q + of_nat cell * sz > Remain q
         then Inl (Out_of_range ''ByteQueue : Byte Out of Range'')
         else if unat sz * cell > 2 ^ 63 - 1 then Inl (Runtime_error ''vector::reserve'')
         else bind_result
           (map_result (\<lambda>i. map_result (\<lambda>j. vec_at (bq_bytes q)
                (uint (bq_ptr q + of_nat i * of_nat cell + of_nat j)))
                (if g = endian then [0..<cell] else rev [0..<cell])) [0..<unat sz])
           (\<lambda>vs. Inr (vs, if peek then q else q\<lparr>bq_ptr := bq_ptr q + of_nat cell * sz\<rparr>)))"

definition pops_remain :: "bool \<Rightarrow> nat \<Rightarrow> bool \<Rightarrow> bool \<Rightarrow> byte_queue
    \<Rightarrow> (byte list list \<times> byte_queue) result" where
  "pops_remain g cell peek endian q = pops g cell (Remain q) peek endian q"

definition popstr_len :: "64 word \<Rightarrow> bool \<Rightarrow> byte_queue \<Rightarrow> (byte list \<times> byte_queue) result" where
  "popstr_len len peek q =
     (if bq_ptr q + len > of_nat (length (bq_bytes q))
      then Inl (Out_of_range ''ByteQueue::pop(int) : Byte Out of Range'')
      else bind_result
        (map_result (\<lambda>i. vec_at (bq_bytes q) (uint (of_nat i + bq_ptr q))) [0..<unat len])
        (\<lambda>s. Inr (s, if peek then q else q\<lparr>bq_ptr := bq_ptr q + len\<rparr>)))"

definition popstr :: "bool \<Rightarrow> byte_queue \<Rightarrow> (byte list \<times> byte_queue) result" where
  "popstr peek q = popstr_len (Remain q) peek q"

definition SetEndian :: "bool \<Rightarrow> byte_queue \<Rightarrow> byte_queue" where
  "SetEndian endian q = q\<lparr>bq_defaultEndian := endian\<rparr>"

text \<open>The \<open>int\<close> argument of \<open>Next\<close> and \<open>Prev\<close> is converted to \<open>unsigned long\<close>.\<close>

definition Next :: "int \<Rightarrow> byte_queue \<Rightarrow> byte_queue result" where
  "Next len q =
     (if bq_ptr q + of_int len > of_nat (length (bq_bytes q))
      then Inl (Out_of_range ''ByteQueue::Next(int) : Byte Out of Range'')
      else Inr (q\<lparr>bq_ptr := bq_ptr q + of_int len\<rparr>))"

definition Prev :: "int \<Rightarrow> byte_queue \<Rightarrow> byte_queue" where
  "Prev len q =
     (if len < 0 then q\<lparr>bq_ptr := 0\<rparr> else q\<lparr>bq_ptr := max (bq_ptr q - of_int len) 0\<rparr>)"

definition Reset :: "byte_queue \<Rightarrow> byte_queue" where
  "Reset q = q\<lparr>bq_ptr := 0\<rparr>"

definition bq_Clear :: "byte_queue \<Rightarrow> byte_queue" where
  "bq_Clear q = (Reset q)\<lparr>bq_bytes := []\<rparr>"

definition Create :: "bool \<Rightarrow> byte list \<Rightarrow> byte_queue" where
  "Create g p = push_default g p (bq_new g)"

definition Create_string :: "bool \<Rightarrow> byte list \<Rightarrow> byte_queue" where
  "Create_string g data = push_string data (bq_new g)"

text \<open>
  \<open>split(start, end)\<close>: the range passed to \<open>insert\<close> has to lie inside the vector with
  its ends in order, otherwise the behaviour is undefined.
\<close>

definition bq_split :: "int \<Rightarrow> int \<Rightarrow> byte_queue \<Rightarrow> byte_queue result" where
  "bq_split start0 end0 q =
     (let sz = int (length (bq_bytes q));
          start = (if start0 < 0 \<or> start0 \<ge> sz then sint (bq_ptr q) else start0);
          stop = (if end0 < 0 \<or> end0 \<ge> sz then sz else end0)
      in if 0 \<le> start \<and> start \<le> stop
         then Inr \<lparr>bq_defaultEndian = bq_defaultEndian q,
                   bq_bytes = take (nat stop - nat start) (drop (nat start) (bq_bytes q)),
                   bq_ptr = 0\<rparr>
         else Inl (Undefined ''invalid iterator range''))"

section \<open>What the operations compute\<close>

text \<open>
  A queue is well formed when its read position lies inside the data and the data is
  small enough for the \<open>int\<close> positions of \<open>pop\<close>.
\<close>

definition bq_wf :: "byte_queue \<Rightarrow> bool" where
  "bq_wf q \<longleftrightarrow> length (bq_bytes q) < 2 ^ 31 \<and> unat (bq_ptr q) \<le> length (bq_bytes q)"

text \<open>The bytes not read yet.\<close>

definition bq_rest :: "byte_queue \<Rightarrow> byte list" where
  "bq_rest q = drop (unat (bq_ptr q)) (bq_bytes q)"

text \<open>The byte order on the wire of an object representation.\<close>

definition ordered :: "bool \<Rightarrow> bool \<Rightarrow> byte list \<Rightarrow> byte list" where
  "ordered g endian p = (if g = endian then p else rev p)"

lemma length_ordered [simp]: "length (ordered g endian p) = length p"
  by (simp add: ordered_def)

lemma ordered_ordered [simp]: "ordered g endian (ordered g endian p) = p"
  by (simp add: ordered_def)

lemma fold_snoc_map: "fold (\<lambda>i bs. bs @ [f i]) is bs = bs @ map f is"
  by (induction "is" arbitrary: bs) simp_all

lemma map_push_value: "map (push_value g endian p) [0..<length p] = ordered g endian p"
  unfolding push_value_def [abs_def] ordered_def
  by (cases "g = endian") (simp_all add: map_nth map_nth_rev_upt [simplified])

lemma isLittleEndianSystem_host: "isLittleEndianSystem host_le = host_le"
proof -
  have "le_bytes 4 1 = [1, 0, 0, 0]"
    by code_simp
  then show ?thesis
    by (simp add: isLittleEndianSystem_def obj_def Let_def)
qed

lemma bq_of_vector_bytes [simp]: "bq_bytes (bq_of_vector g v) = v"
  by (simp add: bq_of_vector_def fold_snoc_map map_nth)

lemma bq_of_vector_ptr [simp]: "bq_ptr (bq_of_vector g v) = 0"
  by (simp add: bq_of_vector_def)

lemma bq_of_vector_defaultEndian [simp]: "bq_defaultEndian (bq_of_vector g v) = g"
  by (simp add: bq_of_vector_def)

lemma bq_copy_id [simp]: "bq_copy q = q"
  by (simp add: bq_copy_def)

lemma push_bytes: "bq_bytes (push g p endian q) = bq_bytes q @ ordered g endian p"
  by (simp add: push_def fold_snoc_map map_push_value)

lemma push_frame [simp]:
  "bq_ptr (push g p endian q) = bq_ptr q"
  "bq_defaultEndian (push g p endian q) = bq_defaultEndian q"
  by (simp_all add: push_def)

lemma push_default_bytes:
  "bq_bytes (push_default g p q) = bq_bytes q @ ordered g (bq_defaultEndian q) p"
  by (simp add: push_default_def push_bytes)

lemma push_head_fold:
  "fold (\<lambda>i bs. take i bs @ [f i] @ drop i bs) [0..<n] bs = map f [0..<n] @ bs"
  by (induction n) simp_all

lemma push_head_bytes: "bq_bytes (push_head g p endian q) = ordered g endian p @ bq_bytes q"
proof -
  have "fold (\<lambda>i bs. take i bs @ [push_value g endian p i] @ drop i bs) [0..<length p] (bq_bytes q)
      = map (push_value g endian p) [0..<length p] @ bq_bytes q"
    by (rule push_head_fold)
  then show ?thesis by (simp add: push_head_def map_push_value)
qed

lemma pushraw_bytes: "len \<le> length d \<Longrightarrow> bq_bytes (pushraw d len q) = bq_bytes q @ take len d"
  using map_nth_upt_offset [of 0 len d] by (simp add: pushraw_def fold_snoc_map)

lemma push_string_bytes: "bq_bytes (push_string d q) = bq_bytes q @ d"
  by (simp add: push_string_def pushraw_bytes)

lemma Create_bytes [simp]: "bq_bytes (Create g p) = p"
  by (simp add: Create_def push_default_bytes bq_new_def ordered_def)

lemma Create_frame [simp]: "bq_ptr (Create g p) = 0" "bq_defaultEndian (Create g p) = g"
  by (simp_all add: Create_def push_default_def bq_new_def)

lemma bq_add_bytes [simp]: "bq_bytes (bq_add q r) = bq_bytes q @ bq_bytes r"
  by (simp add: bq_add_def Let_def)

lemma bq_append_bytes [simp]: "bq_bytes (bq_append q r) = bq_bytes q @ bq_bytes r"
  by (simp add: bq_append_def)

subsection \<open>Reading\<close>

lemma map_result_Inr: "(\<And>x. x \<in> set xs \<Longrightarrow> f x = Inr (h x)) \<Longrightarrow> map_result f xs = Inr (map h xs)"
  by (induction xs) simp_all

lemma vec_at_nat: "j = int i \<Longrightarrow> i < length xs \<Longrightarrow> vec_at xs j = Inr (xs ! i)"
  by (simp add: vec_at_def)

lemma unat_of_nat_64: "n < 2 ^ 64 \<Longrightarrow> unat (of_nat n :: 64 word) = n"
  by (simp add: unsigned_of_nat take_bit_nat_eq_self)

lemma bq_ptr_add:
  assumes "bq_wf q" and "len < 2 ^ 32"
  shows "unat (bq_ptr q + of_nat len) = unat (bq_ptr q) + len"
proof -
  have "unat (bq_ptr q) < 2 ^ 31" using assms(1) by (simp add: bq_wf_def)
  with assms(2) show ?thesis
    by (simp add: unat_word_ariths unat_of_nat_64)
qed

lemma bq_ptr_int:
  assumes "bq_wf q"
  shows "sint (ucast (bq_ptr q) :: 32 word) = uint (bq_ptr q)"
proof -
  let ?n = "unat (bq_ptr q)"
  have n: "?n < 2 ^ 31" using assms by (simp add: bq_wf_def)
  have "(ucast (bq_ptr q) :: 32 word) = of_nat ?n"
    by simp
  moreover from n have "sint (of_nat ?n :: 32 word) = int ?n"
    by (simp add: signed_of_nat signed_take_bit_int_eq_self del: of_nat_unat)
  ultimately show ?thesis by simp
qed

lemma Remain_length: "bq_wf q \<Longrightarrow> unat (Remain q) = length (bq_rest q)"
proof -
  assume wf: "bq_wf q"
  then have l: "unat (of_nat (length (bq_bytes q)) :: 64 word) = length (bq_bytes q)"
    by (simp add: bq_wf_def unat_of_nat_64)
  with wf have "bq_ptr q \<le> of_nat (length (bq_bytes q))"
    by (simp add: word_le_nat_alt bq_wf_def)
  with l show ?thesis by (simp add: Remain_def bq_rest_def unat_sub)
qed

lemma pop_guard:
  assumes "bq_wf q" and "len < 2 ^ 32"
  shows "bq_ptr q + of_nat len > of_nat (length (bq_bytes q)) \<longleftrightarrow> length (bq_rest q) < len"
proof -
  have "unat (of_nat (length (bq_bytes q)) :: 64 word) = length (bq_bytes q)"
    using assms(1) by (simp add: bq_wf_def unat_of_nat_64)
  then show ?thesis
    using bq_ptr_add [OF assms] assms(1)
    by (auto simp: word_less_nat_alt bq_rest_def bq_wf_def)
qed

text \<open>On a well-formed queue, \<open>pop\<close> either reports that too little is left or reads.\<close>

lemma pop_short:
  assumes "bq_wf q" and "len < 2 ^ 32" and "length (bq_rest q) < len"
  shows "pop g len peek endian q = Inl (Out_of_range ''ByteQueue : Byte Out of Range'')"
  using pop_guard [OF assms(1,2)] assms(3) by (simp add: pop_def)

lemma pop_read:
  assumes wf: "bq_wf q" and len: "len \<le> length (bq_rest q)"
  shows "pop g len peek endian q =
    Inr (ordered g endian (take len (bq_rest q)),
         if peek then q else q\<lparr>bq_ptr := bq_ptr q + of_nat len\<rparr>)"
proof -
  let ?n = "unat (bq_ptr q)"
  from wf len have bound: "?n + len \<le> length (bq_bytes q)" and "len < 2 ^ 32"
    by (auto simp: bq_rest_def bq_wf_def)
  then have guard: "\<not> bq_ptr q + of_nat len > of_nat (length (bq_bytes q))"
    using pop_guard [OF wf] len by auto
  let ?v = "\<lambda>i. vec_at (bq_bytes q) (if g = endian then uint (bq_ptr q) + int i else uint (bq_ptr q) + int len - int i - 1)"
  have "?v i = Inr (bq_bytes q ! (if g = endian then ?n + i else ?n + len - i - 1))"
    if "i < len" for i
    using that bound by (auto intro!: vec_at_nat)
  then have "map_result ?v [0..<len] =
      Inr (map (\<lambda>i. bq_bytes q ! (if g = endian then ?n + i else ?n + len - i - 1)) [0..<len])"
    by (intro map_result_Inr) simp
  also have "\<dots> = Inr (ordered g endian (take len (bq_rest q)))"
    using map_nth_upt_offset [OF bound] map_nth_rev_upt_offset [OF bound]
    by (simp add: ordered_def bq_rest_def)
  finally show ?thesis
    using guard by (simp add: pop_def bq_ptr_int [OF wf] Let_def)
qed

subsection \<open>The invariant\<close>

lemma bq_wf_new [wf_intros]: "bq_wf (bq_new g)"
  by (simp add: bq_wf_def bq_new_def)

lemma bq_wf_of_vector [wf_intros]: "length v < 2 ^ 31 \<Longrightarrow> bq_wf (bq_of_vector g v)"
  by (simp add: bq_wf_def)

lemma bq_wf_push [wf_intros]:
  "bq_wf q \<Longrightarrow> length (bq_bytes q) + length p < 2 ^ 31 \<Longrightarrow> bq_wf (push g p endian q)"
  by (simp add: bq_wf_def push_bytes)

lemma bq_wf_advance:
  assumes "bq_wf q" and "len \<le> length (bq_rest q)"
  shows "bq_wf (q\<lparr>bq_ptr := bq_ptr q + of_nat len\<rparr>)"
    and "bq_rest (q\<lparr>bq_ptr := bq_ptr q + of_nat len\<rparr>) = drop len (bq_rest q)"
proof -
  have "len < 2 ^ 32" using assms by (auto simp: bq_wf_def bq_rest_def)
  note p = bq_ptr_add [OF assms(1) this]
  show "bq_wf (q\<lparr>bq_ptr := bq_ptr q + of_nat len\<rparr>)"
    using assms p by (auto simp: bq_wf_def bq_rest_def)
  show "bq_rest (q\<lparr>bq_ptr := bq_ptr q + of_nat len\<rparr>) = drop len (bq_rest q)"
    using p by (simp add: bq_rest_def add.commute)
qed

lemma bq_wf_pop [wf_intros]:
  assumes "bq_wf q" and "len < 2 ^ 32" and "pop g len peek endian q = Inr (b, q')"
  shows "bq_wf q'"
proof (cases "length (bq_rest q) < len")
  case True
  then show ?thesis using assms(3) pop_short [OF assms(1,2)] by simp
next
  case False
  then have "len \<le> length (bq_rest q)" by simp
  from pop_read [OF assms(1) this] bq_wf_advance(1) [OF assms(1) this] assms(1,3)
  show ?thesis by (auto split: if_splits)
qed

lemma bq_wf_Next [wf_intros]:
  assumes "bq_wf q" and "Next len q = Inr q'"
  shows "bq_wf q'"
proof -
  have "unat (of_nat (length (bq_bytes q)) :: 64 word) = length (bq_bytes q)"
    using assms(1) by (simp add: bq_wf_def unat_of_nat_64)
  with assms show ?thesis
    by (auto simp: Next_def bq_wf_def word_le_nat_alt not_less split: if_splits)
qed

lemma bq_wf_Prev [wf_intros]:
  assumes "bq_wf q" and "0 \<le> len" and "len \<le> uint (bq_ptr q)"
  shows "bq_wf (Prev len q)" and "unat (bq_ptr (Prev len q)) = unat (bq_ptr q) - nat len"
proof -
  have len: "(of_int len :: 64 word) = of_nat (nat len)"
    using assms(2) by simp
  have "nat len \<le> unat (bq_ptr q)" using assms(2,3) by (simp add: nat_le_iff)
  moreover have "unat (bq_ptr q) < 2 ^ 31" using assms(1) by (simp add: bq_wf_def)
  ultimately have n: "unat (of_nat (nat len) :: 64 word) = nat len"
    by (intro unat_of_nat_64) simp
  with \<open>nat len \<le> unat (bq_ptr q)\<close>
  have "unat (bq_ptr q - of_int len) = unat (bq_ptr q) - nat len"
    unfolding len by (subst unat_sub) (simp_all add: word_le_nat_alt)
  then show "unat (bq_ptr (Prev len q)) = unat (bq_ptr q) - nat len"
    using assms(2) by (simp add: Prev_def)
  with assms(1) show "bq_wf (Prev len q)"
    using assms(2) by (auto simp: bq_wf_def Prev_def)
qed

lemma bq_wf_Reset [wf_intros]: "bq_wf q \<Longrightarrow> bq_wf (Reset q)"
  by (simp add: bq_wf_def Reset_def)

lemma bq_wf_Clear [wf_intros]: "bq_wf (bq_Clear q)"
  by (simp add: bq_wf_def bq_Clear_def Reset_def)

lemma popstr_read:
  assumes wf: "bq_wf q"
  shows "popstr peek q = Inr (bq_rest q, if peek then q else q\<lparr>bq_ptr := bq_ptr q + Remain q\<rparr>)"
proof -
  let ?n = "unat (bq_ptr q)"
  have L: "length (bq_rest q) < 2 ^ 31" and n: "?n < 2 ^ 31"
    and sum: "?n + length (bq_rest q) = length (bq_bytes q)"
    using wf by (auto simp: bq_wf_def bq_rest_def)
  have R: "Remain q = of_nat (length (bq_rest q))"
    using Remain_length [OF wf] by (metis of_nat_unat ucast_id)
  have guard: "\<not> bq_ptr q + Remain q > of_nat (length (bq_bytes q))"
    using pop_guard [OF wf, of "length (bq_rest q)"] L unfolding R by simp
  have "uint (of_nat i + bq_ptr q) = int (?n + i)" if "i < length (bq_rest q)" for i
    using arg_cong [OF bq_ptr_add [OF wf, of i], of int] that L by (simp add: add.commute)
  then have "map_result (\<lambda>i. vec_at (bq_bytes q) (uint (of_nat i + bq_ptr q))) [0..<unat (Remain q)]
      = Inr (map (\<lambda>i. bq_bytes q ! (?n + i)) [0..<length (bq_rest q)])"
    unfolding Remain_length [OF wf]
    by (intro map_result_Inr vec_at_nat) (use sum in auto)
  also have "\<dots> = Inr (bq_rest q)"
    using map_nth_upt_offset [of ?n "length (bq_rest q)" "bq_bytes q"] sum
    by (simp add: bq_rest_def)
  finally show ?thesis
    using guard by (simp add: popstr_def popstr_len_def)
qed

subsection \<open>Sequences of fields\<close>

fun push_all :: "bool \<Rightarrow> bool \<Rightarrow> byte list list \<Rightarrow> byte_queue \<Rightarrow> byte_queue" where
  "push_all g endian [] q = q"
| "push_all g endian (p # ps) q = push_all g endian ps (push g p endian q)"

fun pop_all :: "bool \<Rightarrow> bool \<Rightarrow> nat list \<Rightarrow> byte_queue \<Rightarrow> (byte list list \<times> byte_queue) result" where
  "pop_all g endian [] q = Inr ([], q)"
| "pop_all g endian (n # ns) q =
     bind_result (pop g n False endian q)
       (\<lambda>(b, q'). bind_result (pop_all g endian ns q') (\<lambda>(bs, q''). Inr (b # bs, q'')))"

lemma push_all_bytes:
  "bq_bytes (push_all g endian ps q) = bq_bytes q @ concat (map (ordered g endian) ps)"
  by (induction ps arbitrary: q) (simp_all add: push_bytes)

lemma push_all_ptr [simp]: "bq_ptr (push_all g endian ps q) = bq_ptr q"
  by (induction ps arbitrary: q) simp_all

lemma pop_all_read:
  assumes "bq_wf q" and "bq_rest q = concat (map (ordered g endian) ps) @ t"
  shows "\<exists>q'. pop_all g endian (map length ps) q = Inr (ps, q') \<and> bq_wf q' \<and> bq_rest q' = t"
  using assms
proof (induction ps arbitrary: q)
  case Nil
  then show ?case by simp
next
  case (Cons p ps)
  let ?q = "q\<lparr>bq_ptr := bq_ptr q + of_nat (length p)\<rparr>"
  have len: "length p \<le> length (bq_rest q)"
    and rest: "drop (length p) (bq_rest q) = concat (map (ordered g endian) ps) @ t"
    and front: "take (length p) (bq_rest q) = ordered g endian p"
    using Cons.prems(2) by simp_all
  have "bq_wf ?q" and "bq_rest ?q = concat (map (ordered g endian) ps) @ t"
    using bq_wf_advance [OF Cons.prems(1) len] rest by simp_all
  from Cons.IH [OF this] pop_read [OF Cons.prems(1) len, of g False endian] front
  show ?case by auto
qed

section \<open>Typed fields\<close>

text \<open>
  \<open>pop<T>\<close> as the servers call it: in the default byte order, the bytes copied into a
  value of type \<open>T\<close>.
\<close>

definition pop_value :: "bool \<Rightarrow> (byte list \<Rightarrow> 'a) \<Rightarrow> nat \<Rightarrow> byte_queue \<Rightarrow> ('a \<times> byte_queue) result" where
  "pop_value g dec width q =
     bind_result (pop_default g width False q) (\<lambda>(b, q'). Inr (dec b, q'))"

text \<open>
  A field type: a width and a pair of conversions. Whatever is pushed as such a field is
  popped as the same value.
\<close>

locale field_codec =
  fixes enc :: "'a \<Rightarrow> byte list" and dec :: "byte list \<Rightarrow> 'a" and width :: nat
  assumes enc_width: "length (enc x) = width"
    and dec_enc: "dec (enc x) = x"
begin

lemma pop_field:
  assumes "bq_wf q" and "bq_rest q = ordered g (bq_defaultEndian q) (enc x) @ t"
  shows "\<exists>q'. pop_value g dec width q = Inr (x, q') \<and> bq_wf q' \<and> bq_rest q' = t
    \<and> bq_defaultEndian q' = bq_defaultEndian q"
proof -
  have len: "width \<le> length (bq_rest q)"
    and front: "take width (bq_rest q) = ordered g (bq_defaultEndian q) (enc x)"
    and rest: "drop width (bq_rest q) = t"
    using assms(2) enc_width [of x] by simp_all
  show ?thesis
    using pop_read [OF assms(1) len, of g False "bq_defaultEndian q"] bq_wf_advance [OF assms(1) len]
    by (simp add: pop_value_def pop_default_def front rest dec_enc)
qed

lemma pop_field_short:
  assumes "bq_wf q" and "width < 2 ^ 32" and "length (bq_rest q) < width"
  shows "pop_value g dec width q = Inl (Out_of_range ''ByteQueue : Byte Out of Range'')"
  using pop_short [OF assms] by (simp add: pop_value_def pop_default_def)

end

interpretation byte_field: field_codec "obj g :: 8 word \<Rightarrow> byte list" "of_obj g" 1 for g
  by unfold_locales (simp, rule of_obj_obj_8)

interpretation int_field: field_codec "obj g :: 32 word \<Rightarrow> byte list" "of_obj g" 4 for g
  by unfold_locales (simp, rule of_obj_obj_32)

interpretation id_field: field_codec "obj g :: 64 word \<Rightarrow> byte list" "of_obj g" 8 for g
  by unfold_locales (simp, rule of_obj_obj_64)

section \<open>Properties\<close>

text \<open>
  C34. Round trip: any sequence of fields pushed onto a fresh queue, in either byte order
  and on a host of either byte order, is popped unchanged and in the same order by reads
  of the same widths and the same byte order, and nothing is left over.
\<close>

theorem push_pop_roundtrip:
  assumes "length (concat ps) < 2 ^ 31"
  shows "\<exists>q'. pop_all g endian (map length ps) (push_all g endian ps (bq_new g)) = Inr (ps, q')
    \<and> Remain q' = 0"
proof -
  let ?q = "push_all g endian ps (bq_new g)"
  have bytes: "bq_bytes ?q = concat (map (ordered g endian) ps)"
    by (simp add: push_all_bytes bq_new_def)
  have "length (concat (map (ordered g endian) ps)) = length (concat ps)"
    by (simp add: length_concat comp_def)
  with assms bytes have wf: "bq_wf ?q" and rest: "bq_rest ?q = concat (map (ordered g endian) ps) @ []"
    by (simp_all add: bq_wf_def bq_rest_def bq_new_def)
  from pop_all_read [OF wf rest] Remain_length show ?thesis
    by (fastforce simp: unat_eq_0)
qed

theorem push_pop_roundtrip_witness:
  "\<exists>q'. pop_all True False [1, 4] (push_all True False [[31], obj True (7 :: 32 word)] (bq_new True))
     = Inr ([[31], obj True (7 :: 32 word)], q') \<and> Remain q' = 0"
  using push_pop_roundtrip [of "[[31], obj True (7 :: 32 word)]" True False] by simp

text \<open>
  Reading is safe: on a well-formed queue \<open>pop\<close> never reads outside the data. It throws
  \<open>std::out_of_range\<close> exactly when fewer than \<open>sizeof(T)\<close> bytes are left; otherwise it
  returns the next bytes in the requested order, advances by exactly that many bytes
  unless it only peeks, and leaves a well-formed queue.
\<close>

theorem pop_safe:
  assumes "bq_wf q" and "len < 2 ^ 32"
  shows "pop g len peek endian q =
    (if length (bq_rest q) < len
     then Inl (Out_of_range ''ByteQueue : Byte Out of Range'')
     else Inr (ordered g endian (take len (bq_rest q)),
               if peek then q else q\<lparr>bq_ptr := bq_ptr q + of_nat len\<rparr>))
   \<and> (\<forall>b q'. pop g len peek endian q = Inr (b, q') \<longrightarrow>
        bq_wf q' \<and> bq_rest q' = (if peek then bq_rest q else drop len (bq_rest q)))"
proof (cases "length (bq_rest q) < len")
  case True
  then show ?thesis using pop_short [OF assms] by simp
next
  case False
  then have "len \<le> length (bq_rest q)" by simp
  from pop_read [OF assms(1) this, of g peek endian] bq_wf_advance [OF assms(1) this] assms(1) False
  show ?thesis by simp
qed

theorem pop_safe_witness:
  "pop True 2 False True (bq_of_vector True [1, 2, 3]) =
     Inr ([1, 2], (bq_of_vector True [1, 2, 3])\<lparr>bq_ptr := 2\<rparr>)"
proof -
  have "bq_wf (bq_of_vector True [1, 2, 3])" by (simp add: bq_wf_of_vector)
  from pop_safe [OF this, of 2 True False True] show ?thesis
    by (simp add: bq_rest_def ordered_def)
qed

text \<open>
  \<open>Prev\<close> does not stop at the first byte. Its comment promises that a step back past
  the start sets the position to 0; because the difference is taken on \<open>unsigned long\<close>,
  the position wraps around to \<open>2^64 + ptr - len\<close> instead, and the check of the next
  \<open>pop\<close> of \<open>len\<close> or more bytes wraps too, so that it does not throw but reads outside
  the data.
\<close>

theorem Prev_wraps:
  assumes "bq_wf q" and "uint (bq_ptr q) < len" and "len < 2 ^ 31"
  shows "uint (bq_ptr (Prev len q)) = 2 ^ 64 + uint (bq_ptr q) - len
    \<and> \<not> bq_wf (Prev len q)
    \<and> (bq_ptr q = 0 \<and> len = 1 \<longrightarrow>
        pop g 1 peek True (Prev len q) = Inl (Undefined ''vector index out of range''))"
proof -
  have pos: "0 \<le> len" using assms(2) uint_ge_0 [of "bq_ptr q"] by linarith
  have "uint (bq_ptr q - of_int len) = (uint (bq_ptr q) - len) mod 2 ^ 64"
    by (simp add: uint_word_ariths uint_word_of_int_eq take_bit_eq_mod mod_simps)
  also have "\<dots> = (2 ^ 64 + uint (bq_ptr q) - len) mod 2 ^ 64"
    using mod_add_self1 [of "2 ^ 64" "uint (bq_ptr q) - len"] by (simp add: add_diff_eq)
  also have "\<dots> = 2 ^ 64 + uint (bq_ptr q) - len"
    using assms(2,3) uint_ge_0 [of "bq_ptr q"] by (intro mod_pos_pos_trivial) (simp_all, use uint_ge_0 [of "bq_ptr q"] in linarith)
  finally have p: "uint (bq_ptr (Prev len q)) = 2 ^ 64 + uint (bq_ptr q) - len"
    using pos by (simp add: Prev_def)
  have "uint (bq_ptr (Prev len q)) \<ge> 2 ^ 31" using p assms(3) by (simp, use uint_ge_0 [of "bq_ptr q"] in linarith)
  then have nwf: "\<not> bq_wf (Prev len q)"
    using assms(1) by (auto simp: bq_wf_def Prev_def simp flip: of_nat_le_iff [where 'a = int])
  have "pop g 1 peek True (Prev len q) = Inl (Undefined ''vector index out of range'')"
    if "bq_ptr q = 0" "len = 1"
  proof -
    have "sint (ucast (- 1 :: 64 word) :: 32 word) = - 1" by code_simp
    with that show ?thesis by (simp add: pop_def Prev_def Let_def vec_at_def)
  qed
  with p nwf show ?thesis by blast
qed

theorem Prev_wraps_witness:
  "uint (bq_ptr (Prev 1 (bq_of_vector True [5]))) = 2 ^ 64 - 1
   \<and> \<not> bq_wf (Prev 1 (bq_of_vector True [5]))
   \<and> pop True 1 False True (Prev 1 (bq_of_vector True [5]))
       = Inl (Undefined ''vector index out of range'')"
proof -
  have "bq_wf (bq_of_vector True [5])" by (simp add: bq_wf_of_vector)
  from Prev_wraps [OF this, of 1 True False] show ?thesis by simp
qed

text \<open>
  \<open>pops<T>()\<close> is documented to return all of the remaining data as values of type
  \<open>T\<close>. It passes the number of remaining \<^emph>\<open>bytes\<close> as the number of elements, so for every
  \<open>T\<close> wider than one byte it throws \<open>std::out_of_range\<close> on every queue that still holds data.
\<close>

theorem pops_remain_throws:
  assumes "bq_wf q" and "bq_rest q \<noteq> []" and "2 \<le> cell" and "cell < 2 ^ 31"
  shows "pops_remain g cell peek endian q = Inl (Out_of_range ''ByteQueue : Byte Out of Range'')"
proof -
  let ?r = "length (bq_rest q)" and ?p = "unat (bq_ptr q)"
  have r: "0 < ?r" "?r < 2 ^ 31" "?p < 2 ^ 31"
    using assms(1,2) by (auto simp: bq_wf_def bq_rest_def)
  have R: "unat (Remain q) = ?r" by (rule Remain_length [OF assms(1)])
  have "cell * ?r < 2 ^ 31 * 2 ^ 31"
    using assms(4) r by (intro mult_strict_mono) auto
  then have "?p + cell * ?r < 2 ^ 64" using r by simp
  then have "unat (bq_ptr q + of_nat cell * Remain q) = ?p + cell * ?r"
    using R assms(4) by (simp add: unat_word_ariths unat_of_nat_64)
  moreover have "?r < ?p + cell * ?r" using r assms(3) by (cases cell) auto
  ultimately have "Remain q < bq_ptr q + of_nat cell * Remain q"
    using R by (simp add: word_less_nat_alt)
  moreover have "\<not> Remain q \<le> 0" using R r by (simp add: word_le_nat_alt)
  ultimately show ?thesis by (simp add: pops_remain_def pops_def Let_def)
qed

theorem pops_remain_throws_witness:
  "pops_remain True 4 False True (Create True (obj True (7 :: 32 word)))
     = Inl (Out_of_range ''ByteQueue : Byte Out of Range'')"
proof -
  have "length (obj True (7 :: 32 word)) = 4" by simp
  then have "obj True (7 :: 32 word) \<noteq> []" by force
  then have "bq_wf (Create True (obj True (7 :: 32 word)))"
    and "bq_rest (Create True (obj True (7 :: 32 word))) \<noteq> []"
    by (simp_all add: bq_wf_def bq_rest_def)
  then show ?thesis by (rule pops_remain_throws) simp_all
qed

end
