(* ===== verification/Encoder.thy ===== *)
theory Encoder
  imports Prelude
begin

unbundle bit_operations_syntax

text \<open>
  The Base64 coder of \<open>utils/Encoder.cpp\<close>, which carries cookies and password hashes as
  text. It writes no padding characters. A \<open>std::string\<close> is a \<open>string\<close>; a \<open>char\<close> is
  signed on the target, so \<open>(int)c\<close> is negative for the codes 128 to 255.
\<close>

section \<open>Tables and bit fields\<close>

definition charset :: string where
  "charset = ''ABCDEFGHIJKLMNOPQRSTUVWXYZabcdefghijklmnopqrstuvwxyz0123456789+/''"

definition mapset :: "nat list" where
  "mapset =
    [255, 255, 255, 255, 255, 255, 255, 255, 255, 255, 255, 255, 255, 255, 255, 255,
     255, 255, 255, 255, 255, 255, 255, 255, 255, 255, 255, 255, 255, 255, 255, 255,
     255, 255, 255, 255, 255, 255, 255, 255, 255, 255, 255,  62, 255, 255, 255,  63,
      52,  53,  54,  55,  56,  57,  58,  59,  60,  61, 255, 255, 255, 255, 255, 255,
     255,   0,   1,   2,   3,   4,   5,   6,   7,   8,   9,  10,  11,  12,  13,  14,
      15,  16,  17,  18,  19,  20,  21,  22,  23,  24,  25, 255, 255, 255, 255, 255,
     255,  26,  27,  28,  29,  30,  31,  32,  33,  34,  35,  36,  37,  38,  39,  40,
      41,  42,  43,  44,  45,  46,  47,  48,  49,  50,  51, 255, 255, 255, 255, 255]
    @ replicate 128 255"

definition cut_6_2 :: "byte \<Rightarrow> byte" where
  "cut_6_2 s = drop_bit 2 (s AND 0xFC)"

definition cut_2_6 :: "byte \<Rightarrow> byte" where
  "cut_2_6 s = s AND 0x3F"

definition mix_2_4 :: "byte \<Rightarrow> byte \<Rightarrow> byte" where
  "mix_2_4 lhs rhs = push_bit 4 (lhs AND 0x03) OR drop_bit 4 (rhs AND 0xF0)"

definition mix_4_2 :: "byte \<Rightarrow> byte \<Rightarrow> byte" where
  "mix_4_2 lhs rhs = push_bit 2 (lhs AND 0x0F) OR drop_bit 6 (rhs AND 0xC0)"

definition mix_6_2 :: "byte \<Rightarrow> byte \<Rightarrow> byte" where
  "mix_6_2 lhs rhs = push_bit 2 lhs OR drop_bit 4 (rhs AND 0x30)"

definition mix_4_4 :: "byte \<Rightarrow> byte \<Rightarrow> byte" where
  "mix_4_4 lhs rhs = push_bit 4 (lhs AND 0x0F) OR drop_bit 2 (rhs AND 0x3C)"

definition mix_2_6 :: "byte \<Rightarrow> byte \<Rightarrow> byte" where
  "mix_2_6 lhs rhs = push_bit 6 (lhs AND 0x03) OR rhs"

section \<open>Encoding and decoding\<close>

definition charset_at :: "byte \<Rightarrow> char" where
  "charset_at b = charset ! unat b"

definition EncodeBase64 :: "byte list \<Rightarrow> string" where
  "EncodeBase64 bytes =
     (let len = length bytes in
      concat (map (\<lambda>i.
        let c1 = bytes ! (3 * i); c2 = bytes ! (3 * i + 1); c3 = bytes ! (3 * i + 2)
        in [charset_at (cut_6_2 c1), charset_at (mix_2_4 c1 c2),
            charset_at (mix_4_2 c2 c3), charset_at (cut_2_6 c3)]) [0..<len div 3])
      @ (if len mod 3 = 1 then
           (let c1 = bytes ! (len - 1)
            in [charset_at (cut_6_2 c1), charset_at (mix_2_4 c1 0)])
         else if len mod 3 = 2 then
           (let c1 = bytes ! (len - 2); c2 = bytes ! (len - 1)
            in [charset_at (cut_6_2 c1), charset_at (mix_2_4 c1 c2), charset_at (mix_4_2 c2 0)])
         else []))"

text \<open>\<open>mapset[(int)c]\<close>: a negative index is outside the array.\<close>

definition mapset_at :: "char \<Rightarrow> nat result" where
  "mapset_at c = (if of_char c \<ge> (128::nat) then Inl (Undefined ''mapset index out of range'')
                  else Inr (mapset ! of_char c))"

text \<open>
  The loop over the characters: \<open>phase\<close> is the position in the group of four, \<open>prev\<close> the
  sextet before. In phase 3 the code sets \<open>phase\<close> to -1 and the increment makes it 0.
\<close>

fun decode_loop :: "string \<Rightarrow> nat \<Rightarrow> byte \<Rightarrow> byte list \<Rightarrow> (nat \<times> byte list) result" where
  "decode_loop [] phase prev res = Inr (phase, res)"
| "decode_loop (c # cs) phase prev res =
     bind_result (mapset_at c) (\<lambda>d.
       if d \<ge> 255 then Inl (Runtime_error ''Unknown Character : '')
       else
         (let uc = of_nat d :: byte
          in if phase = 0 then decode_loop cs 1 uc res
             else if phase = 1 then decode_loop cs 2 uc (res @ [mix_6_2 prev uc])
             else if phase = 2 then decode_loop cs 3 uc (res @ [mix_4_4 prev uc])
             else decode_loop cs 0 uc (res @ [mix_2_6 prev uc])))"

definition DecodeBase64 :: "string \<Rightarrow> byte list result" where
  "DecodeBase64 str =
     bind_result (decode_loop str 0 0 [])
       (\<lambda>(phase, res). if phase = 1 then Inl (Runtime_error ''Broken Data'') else Inr res)"

section \<open>The bit fields put together again\<close>

lemma byte_bit_cases: "n < 8 \<Longrightarrow> n = 0 \<or> n = 1 \<or> n = 2 \<or> n = 3 \<or> n = 4 \<or> n = 5 \<or> n = 6 \<or> n = (7::nat)"
  by arith

lemmas field_defs = cut_6_2_def cut_2_6_def mix_2_4_def mix_4_2_def mix_6_2_def mix_4_4_def mix_2_6_def

lemma byte_eqI: "(\<And>n. n < 8 \<Longrightarrow> bit (a :: byte) n = bit b n) \<Longrightarrow> a = b"
  by (rule bit_word_eqI) simp

lemma mix_6_2_inverse: "mix_6_2 (cut_6_2 a) (mix_2_4 a b) = a"
  by (rule byte_eqI, drule byte_bit_cases)
    (auto simp: field_defs bit_simps, simp_all add: numeral_2_eq_2 numeral_3_eq_3)

lemma mix_4_4_inverse: "mix_4_4 (mix_2_4 a b) (mix_4_2 b c) = b"
  by (rule byte_eqI, drule byte_bit_cases) (auto simp: field_defs bit_simps)

lemma mix_2_6_inverse: "mix_2_6 (mix_4_2 b c) (cut_2_6 c) = c"
  by (rule byte_eqI, drule byte_bit_cases) (auto simp: field_defs bit_simps)

text \<open>The four fields an encoder writes are sextets.\<close>

lemma sextet_lt: "(\<And>n. n = 6 \<or> n = 7 \<Longrightarrow> \<not> bit (b :: byte) n) \<Longrightarrow> unat b < 64"
proof -
  assume h: "\<And>n. n = 6 \<or> n = 7 \<Longrightarrow> \<not> bit b n"
  have "b = b AND 0x3F"
    by (rule byte_eqI, drule byte_bit_cases) (use h in \<open>auto simp: bit_simps\<close>)
  then have "b \<le> 0x3F" by (metis word_and_le1)
  then show ?thesis by (simp add: word_le_nat_alt)
qed

lemma fields_lt:
  "unat (cut_6_2 a) < 64" "unat (mix_2_4 a b) < 64" "unat (mix_4_2 a b) < 64" "unat (cut_2_6 a) < 64"
  by (rule sextet_lt, auto simp: field_defs bit_simps)+

section \<open>The tables are inverse to each other\<close>

lemma charset_length [simp]: "length charset = 64"
  by (simp add: charset_def)

lemma mapset_length [simp]: "length mapset = 256"
  by (simp add: mapset_def)

lemma charset_table: "map mapset_at charset = map Inr [0..<64]"
  by (simp add: charset_def mapset_def mapset_at_def upt_rec)

lemma mapset_at_charset: "k < 64 \<Longrightarrow> mapset_at (charset ! k) = Inr k"
  using arg_cong [OF charset_table, of "\<lambda>xs. xs ! k"] by simp

lemma mapset_table:
  "list_all (\<lambda>(n, d). d < 255 \<longrightarrow> d < 64 \<and> of_char (charset ! d) = n) (zip [0..<128] mapset)"
  by (simp add: charset_def mapset_def upt_rec)

text \<open>The sextet of a character, where it has one.\<close>

lemma mapset_at_valid:
  assumes "of_char c < (128::nat)" and "mapset ! of_char c < 255"
  shows "mapset ! of_char c < 64" and "c \<in> set charset"
proof -
  have "(of_char c, mapset ! of_char c) \<in> set (zip [0..<128] mapset)"
    using assms(1) by (force simp: set_zip)
  then have h: "mapset ! of_char c < 64 \<and> of_char (charset ! (mapset ! of_char c)) = (of_char c :: nat)"
    using mapset_table assms(2) by (auto simp: list_all_iff)
  then show "mapset ! of_char c < 64" by simp
  from h have "c = charset ! (mapset ! of_char c)" by simp
  with h show "c \<in> set charset" by (metis charset_length nth_mem)
qed

lemma mapset_at_charset_set:
  assumes "c \<in> set charset"
  obtains k where "k < 64" and "mapset_at c = Inr k"
  using assms mapset_at_charset by (auto simp: in_set_conv_nth)

lemma charset_at_in: "unat b < 64 \<Longrightarrow> charset_at b \<in> set charset"
  by (simp add: charset_at_def)

lemma decode_loop_charset_at:
  assumes "unat b < 64"
  shows "decode_loop (charset_at b # cs) phase prev res =
    (if phase = 0 then decode_loop cs 1 b res
     else if phase = 1 then decode_loop cs 2 b (res @ [mix_6_2 prev b])
     else if phase = 2 then decode_loop cs 3 b (res @ [mix_4_4 prev b])
     else decode_loop cs 0 b (res @ [mix_2_6 prev b]))"
  using assms by (simp add: charset_at_def mapset_at_charset Let_def)

section \<open>Encoding by groups of three\<close>

fun encode3 :: "byte list \<Rightarrow> string" where
  "encode3 [] = []"
| "encode3 [a] = [charset_at (cut_6_2 a), charset_at (mix_2_4 a 0)]"
| "encode3 [a, b] = [charset_at (cut_6_2 a), charset_at (mix_2_4 a b), charset_at (mix_4_2 b 0)]"
| "encode3 (a # b # c # r) =
     [charset_at (cut_6_2 a), charset_at (mix_2_4 a b), charset_at (mix_4_2 b c), charset_at (cut_2_6 c)]
     @ encode3 r"

abbreviation group3 :: "byte list \<Rightarrow> nat \<Rightarrow> string" where
  "group3 bs i \<equiv> [charset_at (cut_6_2 (bs ! (3 * i))), charset_at (mix_2_4 (bs ! (3 * i)) (bs ! (3 * i + 1))),
     charset_at (mix_4_2 (bs ! (3 * i + 1)) (bs ! (3 * i + 2))), charset_at (cut_2_6 (bs ! (3 * i + 2)))]"

lemma group3_shift: "group3 (a # b # c # r) (Suc i) = group3 r i"
proof -
  have "3 * Suc i = Suc (Suc (Suc (3 * i)))" by simp
  then show ?thesis by (simp only: nth_Cons_Suc add_Suc)
qed

lemma groups_step:
  "concat (map (group3 (a # b # c # r)) [0..<Suc n]) =
   group3 (a # b # c # r) 0 @ concat (map (group3 r) [0..<n])"
proof -
  have "map (group3 (a # b # c # r)) [0..<Suc n] =
      group3 (a # b # c # r) 0 # map (\<lambda>i. group3 (a # b # c # r) (Suc i)) [0..<n]"
    by (subst map_upt_Suc) (rule refl)
  then show ?thesis by (simp only: group3_shift concat.simps)
qed

lemma EncodeBase64_step:
  "EncodeBase64 (a # b # c # r) =
     [charset_at (cut_6_2 a), charset_at (mix_2_4 a b), charset_at (mix_4_2 b c), charset_at (cut_2_6 c)]
     @ EncodeBase64 r"
proof -
  have div: "length (a # b # c # r) div 3 = Suc (length r div 3)"
    and md: "length (a # b # c # r) mod 3 = length r mod 3" by simp_all
  have last1: "(a # b # c # r) ! (length (a # b # c # r) - 1) = r ! (length r - 1)" if "r \<noteq> []"
    using that by (cases r) auto
  have last2: "(a # b # c # r) ! (length (a # b # c # r) - 2) = r ! (length r - 2)"
    if "length r mod 3 = 2"
    using that by (cases r; cases "tl r") auto
  have ne: "length r mod 3 \<noteq> 0 \<Longrightarrow> r \<noteq> []" by auto
  show ?thesis
    unfolding EncodeBase64_def Let_def div md groups_step
    using last1 last2 ne by simp
qed

lemma EncodeBase64_encode3: "EncodeBase64 bs = encode3 bs"
proof (induction bs rule: encode3.induct)
  case (4 a b c r)
  then show ?case by (simp add: EncodeBase64_step)
qed (simp_all add: EncodeBase64_def)

section \<open>Decoding what was encoded\<close>

lemma decode_loop_encode3:
  "decode_loop (encode3 bs) 0 prev res =
     Inr (if length bs mod 3 = 0 then 0 else Suc (length bs mod 3), res @ bs)"
  by (induction bs arbitrary: prev res rule: encode3.induct)
    (simp_all add: decode_loop_charset_at fields_lt mix_6_2_inverse mix_4_4_inverse mix_2_6_inverse
      del: decode_loop.simps(2))

lemma DecodeBase64_EncodeBase64: "DecodeBase64 (EncodeBase64 bs) = Inr bs"
  by (simp add: DecodeBase64_def EncodeBase64_encode3 decode_loop_encode3)

lemma length_encode3: "length (encode3 bs) = (4 * length bs + 2) div 3"
  by (induction bs rule: encode3.induct) simp_all

lemma set_encode3: "set (encode3 bs) \<subseteq> set charset"
  by (induction bs rule: encode3.induct) (auto simp: charset_at_in fields_lt)

text \<open>A coder of byte sequences as text, and what its users rely on.\<close>

locale text_codec =
  fixes encode :: "'a \<Rightarrow> string" and decode :: "string \<Rightarrow> 'a result"
  assumes decode_encode: "decode (encode x) = Inr x"
begin

lemma encode_inject: "encode x = encode y \<longleftrightarrow> x = y"
  by (metis decode_encode sum.inject(2))

lemma keys_distinct: "x \<noteq> y \<Longrightarrow> prefix @ encode x \<noteq> prefix @ encode y"
  by (simp add: encode_inject)

end

interpretation base64: text_codec EncodeBase64 DecodeBase64
  by unfold_locales (rule DecodeBase64_EncodeBase64)

section \<open>Decoding arbitrary text\<close>

lemma decode_loop_ok:
  assumes "set cs \<subseteq> set charset" and "phase < 4"
  shows "\<exists>bs. decode_loop cs phase prev res = Inr ((phase + length cs) mod 4, res @ bs)
    \<and> length bs = (3 * (length cs + phase)) div 4 - (3 * phase) div 4"
  using assms
proof (induction cs arbitrary: phase prev res)
  case Nil
  then show ?case by simp
next
  case (Cons c cs)
  obtain k where k: "k < 64" "mapset_at c = Inr k"
    using Cons.prems(1) by (auto elim: mapset_at_charset_set)
  have ph: "phase = 0 \<or> phase = 1 \<or> phase = 2 \<or> phase = 3" using Cons.prems(2) by arith
  let ?new = "if phase = 0 then [] else if phase = 1 then [mix_6_2 prev (of_nat k)]
      else if phase = 2 then [mix_4_4 prev (of_nat k)] else [mix_2_6 prev (of_nat k)]"
  have step: "decode_loop (c # cs) phase prev res = decode_loop cs (Suc phase mod 4) (of_nat k) (res @ ?new)"
    using ph k by (elim disjE) (simp_all add: Let_def del: One_nat_def)
  from Cons.IH [of "Suc phase mod 4" "of_nat k" "res @ ?new"] Cons.prems(1)
  obtain bs where bs: "decode_loop cs (Suc phase mod 4) (of_nat k) (res @ ?new)
        = Inr ((Suc phase mod 4 + length cs) mod 4, (res @ ?new) @ bs)"
      "length bs = (3 * (length cs + Suc phase mod 4)) div 4 - (3 * (Suc phase mod 4)) div 4"
    by auto
  have "(Suc phase mod 4 + length cs) mod 4 = (phase + length (c # cs)) mod 4"
    by (simp add: mod_simps)
  moreover have "length (?new @ bs) = (3 * (length (c # cs) + phase)) div 4 - (3 * phase) div 4"
    using ph bs(2) by (elim disjE) simp_all
  ultimately show ?case
    unfolding step bs(1) by (intro exI [of _ "?new @ bs"]) simp
qed

lemma decode_loop_bad:
  assumes "\<forall>c \<in> set cs. of_char c < (128::nat)" and "\<not> set cs \<subseteq> set charset"
  shows "\<exists>msg. decode_loop cs phase prev res = Inl (Runtime_error msg)"
  using assms
proof (induction cs arbitrary: phase prev res)
  case Nil
  then show ?case by simp
next
  case (Cons c cs)
  show ?case
  proof (cases "mapset ! of_char c < 255")
    case True
    then have "c \<in> set charset" using Cons.prems(1) by (auto intro: mapset_at_valid(2))
    with Cons.prems have "\<not> set cs \<subseteq> set charset" by auto
    with Cons show ?thesis by (auto simp: mapset_at_def Let_def)
  next
    case False
    with Cons.prems(1) show ?thesis by (simp add: mapset_at_def)
  qed
qed

section \<open>Properties\<close>

text \<open>
  Base64 round trip: decoding what \<open>EncodeBase64\<close> wrote gives back exactly the bytes,
  for every byte sequence; the text uses only the 64 characters of the alphabet (no blank,
  no padding) and has \<open>\<lceil>4n/3\<rceil>\<close> characters, which is 43 for a SHA-256 digest.
\<close>

theorem base64_roundtrip:
  "DecodeBase64 (EncodeBase64 bs) = Inr bs
   \<and> set (EncodeBase64 bs) \<subseteq> set charset
   \<and> length (EncodeBase64 bs) = (4 * length bs + 2) div 3"
  using base64.decode_encode set_encode3 length_encode3
  by (simp add: EncodeBase64_encode3)

text \<open>
  Decoding arbitrary 7-bit text never reads outside the table: it succeeds exactly when
  every character is of the alphabet and the length is not 1 modulo 4, then gives
  \<open>\<lfloor>3n/4\<rfloor>\<close> bytes, and throws \<open>std::runtime_error\<close> otherwise. A character with its top bit set
  in front of such text makes the (signed) table index negative: undefined behaviour.
\<close>

theorem DecodeBase64_total:
  assumes "\<forall>c \<in> set s. of_char c < (128::nat)"
  shows "(if set s \<subseteq> set charset \<and> length s mod 4 \<noteq> 1
     then \<exists>bs. DecodeBase64 s = Inr bs \<and> length bs = 3 * length s div 4
     else \<exists>msg. DecodeBase64 s = Inl (Runtime_error msg))
    \<and> (\<forall>c. of_char c \<ge> (128::nat) \<longrightarrow>
        DecodeBase64 (c # s) = Inl (Undefined ''mapset index out of range''))"
proof -
  have "\<exists>msg. DecodeBase64 s = Inl (Runtime_error msg)" if "\<not> set s \<subseteq> set charset"
    using decode_loop_bad [OF assms that, of 0 0 "[]"] by (auto simp: DecodeBase64_def)
  moreover have "if length s mod 4 \<noteq> 1
      then \<exists>bs. DecodeBase64 s = Inr bs \<and> length bs = 3 * length s div 4
      else \<exists>msg. DecodeBase64 s = Inl (Runtime_error msg)" if "set s \<subseteq> set charset"
    using decode_loop_ok [OF that, of 0 0 "[]"] by (auto simp: DecodeBase64_def)
  moreover have "DecodeBase64 (c # s) = Inl (Undefined ''mapset index out of range'')"
    if "of_char c \<ge> (128::nat)" for c
    using that by (simp add: DecodeBase64_def mapset_at_def)
  ultimately show ?thesis by (cases "set s \<subseteq> set charset") auto
qed

theorem DecodeBase64_total_witness:
  "(\<exists>msg. DecodeBase64 ''A'' = Inl (Runtime_error msg))
   \<and> DecodeBase64 (CHR 0xE9 # ''A'') = Inl (Undefined ''mapset index out of range'')"
  using DecodeBase64_total [of "''A''"] by (simp add: charset_def)

end
