(* ===== verification/PacketProcessor.thy ===== *)
theory PacketProcessor
  imports Codes
begin

text \<open>
  The framing layer of \<open>utils/PacketProcessor.cpp\<close>: it turns the byte stream of a socket
  back into the messages the peer sent, however the stream was cut into pieces. A message
  is escaped (the byte \<open>pattern\<close> is doubled) and closed by \<open>pattern\<close>, \<open>eof\<close>.

  The mutex makes every operation atomic, so an operation is a function on the state;
  waking a waiting thread has no effect on the state. \<open>JoinMsg\<close> is modelled at the moment
  its wait ends.
\<close>

section \<open>State and operations\<close>

definition eof :: byte where
  "eof = 0xff"

definition pattern :: byte where
  "pattern = 0xee"

record packet_processor =
  pp_isRunning :: bool
  pp_msgs :: "byte list list"
  pp_recvbuffer :: "byte list"

definition pp_new :: packet_processor where
  "pp_new = \<lparr>pp_isRunning = True, pp_msgs = [], pp_recvbuffer = []\<rparr>"

text \<open>\<open>split\<close>: the position of the first end of a message, or -1 (here \<open>None\<close>).\<close>

function split_from :: "byte list \<Rightarrow> nat \<Rightarrow> nat option" where
  "split_from buf i =
     (if i + 1 < length buf then
        (if buf ! i = pattern \<and> buf ! (i + 1) = pattern then split_from buf (i + 2)
         else if buf ! i = pattern \<and> buf ! (i + 1) = eof then Some i
         else split_from buf (i + 1))
      else None)"
  by pat_completeness auto
termination
  by (relation "measure (\<lambda>(buf, i). length buf - i)") auto

declare split_from.simps [simp del]

definition split :: "byte list \<Rightarrow> nat option" where
  "split buf = split_from buf 0"

text \<open>
  \<open>decapsulate\<close>: after a \<open>pattern\<close> the iterator moves on and is read without a check, so
  a \<open>pattern\<close> at the very end reads past the vector.
\<close>

fun decapsulate_loop :: "byte list \<Rightarrow> byte list \<Rightarrow> byte list result" where
  "decapsulate_loop [] res = Inr res"
| "decapsulate_loop (b # r) res =
     (if b = pattern then
        (case r of
           [] \<Rightarrow> Inl (Undefined ''iterator past the end'')
         | b' # r' \<Rightarrow> if b' = eof then Inr res else decapsulate_loop r' (res @ [b']))
      else decapsulate_loop r (res @ [b]))"

definition decapsulate :: "byte list \<Rightarrow> byte list result" where
  "decapsulate data = decapsulate_loop data []"

definition encapsulate :: "byte list \<Rightarrow> byte list" where
  "encapsulate data =
     fold (\<lambda>b res. (if b = pattern then res @ [pattern] else res) @ [b]) data [] @ [pattern] @ [eof]"

lemma split_from_bound: "split_from buf i = Some p \<Longrightarrow> i \<le> p \<and> p + 1 < length buf"
proof (induction buf i rule: split_from.induct)
  case (1 buf i)
  then show ?case
    by (subst (asm) (3) split_from.simps) (auto split: if_splits)
qed

function flush_loop :: "byte list \<Rightarrow> byte list list \<Rightarrow> (byte list \<times> byte list list) result" where
  "flush_loop buf msgs =
     (case split buf of
        None \<Rightarrow> Inr (buf, msgs)
      | Some p \<Rightarrow>
          (let data = take p buf; buf' = drop (p + 2) buf
           in if length data > 0
              then (case decapsulate data of
                      Inl e \<Rightarrow> Inl e
                    | Inr m \<Rightarrow> flush_loop buf' (msgs @ [m]))
              else flush_loop buf' msgs))"
  by pat_completeness auto
termination
  by (relation "measure (\<lambda>(buf, msgs). length buf)")
    (auto simp: split_def dest!: split_from_bound)

declare flush_loop.simps [simp del]

definition flush :: "packet_processor \<Rightarrow> packet_processor result" where
  "flush pp = bind_result (flush_loop (pp_recvbuffer pp) (pp_msgs pp))
     (\<lambda>(buf, msgs). Inr (pp\<lparr>pp_recvbuffer := buf, pp_msgs := msgs\<rparr>))"

definition Recv :: "byte list \<Rightarrow> packet_processor \<Rightarrow> packet_processor result" where
  "Recv data pp = flush (pp\<lparr>pp_recvbuffer := pp_recvbuffer pp @ data\<rparr>)"

definition isMsgIn :: "packet_processor \<Rightarrow> bool" where
  "isMsgIn pp = (length (pp_msgs pp) > 0)"

definition GetMsg :: "packet_processor \<Rightarrow> (byte list \<times> packet_processor) result" where
  "GetMsg pp = (case pp_msgs pp of
       [] \<Rightarrow> Inl (StackTraceExcept ''PacketProcessor is Empty'')
     | m # ms \<Rightarrow> Inr (m, pp\<lparr>pp_msgs := ms\<rparr>))"

definition pp_Clear :: "packet_processor \<Rightarrow> packet_processor" where
  "pp_Clear pp = pp\<lparr>pp_msgs := [], pp_recvbuffer := []\<rparr>"

definition pp_Start :: "packet_processor \<Rightarrow> packet_processor" where
  "pp_Start pp = pp\<lparr>pp_isRunning := True\<rparr>"

definition pp_Stop :: "packet_processor \<Rightarrow> packet_processor" where
  "pp_Stop pp = pp_Clear (pp\<lparr>pp_isRunning := False\<rparr>)"

text \<open>
  \<open>JoinMsg\<close>: \<open>timed_out\<close> says that \<open>dur\<close> has passed. With \<open>dur \<le> 0\<close> there is no time limit,
  and while the predicate is false the caller stays blocked.
\<close>

datatype join_result =
    Blocked
  | Join_error errorcode_t
  | Joined "byte list" packet_processor


definition JoinMsg :: "int \<Rightarrow> bool \<Rightarrow> packet_processor \<Rightarrow> join_result" where
  "JoinMsg dur timed_out pp =
     (let ready = (isMsgIn pp \<or> \<not> pp_isRunning pp)
      in if \<not> ready \<and> dur \<le> 0 then Blocked
         else if \<not> ready \<and> \<not> timed_out then Blocked
         else if \<not> ready then Join_error ERR_TIMEOUT
         else if \<not> pp_isRunning pp then Join_error ERR_CONNECTION_CLOSED
         else (case pp_msgs pp of
                 [] \<Rightarrow> Blocked
               | m # ms \<Rightarrow> Joined m (pp\<lparr>pp_msgs := ms\<rparr>)))"

section \<open>Escaping\<close>

lemma pattern_neq_eof [simp]: "pattern \<noteq> eof" "eof \<noteq> pattern"
  by (simp_all add: pattern_def eof_def)

definition escape :: "byte list \<Rightarrow> byte list" where
  "escape m = concat (map (\<lambda>b. if b = pattern then [pattern, pattern] else [b]) m)"

lemma escape_simps [simp]:
  "escape [] = []"
  "escape (b # m) = (if b = pattern then pattern # pattern # escape m else b # escape m)"
  by (simp_all add: escape_def)

lemma escape_eq_Nil [simp]: "escape m = [] \<longleftrightarrow> m = []"
  by (cases m) auto

lemma fold_escape:
  "fold (\<lambda>b res. (if b = pattern then res @ [pattern] else res) @ [b]) m acc = acc @ escape m"
  by (induction m arbitrary: acc) simp_all

lemma encapsulate_escape: "encapsulate m = escape m @ [pattern, eof]"
  by (simp add: encapsulate_def fold_escape)

lemma length_escape: "length (escape m) \<le> 2 * length m"
  by (induction m) simp_all

lemma decapsulate_loop_escape: "decapsulate_loop (escape m) acc = Inr (acc @ m)"
  by (induction m arbitrary: acc) auto

lemma split_from_escape:
  "split_from (pre @ escape m @ pattern # eof # rest) (length pre) = Some (length pre + length (escape m))"
proof (induction m arbitrary: pre)
  case Nil
  show ?case by (subst split_from.simps) (simp add: nth_append)
next
  case (Cons b m)
  show ?case
  proof (cases "b = pattern")
    case True
    with Cons [of "pre @ [pattern, pattern]"] show ?thesis
      by (subst split_from.simps) (simp add: nth_append)
  next
    case False
    with Cons [of "pre @ [b]"] show ?thesis
      by (subst split_from.simps) (simp add: nth_append)
  qed
qed

section \<open>Reassembly\<close>

lemma split_from_append: "split_from buf i = Some p \<Longrightarrow> split_from (buf @ xs) i = Some p"
proof (induction buf i rule: split_from.induct)
  case (1 buf i)
  have "i + 1 < length buf"
    using split_from_bound [OF "1.prems"] by simp
  with 1 show ?case
    by (auto simp: split_from.simps [of buf i] split_from.simps [of "buf @ xs" i] nth_append
        split: if_splits)
qed

lemma split_from_pattern: "split_from buf i = Some p \<Longrightarrow> buf ! p = pattern"
proof (induction buf i rule: split_from.induct)
  case (1 buf i)
  then show ?case
    by (subst (asm) (3) split_from.simps) (auto split: if_splits)
qed

lemma take_drop_step:
  assumes "i < p" "p < length buf"
  shows "take (p - i) (drop i buf) = buf ! i # take (p - Suc i) (drop (Suc i) buf)"
proof -
  have "drop i buf = buf ! i # drop (Suc i) buf"
    using assms by (simp add: Cons_nth_drop_Suc)
  moreover have "p - i = Suc (p - Suc i)"
    using assms by simp
  ultimately show ?thesis by simp
qed

text \<open>What \<open>flush\<close> hands to \<open>decapsulate\<close> never ends in a lone \<open>pattern\<close>.\<close>

lemma decapsulate_split:
  "split_from buf i = Some p \<Longrightarrow> is_ok (decapsulate_loop (take (p - i) (drop i buf)) acc)"
proof (induction buf i arbitrary: acc rule: split_from.induct)
  case (1 buf i)
  note p = split_from_pattern [OF "1.prems"] split_from_bound [OF "1.prems"]
  note step = take_drop_step [of i p buf] take_drop_step [of "Suc i" p buf]
  have i: "i + 1 < length buf"
    using p by simp
  consider (escaped) "buf ! i = pattern" "buf ! (i + 1) = pattern"
    | (found) "buf ! i = pattern" "buf ! (i + 1) = eof"
    | (lone) "buf ! i = pattern" "buf ! (i + 1) \<noteq> pattern" "buf ! (i + 1) \<noteq> eof"
    | (plain) "buf ! i \<noteq> pattern"
    by blast
  then show ?case
  proof cases
    case escaped
    then have s: "split_from buf (i + 2) = Some p"
      using "1.prems" i by (simp add: split_from.simps [of buf i])
    with split_from_bound [OF this] "1.IH"(1) [OF i] escaped p step show ?thesis
      by (simp add: eval_nat_numeral)
  next
    case found
    then show ?thesis
      using "1.prems" i by (simp add: split_from.simps [of buf i])
  next
    case lone
    then have s: "split_from buf (i + 1) = Some p"
      using "1.prems" i by (simp add: split_from.simps [of buf i])
    then have "p \<noteq> Suc i"
      using lone p by auto
    with s split_from_bound [OF s] "1.IH"(2) [OF i _ _ s] lone p step show ?thesis
      by simp
  next
    case plain
    then have s: "split_from buf (i + 1) = Some p"
      using "1.prems" i by (simp add: split_from.simps [of buf i])
    with split_from_bound [OF s] "1.IH"(2) [OF i _ _ s] plain p step show ?thesis
      by simp
  qed
qed

lemma flush_loop_ok: "is_ok (flush_loop buf acc)"
proof (induction buf acc rule: flush_loop.induct)
  case (1 buf acc)
  show ?case
  proof (cases "split buf")
    case None
    then show ?thesis by (simp add: flush_loop.simps)
  next
    case (Some p)
    with decapsulate_split [of buf 0 p "[]"] obtain m where "decapsulate (take p buf) = Inr m"
      by (auto simp: split_def decapsulate_def is_ok_conv)
    with Some 1 show ?thesis
      by (subst flush_loop.simps) (auto simp: Let_def)
  qed
qed

lemma flush_loop_append:
  "flush_loop (buf @ xs) acc = bind_result (flush_loop buf acc) (\<lambda>(r, ms). flush_loop (r @ xs) ms)"
proof (induction buf acc rule: flush_loop.induct)
  case (1 buf acc)
  show ?case
  proof (cases "split buf")
    case None
    then show ?thesis by (simp add: flush_loop.simps [of buf])
  next
    case (Some p)
    then have "split (buf @ xs) = Some p" "p + 2 \<le> length buf"
      using split_from_append split_from_bound unfolding split_def by fastforce+
    with Some 1 show ?thesis
      by (auto simp: flush_loop.simps [of buf] flush_loop.simps [of "buf @ xs"] Let_def
          split: sum.splits)
  qed
qed

lemma flush_loop_encapsulate:
  "flush_loop (encapsulate m @ rest) acc = flush_loop rest (acc @ filter (\<lambda>m. m \<noteq> []) [m])"
  using split_from_escape [of "[]" m rest] decapsulate_loop_escape [of m "[]"]
  by (subst flush_loop.simps) (simp add: encapsulate_escape split_def decapsulate_def Let_def)

lemma flush_loop_frames:
  "flush_loop (concat (map encapsulate ms)) acc = Inr ([], acc @ filter (\<lambda>m. m \<noteq> []) ms)"
proof (induction ms arbitrary: acc)
  case Nil
  show ?case by (simp add: flush_loop.simps split_def split_from.simps)
next
  case (Cons m ms)
  then show ?case by (simp add: flush_loop_encapsulate)
qed

definition Recv_all :: "byte list list \<Rightarrow> packet_processor \<Rightarrow> packet_processor result" where
  "Recv_all chunks pp = fold (\<lambda>c r. bind_result r (Recv c)) chunks (Inr pp)"

text \<open>
  The buffer of a processor in use holds no complete message: \<open>flush\<close> has taken them out.
\<close>

definition pp_wf :: "packet_processor \<Rightarrow> bool" where
  "pp_wf pp = (split (pp_recvbuffer pp) = None)"

lemma flush_loop_rest: "flush_loop buf acc = Inr (r, ms) \<Longrightarrow> split r = None"
proof (induction buf acc rule: flush_loop.induct)
  case (1 buf acc)
  then show ?case
    by (subst (asm) (3) flush_loop.simps) (auto simp: Let_def split: option.splits if_splits sum.splits)
qed

section \<open>The interface of the sockets\<close>

text \<open>
  What the sockets rely on: feeding a stream in pieces is feeding it whole, and feeding
  whole frames delivers their messages. Then no way of cutting the stream matters.
\<close>

locale framing =
  fixes frame :: "'m \<Rightarrow> byte list"
    and feed :: "byte list \<Rightarrow> 's \<Rightarrow> 's result"
    and start :: 's
    and arrived :: "'s \<Rightarrow> 'm list"
    and real :: "'m \<Rightarrow> bool"
  assumes feed_append: "feed (xs @ ys) s = bind_result (feed xs s) (feed ys)"
    and feed_none: "feed [] start = Inr start"
    and feed_frames: "\<exists>s. feed (concat (map frame ms)) start = Inr s \<and> arrived s = filter real ms"
begin

lemma fold_feed:
  "fold (\<lambda>c r. bind_result r (feed c)) cs (feed xs s) = feed (xs @ concat cs) s"
proof (induction cs arbitrary: xs)
  case Nil
  show ?case by simp
next
  case (Cons c cs)
  from Cons [of "xs @ c"] show ?case by (simp add: feed_append)
qed

lemma fold_feed_start:
  "fold (\<lambda>c r. bind_result r (feed c)) cs (Inr start) = feed (concat cs) start"
  using fold_feed [of cs "[]" start] by (simp add: feed_none)

lemma reassembled:
  assumes "concat cs = concat (map frame ms)"
  shows "\<exists>s. fold (\<lambda>c r. bind_result r (feed c)) cs (Inr start) = Inr s \<and> arrived s = filter real ms"
  using feed_frames [of ms] by (simp add: fold_feed_start assms)

end

lemma Recv_simp:
  "Recv data pp = bind_result (flush_loop (pp_recvbuffer pp @ data) (pp_msgs pp))
     (\<lambda>(buf, msgs). Inr (pp\<lparr>pp_recvbuffer := buf, pp_msgs := msgs\<rparr>))"
  by (simp add: Recv_def flush_def)

lemma Recv_append: "Recv (xs @ ys) pp = bind_result (Recv xs pp) (Recv ys)"
  using flush_loop_append [of "pp_recvbuffer pp @ xs" ys "pp_msgs pp"]
  by (cases "flush_loop (pp_recvbuffer pp @ xs) (pp_msgs pp)") (auto simp: Recv_simp)

interpretation packets: framing encapsulate Recv pp_new pp_msgs "\<lambda>m. m \<noteq> []"
proof unfold_locales
  show "Recv (xs @ ys) s = bind_result (Recv xs s) (Recv ys)" for xs ys s
    by (rule Recv_append)
  show "Recv [] pp_new = Inr pp_new"
    by (simp add: Recv_simp pp_new_def flush_loop.simps split_def split_from.simps)
  show "\<exists>s. Recv (concat (map encapsulate ms)) pp_new = Inr s \<and> pp_msgs s = filter (\<lambda>m. m \<noteq> []) ms" for ms
    by (simp add: Recv_simp pp_new_def flush_loop_frames)
qed

section \<open>Properties\<close>

text \<open>
  C1. However the bytes of a sequence of encapsulated messages are cut into the pieces that
  \<open>Recv\<close> is given, exactly the non-empty messages are queued, in order, unchanged. Nothing
  is lost, merged or reordered, whatever bytes the messages have.
\<close>

theorem packets_reassembled:
  assumes "concat chunks = concat (map encapsulate ms)"
  shows "\<exists>pp. Recv_all chunks pp_new = Inr pp \<and> pp_msgs pp = filter (\<lambda>m. m \<noteq> []) ms"
  unfolding Recv_all_def by (rule packets.reassembled [OF assms])

theorem packets_reassembled_witness:
  "\<exists>pp. Recv_all [[1], [0xee], [0xee, 2, 0xee], [0xff, 3, 0xee, 0xff]] pp_new = Inr pp \<and>
        pp_msgs pp = [[1, 0xee, 2], [3]]"
  using packets_reassembled [of "[[1], [0xee], [0xee, 2, 0xee], [0xff, 3, 0xee, 0xff]]" "[[1, 0xee, 2], [3]]"]
  by (simp add: encapsulate_def pattern_def eof_def)

text \<open>
  C35. \<open>Recv\<close> is total on every state and every input, also one that no peer encapsulated: the
  unchecked read of \<open>decapsulate\<close> never leaves the vector, messages already queued stay in front,
  and what is left in the buffer holds no complete message.
\<close>

theorem Recv_total:
  "\<exists>pp' new. Recv data pp = Inr pp' \<and> pp_msgs pp' = pp_msgs pp @ new \<and> pp_wf pp'
     \<and> pp_isRunning pp' = pp_isRunning pp"
proof -
  have acc: "flush_loop buf acc = Inr (r, ms) \<Longrightarrow> \<exists>new. ms = acc @ new" for buf acc r ms
  proof (induction buf acc rule: flush_loop.induct)
    case (1 buf acc)
    then show ?case
      by (subst (asm) (3) flush_loop.simps) (fastforce simp: Let_def split: option.splits if_splits sum.splits)
  qed
  obtain r ms where f: "flush_loop (pp_recvbuffer pp @ data) (pp_msgs pp) = Inr (r, ms)"
    using flush_loop_ok [of "pp_recvbuffer pp @ data" "pp_msgs pp"] by (auto simp: is_ok_conv)
  with acc [OF f] flush_loop_rest [OF f] show ?thesis
    by (simp add: Recv_simp pp_wf_def)
qed

text \<open>
  \<open>JoinMsg\<close> on every branch. It blocks only while the processor runs and holds no message
  (and its time is not up), it returns the oldest message and takes exactly that one, a
  stopped processor gives \<open>ERR_CONNECTION_CLOSED\<close> even when messages are queued, and after \<open>Stop\<close>
  nothing queued or half received is left.
\<close>

theorem JoinMsg_cases:
  "(JoinMsg dur late pp = Blocked) = (pp_isRunning pp \<and> pp_msgs pp = [] \<and> \<not> (0 < dur \<and> late))
   \<and> (JoinMsg dur late pp = Join_error ERR_CONNECTION_CLOSED) = (\<not> pp_isRunning pp)
   \<and> (JoinMsg dur late pp = Join_error ERR_TIMEOUT) = (pp_isRunning pp \<and> pp_msgs pp = [] \<and> 0 < dur \<and> late)
   \<and> (JoinMsg dur late pp = Joined m pp') =
       (pp_isRunning pp \<and> pp_msgs pp = m # pp_msgs pp' \<and> pp' = pp\<lparr>pp_msgs := pp_msgs pp'\<rparr>)
   \<and> JoinMsg dur late (pp_Stop pp) = Join_error ERR_CONNECTION_CLOSED
   \<and> pp_msgs (pp_Stop pp) = [] \<and> pp_recvbuffer (pp_Stop pp) = []"
  by (cases "pp_msgs pp") (auto simp: JoinMsg_def isMsgIn_def pp_Stop_def pp_Clear_def Let_def)

end
