(* ===== verification/StdMap.thy ===== *)
theory StdMap
  imports Prelude "HOL-Library.List_Lexorder"
begin

text \<open>
  \<open>std::map\<close> as the components use it: the entries in the order of their keys, which is the
  order an iteration visits them. \<open>insert\<close> keeps an entry that is there, \<open>operator[]\<close> adds a
  default one when there is none. The order of lists is the lexicographic one, as for
  \<open>std::array\<close> and \<open>std::string\<close>.
\<close>

section \<open>Operations\<close>

type_synonym ('k, 'v) smap = "('k \<times> 'v) list"

fun smap_find :: "'k \<Rightarrow> ('k, 'v) smap \<Rightarrow> 'v option" where
  "smap_find k [] = None"
| "smap_find k ((k', v) # m) = (if k = k' then Some v else smap_find k m)"

fun smap_put :: "'k::linorder \<Rightarrow> 'v \<Rightarrow> ('k, 'v) smap \<Rightarrow> ('k, 'v) smap" where
  "smap_put k v [] = [(k, v)]"
| "smap_put k v ((k', v') # m) =
     (if k < k' then (k, v) # (k', v') # m
      else if k = k' then (k, v) # m
      else (k', v') # smap_put k v m)"

definition smap_insert :: "'k::linorder \<Rightarrow> 'v \<Rightarrow> ('k, 'v) smap \<Rightarrow> ('k, 'v) smap" where
  "smap_insert k v m = (if smap_find k m = None then smap_put k v m else m)"

definition smap_at :: "'v \<Rightarrow> 'k::linorder \<Rightarrow> ('k, 'v) smap \<Rightarrow> 'v \<times> ('k, 'v) smap" where
  "smap_at d k m = (case smap_find k m of Some v \<Rightarrow> (v, m) | None \<Rightarrow> (d, smap_put k d m))"

definition smap_erase :: "'k \<Rightarrow> ('k, 'v) smap \<Rightarrow> ('k, 'v) smap" where
  "smap_erase k m = filter (\<lambda>p. fst p \<noteq> k) m"

definition smap_ok :: "('k::linorder, 'v) smap \<Rightarrow> bool" where
  "smap_ok m = sorted_wrt (<) (map fst m)"

section \<open>Lookup after an update\<close>

lemma smap_find_map_of: "smap_find k m = map_of m k"
  by (induction m) auto

lemma smap_find_put [simp]: "smap_find k (smap_put k' v m) = (if k = k' then Some v else smap_find k m)"
  by (induction k' v m rule: smap_put.induct) auto

lemma smap_find_erase [simp]: "smap_find k (smap_erase k' m) = (if k = k' then None else smap_find k m)"
  unfolding smap_erase_def by (induction m) auto

lemma smap_find_insert [simp]:
  "smap_find k (smap_insert k' v m) =
     (if k = k' \<and> smap_find k m = None then Some v else smap_find k m)"
  by (auto simp: smap_insert_def)

lemma smap_at_found: "smap_find k m = Some v \<Longrightarrow> smap_at d k m = (v, m)"
  by (simp add: smap_at_def)

section \<open>Order\<close>

lemma smap_ok_Nil [simp]: "smap_ok []"
  by (simp add: smap_ok_def)

lemma fst_smap_put: "fst ` set (smap_put k v m) = insert k (fst ` set m)"
  by (induction k v m rule: smap_put.induct) auto

lemma smap_ok_put [simp, intro]: "smap_ok m \<Longrightarrow> smap_ok (smap_put k v m)"
proof (induction k v m rule: smap_put.induct)
  case (2 k v k' v' m)
  then show ?case
    using fst_smap_put [of k v m] by (auto simp: smap_ok_def)
qed (simp add: smap_ok_def)

lemma smap_ok_insert [simp, intro]: "smap_ok m \<Longrightarrow> smap_ok (smap_insert k v m)"
  by (simp add: smap_insert_def)

lemma smap_ok_erase [simp, intro]: "smap_ok m \<Longrightarrow> smap_ok (smap_erase k m)"
  by (induction m) (auto simp: smap_ok_def smap_erase_def)

lemma smap_ok_distinct: "smap_ok m \<Longrightarrow> distinct (map fst m)"
  by (simp add: smap_ok_def strict_sorted_iff)

lemma smap_find_set: "smap_ok m \<Longrightarrow> smap_find k m = Some v \<longleftrightarrow> (k, v) \<in> set m"
  by (simp add: smap_find_map_of smap_ok_distinct)

lemma smap_find_dom: "(smap_find k m \<noteq> None) = (k \<in> fst ` set m)"
  by (induction m) auto

lemma length_smap_put:
  "smap_find k m = None \<Longrightarrow> length (smap_put k v m) = Suc (length m)"
  by (induction k v m rule: smap_put.induct) (auto split: if_splits)

lemma length_smap_ok: "smap_ok m \<Longrightarrow> length m = card (fst ` set m)"
  by (metis distinct_card length_map set_map smap_ok_distinct)

section \<open>The interface\<close>

text \<open>What a client of \<open>std::map\<close> relies on.\<close>

locale ordered_map =
  fixes lookup :: "'k::linorder \<Rightarrow> 'm \<Rightarrow> 'v option"
    and update :: "'k \<Rightarrow> 'v \<Rightarrow> 'm \<Rightarrow> 'm"
    and delete :: "'k \<Rightarrow> 'm \<Rightarrow> 'm"
    and entries :: "'m \<Rightarrow> ('k \<times> 'v) list"
    and invar :: "'m \<Rightarrow> bool"
  assumes lookup_update: "invar m \<Longrightarrow> lookup k (update k' v m) = (if k = k' then Some v else lookup k m)"
    and lookup_delete: "invar m \<Longrightarrow> lookup k (delete k' m) = (if k = k' then None else lookup k m)"
    and lookup_entries: "invar m \<Longrightarrow> lookup k m = Some v \<longleftrightarrow> (k, v) \<in> set (entries m)"
    and entries_sorted: "invar m \<Longrightarrow> sorted_wrt (<) (map fst (entries m))"
    and invar_update: "invar m \<Longrightarrow> invar (update k v m)"
    and invar_delete: "invar m \<Longrightarrow> invar (delete k m)"
begin

lemma entries_eqI:
  assumes "invar m" "invar m'" "\<And>k. lookup k m = lookup k m'"
  shows "entries m = entries m'"
proof -
  have "set (entries m) = set (entries m')"
    using assms by (auto simp: lookup_entries [symmetric])
  moreover have "sorted (map fst (entries m))" "distinct (map fst (entries m))"
    "sorted (map fst (entries m'))" "distinct (map fst (entries m'))"
    using entries_sorted [OF assms(1)] entries_sorted [OF assms(2)] by (auto simp: strict_sorted_iff)
  moreover have "inj_on fst (set (entries m) \<union> set (entries m'))"
    using calculation by (simp add: distinct_map)
  ultimately show ?thesis
    by (intro map_sorted_distinct_set_unique [of fst])
qed

lemma update_delete:
  assumes "invar m"
  shows "entries (update k v (delete k m)) = entries (update k v m)"
  using assms by (intro entries_eqI) (simp_all add: lookup_update lookup_delete invar_update invar_delete)

lemma delete_update:
  assumes "invar m" "lookup k m = None"
  shows "entries (delete k (update k v m)) = entries m"
  using assms by (intro entries_eqI) (simp_all add: lookup_update lookup_delete invar_update invar_delete)

end

interpretation smap: ordered_map smap_find smap_put smap_erase "\<lambda>m. m" smap_ok
  by unfold_locales (auto simp: smap_find_set, simp add: smap_ok_def)

end
