(* ===== verification/DeMap.thy ===== *)
theory DeMap
  imports StdMap
begin

text \<open>
  The dual-key map of \<open>utils/DeMap.hpp\<close>, in which the servers keep their sessions (account and
  cookie), the sides of a battle (account and side) and the streams of the battle servers. The
  mutex makes every operation atomic. \<open>d\<close> is the default \<open>Value\<close> (and \<open>dr\<close> the default \<open>RKey\<close>)
  that \<open>operator[]\<close> would add for a missing key.
\<close>

section \<open>State and operations\<close>

record ('l, 'r, 'v) demap =
  lrm :: "('l, 'r) smap"
  rlm :: "('r, 'l) smap"
  kvm :: "('l, 'v) smap"

definition dm_empty :: "('l, 'r, 'v) demap" where
  "dm_empty = \<lparr>lrm = [], rlm = [], kvm = []\<rparr>"

definition Insert :: "'l::linorder \<Rightarrow> 'r::linorder \<Rightarrow> 'v \<Rightarrow> ('l, 'r, 'v) demap \<Rightarrow> bool \<times> ('l, 'r, 'v) demap" where
  "Insert lkey rkey value dm =
     (if smap_find lkey (lrm dm) \<noteq> None \<or> smap_find rkey (rlm dm) \<noteq> None then (False, dm)
      else (True, dm\<lparr>lrm := smap_insert lkey rkey (lrm dm),
                     rlm := smap_insert rkey lkey (rlm dm),
                     kvm := smap_insert lkey value (kvm dm)\<rparr>))"

definition FindLKey :: "'v \<Rightarrow> 'l::linorder \<Rightarrow> ('l, 'r, 'v) demap \<Rightarrow> ('r \<times> 'v) option \<times> ('l, 'r, 'v) demap" where
  "FindLKey d key dm =
     (case smap_find key (lrm dm) of
        None \<Rightarrow> (None, dm)
      | Some rkey \<Rightarrow>
          (let (value, kvm') = smap_at d key (kvm dm)
           in (Some (rkey, value), dm\<lparr>kvm := kvm'\<rparr>)))"

definition FindRKey :: "'v \<Rightarrow> 'r \<Rightarrow> ('l::linorder, 'r, 'v) demap \<Rightarrow> ('l \<times> 'v) option \<times> ('l, 'r, 'v) demap" where
  "FindRKey d key dm =
     (case smap_find key (rlm dm) of
        None \<Rightarrow> (None, dm)
      | Some lkey \<Rightarrow>
          (let (value, kvm') = smap_at d lkey (kvm dm)
           in (Some (lkey, value), dm\<lparr>kvm := kvm'\<rparr>)))"

definition InsertLKeyValue :: "'l::linorder \<Rightarrow> 'v \<Rightarrow> ('l, 'r, 'v) demap \<Rightarrow> bool \<times> ('l, 'r, 'v) demap" where
  "InsertLKeyValue lkey value dm =
     (if smap_find lkey (kvm dm) = None then (False, dm)
      else (True, dm\<lparr>kvm := smap_put lkey value (kvm dm)\<rparr>))"

definition InsertRKeyValue :: "'r \<Rightarrow> 'v \<Rightarrow> ('l::linorder, 'r, 'v) demap \<Rightarrow> bool \<times> ('l, 'r, 'v) demap" where
  "InsertRKeyValue rkey value dm =
     (case smap_find rkey (rlm dm) of
        None \<Rightarrow> (False, dm)
      | Some lkey \<Rightarrow> (True, dm\<lparr>kvm := smap_put lkey value (kvm dm)\<rparr>))"

definition EraseLKey ::
  "'v \<Rightarrow> 'l::linorder \<Rightarrow> ('l, 'r, 'v) demap \<Rightarrow> ('l \<times> 'r \<times> 'v) option \<times> ('l, 'r, 'v) demap" where
  "EraseLKey d lkey dm =
     (case smap_find lkey (lrm dm) of
        None \<Rightarrow> (None, dm)
      | Some rkey \<Rightarrow>
          (let (value, kvm') = smap_at d lkey (kvm dm)
           in (Some (lkey, rkey, value),
               dm\<lparr>lrm := smap_erase lkey (lrm dm),
                  rlm := smap_erase rkey (rlm dm),
                  kvm := smap_erase lkey kvm'\<rparr>)))"

definition EraseRKey ::
  "'v \<Rightarrow> 'r \<Rightarrow> ('l::linorder, 'r, 'v) demap \<Rightarrow> ('l \<times> 'r \<times> 'v) option \<times> ('l, 'r, 'v) demap" where
  "EraseRKey d rkey dm =
     (case smap_find rkey (rlm dm) of
        None \<Rightarrow> (None, dm)
      | Some lkey \<Rightarrow>
          (let (value, kvm') = smap_at d lkey (kvm dm)
           in (Some (lkey, rkey, value),
               dm\<lparr>lrm := smap_erase lkey (lrm dm),
                  rlm := smap_erase rkey (rlm dm),
                  kvm := smap_erase lkey kvm'\<rparr>)))"

definition dm_Clear :: "('l, 'r, 'v) demap \<Rightarrow> ('l, 'r, 'v) demap" where
  "dm_Clear dm = dm\<lparr>lrm := [], rlm := [], kvm := []\<rparr>"

definition dm_Size :: "('l, 'r, 'v) demap \<Rightarrow> nat" where
  "dm_Size dm = length (lrm dm)"

text \<open>\<open>GetAll\<close> walks \<open>kvm\<close> and reads \<open>lrm\<close> by \<open>operator[]\<close>.\<close>

definition GetAll ::
  "'r \<Rightarrow> ('l::linorder, 'r, 'v) demap \<Rightarrow> ('l \<times> 'r \<times> 'v) list \<times> ('l, 'r, 'v) demap" where
  "GetAll dr dm =
     (let (res, l) = fold (\<lambda>(lkey, value) (res, l).
            let (rkey, l') = smap_at dr lkey l in (res @ [(lkey, rkey, value)], l')) (kvm dm) ([], lrm dm)
      in (res, dm\<lparr>lrm := l\<rparr>))"

section \<open>Invariant and abstraction\<close>

text \<open>
  The two key maps are inverse to each other, and every left key has a value. The map then
  stands for a finite set of entries in which a left key and a right key occur once.
\<close>

definition dm_wf :: "('l::linorder, 'r::linorder, 'v) demap \<Rightarrow> bool" where
  "dm_wf dm = (smap_ok (lrm dm) \<and> smap_ok (rlm dm) \<and> smap_ok (kvm dm) \<and>
     (\<forall>l r. smap_find l (lrm dm) = Some r \<longleftrightarrow> smap_find r (rlm dm) = Some l) \<and>
     map fst (kvm dm) = map fst (lrm dm))"

definition dm_rel :: "('l, 'r, 'v) demap \<Rightarrow> ('l \<times> 'r \<times> 'v) set" where
  "dm_rel dm = {(l, r, v). smap_find l (lrm dm) = Some r \<and> smap_find l (kvm dm) = Some v}"

lemma dm_wf_dom: "dm_wf dm \<Longrightarrow> smap_find l (kvm dm) = None \<longleftrightarrow> smap_find l (lrm dm) = None"
  using smap_find_dom [of l "kvm dm"] smap_find_dom [of l "lrm dm"]
  by (metis dm_wf_def set_map)

lemma dm_wf_inv: "dm_wf dm \<Longrightarrow> smap_find l (lrm dm) = Some r \<longleftrightarrow> smap_find r (rlm dm) = Some l"
  by (simp add: dm_wf_def)

lemma dm_wf_value:
  assumes "dm_wf dm" "smap_find l (lrm dm) = Some r"
  obtains v where "smap_find l (kvm dm) = Some v"
  using assms dm_wf_dom by fastforce

lemma dm_wf_valueR:
  assumes "dm_wf dm" "smap_find r (rlm dm) = Some l"
  obtains v where "smap_find l (lrm dm) = Some r" "smap_find l (kvm dm) = Some v"
  using assms dm_wf_inv dm_wf_value by metis

lemma keys_eqI:
  assumes "smap_ok m" "smap_ok m'" "\<And>k. smap_find k m = None \<longleftrightarrow> smap_find k m' = None"
  shows "map fst m = map fst m'"
proof -
  have "set (map fst m) = set (map fst m')"
    using assms(3) smap_find_dom by (metis set_eqI set_map)
  then show ?thesis
    using assms(1,2) unfolding smap_ok_def
    by (intro sorted_distinct_set_unique) (auto simp: strict_sorted_iff)
qed

lemma dm_wfI:
  assumes "smap_ok (lrm dm)" "smap_ok (rlm dm)" "smap_ok (kvm dm)"
    and "\<And>l r. smap_find l (lrm dm) = Some r \<longleftrightarrow> smap_find r (rlm dm) = Some l"
    and "\<And>l. smap_find l (kvm dm) = None \<longleftrightarrow> smap_find l (lrm dm) = None"
  shows "dm_wf dm"
  using assms keys_eqI [of "kvm dm" "lrm dm"] by (simp add: dm_wf_def)

lemma dm_wf_ok: "dm_wf dm \<Longrightarrow> smap_ok (lrm dm) \<and> smap_ok (rlm dm) \<and> smap_ok (kvm dm)"
  by (simp add: dm_wf_def)

lemma dm_wf_empty [simp, wf_intros]: "dm_wf dm_empty"
  by (simp add: dm_wf_def dm_empty_def)

lemma dm_wf_Insert [wf_intros]:
  assumes "dm_wf dm"
  shows "dm_wf (snd (Insert l r v dm))"
proof (cases "smap_find l (lrm dm) \<noteq> None \<or> smap_find r (rlm dm) \<noteq> None")
  case True
  then show ?thesis using assms by (simp add: Insert_def)
next
  case False
  then show ?thesis
    using assms dm_wf_ok [OF assms] dm_wf_dom [OF assms] dm_wf_inv [OF assms]
    by (intro dm_wfI) (auto simp: Insert_def)
qed

lemma dm_wf_put [wf_intros]:
  assumes "dm_wf dm" "smap_find l (kvm dm) \<noteq> None"
  shows "dm_wf (dm\<lparr>kvm := smap_put l v (kvm dm)\<rparr>)"
  using assms dm_wf_ok [OF assms(1)] dm_wf_dom [OF assms(1)] dm_wf_inv [OF assms(1)]
  by (intro dm_wfI) auto

lemma dm_wf_InsertLKeyValue [wf_intros]: "dm_wf dm \<Longrightarrow> dm_wf (snd (InsertLKeyValue l v dm))"
  by (simp add: InsertLKeyValue_def dm_wf_put)

lemma dm_wf_InsertRKeyValue [wf_intros]: "dm_wf dm \<Longrightarrow> dm_wf (snd (InsertRKeyValue r v dm))"
  using dm_wf_put [of dm] dm_wf_dom [of dm] dm_wf_inv [of dm]
  by (auto simp: InsertRKeyValue_def split: option.splits)

lemma dm_wf_erase:
  assumes "dm_wf dm" "smap_find l (lrm dm) = Some r"
  shows "dm_wf (dm\<lparr>lrm := smap_erase l (lrm dm), rlm := smap_erase r (rlm dm), kvm := smap_erase l (kvm dm)\<rparr>)"
  using assms dm_wf_ok [OF assms(1)] dm_wf_dom [OF assms(1)] dm_wf_inv [OF assms(1)]
  by (intro dm_wfI) (auto, (metis option.inject)+)

text \<open>With the invariant no \<open>operator[]\<close> adds an entry.\<close>

lemma FindLKey_wf:
  "dm_wf dm \<Longrightarrow> FindLKey d l dm = (map_option (\<lambda>r. (r, the (smap_find l (kvm dm)))) (smap_find l (lrm dm)), dm)"
  by (cases "smap_find l (lrm dm)") (auto simp: FindLKey_def smap_at_found elim: dm_wf_value)

lemma FindRKey_wf:
  "dm_wf dm \<Longrightarrow> FindRKey d r dm = (map_option (\<lambda>l. (l, the (smap_find l (kvm dm)))) (smap_find r (rlm dm)), dm)"
  by (cases "smap_find r (rlm dm)") (auto simp: FindRKey_def smap_at_found elim: dm_wf_valueR)

lemma snd_FindLKey: "dm_wf dm \<Longrightarrow> snd (FindLKey d l dm) = dm"
  by (simp add: FindLKey_wf)

lemma snd_FindRKey: "dm_wf dm \<Longrightarrow> snd (FindRKey d r dm) = dm"
  by (simp add: FindRKey_wf)

lemma EraseLKey_wf:
  assumes "dm_wf dm" "smap_find l (lrm dm) = Some r"
  shows "EraseLKey d l dm = (Some (l, r, the (smap_find l (kvm dm))),
    dm\<lparr>lrm := smap_erase l (lrm dm), rlm := smap_erase r (rlm dm), kvm := smap_erase l (kvm dm)\<rparr>)"
  using assms by (auto simp: EraseLKey_def smap_at_found elim: dm_wf_value)

lemma EraseRKey_wf:
  assumes "dm_wf dm" "smap_find r (rlm dm) = Some l"
  shows "EraseRKey d r dm = EraseLKey d l dm"
  using assms dm_wf_inv [OF assms(1), of l r]
  by (auto simp: EraseLKey_def EraseRKey_def smap_at_found elim: dm_wf_value)

lemma dm_wf_EraseLKey [wf_intros]: "dm_wf dm \<Longrightarrow> dm_wf (snd (EraseLKey d l dm))"
  by (cases "smap_find l (lrm dm)") (auto simp: EraseLKey_wf dm_wf_erase, simp add: EraseLKey_def)

lemma dm_wf_EraseRKey [wf_intros]: "dm_wf dm \<Longrightarrow> dm_wf (snd (EraseRKey d r dm))"
  by (cases "smap_find r (rlm dm)") (auto simp: EraseRKey_wf dm_wf_EraseLKey, simp add: EraseRKey_def)

lemma dm_wf_Clear [wf_intros]: "dm_wf (dm_Clear dm)"
  by (simp add: dm_wf_def dm_Clear_def)

lemma GetAll_wf:
  assumes "dm_wf dm"
  shows "GetAll dr dm = (map (\<lambda>(l, v). (l, the (smap_find l (lrm dm)), v)) (kvm dm), dm)"
proof -
  have "fold (\<lambda>(lkey, value) (res, l). let (rkey, l') = smap_at dr lkey l in (res @ [(lkey, rkey, value)], l'))
      kv (acc, lrm dm) = (acc @ map (\<lambda>(l, v). (l, the (smap_find l (lrm dm)), v)) kv, lrm dm)"
    if "\<forall>p\<in>set kv. smap_find (fst p) (lrm dm) \<noteq> None" for kv acc
    using that by (induction kv arbitrary: acc) (auto simp: smap_at_def)
  moreover have "\<forall>p\<in>set (kvm dm). smap_find (fst p) (lrm dm) \<noteq> None"
    using dm_wf_dom [OF assms] smap_find_dom by (metis imageI)
  ultimately show ?thesis
    unfolding GetAll_def by force
qed

section \<open>The interface of the servers\<close>

text \<open>
  What the servers rely on, over the set of entries. A law says what an operation does to the
  set and what it answers; the lemmas of the locale are what sessions need.
\<close>

locale dual_map =
  fixes rel :: "'s \<Rightarrow> ('l \<times> 'r \<times> 'v) set"
    and wf :: "'s \<Rightarrow> bool"
    and ins :: "'l \<Rightarrow> 'r \<Rightarrow> 'v \<Rightarrow> 's \<Rightarrow> bool \<times> 's"
    and findl :: "'l \<Rightarrow> 's \<Rightarrow> ('r \<times> 'v) option \<times> 's"
    and findr :: "'r \<Rightarrow> 's \<Rightarrow> ('l \<times> 'v) option \<times> 's"
    and erasel :: "'l \<Rightarrow> 's \<Rightarrow> ('l \<times> 'r \<times> 'v) option \<times> 's"
  assumes left_unique: "wf s \<Longrightarrow> (l, r, v) \<in> rel s \<Longrightarrow> (l, r', v') \<in> rel s \<Longrightarrow> r = r' \<and> v = v'"
    and right_unique: "wf s \<Longrightarrow> (l, r, v) \<in> rel s \<Longrightarrow> (l', r, v') \<in> rel s \<Longrightarrow> l = l'"
    and wf_ins: "wf s \<Longrightarrow> wf (snd (ins l r v s))"
    and wf_erasel: "wf s \<Longrightarrow> wf (snd (erasel l s))"
    and fst_ins: "wf s \<Longrightarrow> fst (ins l r v s) \<longleftrightarrow> (\<forall>l' r' v'. (l', r', v') \<in> rel s \<longrightarrow> l' \<noteq> l \<and> r' \<noteq> r)"
    and rel_ins: "wf s \<Longrightarrow> rel (snd (ins l r v s)) = (if fst (ins l r v s) then insert (l, r, v) (rel s) else rel s)"
    and findl_iff: "wf s \<Longrightarrow> fst (findl l s) = Some (r, v) \<longleftrightarrow> (l, r, v) \<in> rel s"
    and findr_iff: "wf s \<Longrightarrow> fst (findr r s) = Some (l, v) \<longleftrightarrow> (l, r, v) \<in> rel s"
    and findl_keeps: "wf s \<Longrightarrow> snd (findl l s) = s"
    and findr_keeps: "wf s \<Longrightarrow> snd (findr r s) = s"
    and rel_erasel: "wf s \<Longrightarrow> rel (snd (erasel l s)) = {e \<in> rel s. fst e \<noteq> l}"
begin

lemma findl_findr:
  assumes "wf s"
  shows "fst (findl l s) = Some (r, v) \<longleftrightarrow> fst (findr r s) = Some (l, v)"
  using assms by (simp add: findl_iff findr_iff)

lemma find_after_ins:
  assumes "wf s" "fst (ins l r v s)"
  shows "fst (findl l (snd (ins l r v s))) = Some (r, v)"
    and "fst (findr r (snd (ins l r v s))) = Some (l, v)"
  using assms wf_ins [OF assms(1), of l r v] by (simp_all add: findl_iff findr_iff rel_ins)

lemma find_other_after_ins:
  assumes "wf s" "l' \<noteq> l"
  shows "fst (findl l' (snd (ins l r v s))) = fst (findl l' s)"
proof -
  have "fst (findl l' (snd (ins l r v s))) = Some p \<longleftrightarrow> fst (findl l' s) = Some p" for p
    using assms wf_ins [OF assms(1), of l r v] by (cases p) (simp add: findl_iff rel_ins)
  then show ?thesis by (metis option.exhaust)
qed

lemma gone_after_erasel:
  assumes "wf s"
  shows "fst (findl l (snd (erasel l s))) = None"
    and "fst (findr r (snd (erasel l s))) = Some (l', v) \<longleftrightarrow> l' \<noteq> l \<and> fst (findr r s) = Some (l', v)"
proof -
  note wf = wf_erasel [OF assms, of l]
  have "fst (findl l (snd (erasel l s))) \<noteq> Some p" for p
    using wf assms by (cases p) (simp add: findl_iff rel_erasel)
  then show "fst (findl l (snd (erasel l s))) = None" by (metis option.exhaust)
  show "fst (findr r (snd (erasel l s))) = Some (l', v) \<longleftrightarrow> l' \<noteq> l \<and> fst (findr r s) = Some (l', v)"
    using wf assms by (auto simp: findr_iff rel_erasel)
qed

lemma reinsert:
  assumes "wf s" "fst (findr r s) = Some (l, v)"
  shows "fst (ins l r v' (snd (erasel l s)))"
proof -
  have "(l, r, v) \<in> rel s"
    using assms by (simp add: findr_iff)
  then show ?thesis
    using assms(1) wf_erasel [OF assms(1), of l] right_unique [OF assms(1)]
    by (auto simp: fst_ins rel_erasel)
qed

end

lemma dm_rel_left: "dm_wf dm \<Longrightarrow> (l \<in> fst ` dm_rel dm) = (smap_find l (lrm dm) \<noteq> None)"
  by (auto simp: dm_rel_def image_iff elim: dm_wf_value)

lemma dm_rel_right: "dm_wf dm \<Longrightarrow> (\<exists>l v. (l, r, v) \<in> dm_rel dm) = (smap_find r (rlm dm) \<noteq> None)"
  by (auto simp: dm_rel_def dm_wf_inv elim: dm_wf_valueR)

lemma fst_Insert:
  "dm_wf dm \<Longrightarrow> fst (Insert l r v dm) \<longleftrightarrow> (\<forall>l' r' v'. (l', r', v') \<in> dm_rel dm \<longrightarrow> l' \<noteq> l \<and> r' \<noteq> r)"
  using dm_rel_left [of dm l] dm_rel_right [of dm r] unfolding Insert_def by (force simp: image_iff)

lemma rel_Insert:
  assumes "dm_wf dm"
  shows "dm_rel (snd (Insert l r v dm)) = (if fst (Insert l r v dm) then insert (l, r, v) (dm_rel dm) else dm_rel dm)"
  using dm_wf_dom [OF assms, of l] by (auto simp: Insert_def dm_rel_def split: if_splits)

lemma findl_rel: "dm_wf dm \<Longrightarrow> fst (FindLKey d l dm) = Some (r, v) \<longleftrightarrow> (l, r, v) \<in> dm_rel dm"
  by (auto simp: FindLKey_wf dm_rel_def elim: dm_wf_value)

lemma findr_rel: "dm_wf dm \<Longrightarrow> fst (FindRKey d r dm) = Some (l, v) \<longleftrightarrow> (l, r, v) \<in> dm_rel dm"
  using dm_wf_inv [of dm l r] by (auto simp: FindRKey_wf dm_rel_def elim: dm_wf_value)

lemma rel_EraseLKey: "dm_wf dm \<Longrightarrow> dm_rel (snd (EraseLKey d l dm)) = {e \<in> dm_rel dm. fst e \<noteq> l}"
  by (cases "smap_find l (lrm dm)") (auto simp: EraseLKey_wf dm_rel_def split: if_splits, auto simp: EraseLKey_def)

lemma rel_InsertLKeyValue:
  assumes "dm_wf dm" "(l, r, v0) \<in> dm_rel dm"
  shows "dm_rel (snd (InsertLKeyValue l v dm)) = insert (l, r, v) {e \<in> dm_rel dm. fst e \<noteq> l}"
  using assms(2) by (auto simp: InsertLKeyValue_def dm_rel_def split: if_splits)

interpretation demap: dual_map dm_rel dm_wf Insert "FindLKey d" "FindRKey d" "EraseLKey d" for d
proof unfold_locales
  fix s :: "('l::linorder, 'r::linorder, 'v) demap"
  assume "dm_wf s"
  then show "(l, r, v) \<in> dm_rel s \<Longrightarrow> (l, r', v') \<in> dm_rel s \<Longrightarrow> r = r' \<and> v = v'"
    and "(l, r, v) \<in> dm_rel s \<Longrightarrow> (l', r, v') \<in> dm_rel s \<Longrightarrow> l = l'" for l r v r' v' l'
    by (auto simp: dm_rel_def) (metis dm_wf_inv option.inject)
qed (simp_all only: wf_intros fst_Insert rel_Insert findl_rel findr_rel rel_EraseLKey snd_FindLKey snd_FindRKey)

section \<open>Reachable maps\<close>

text \<open>Every map that the operations can build.\<close>

inductive dm_reach :: "('l::linorder, 'r::linorder, 'v) demap \<Rightarrow> bool" where
  start: "dm_reach dm_empty"
| ins: "dm_reach dm \<Longrightarrow> dm_reach (snd (Insert l r v dm))"
| findl: "dm_reach dm \<Longrightarrow> dm_reach (snd (FindLKey d l dm))"
| findr: "dm_reach dm \<Longrightarrow> dm_reach (snd (FindRKey d r dm))"
| setl: "dm_reach dm \<Longrightarrow> dm_reach (snd (InsertLKeyValue l v dm))"
| setr: "dm_reach dm \<Longrightarrow> dm_reach (snd (InsertRKeyValue r v dm))"
| erasel: "dm_reach dm \<Longrightarrow> dm_reach (snd (EraseLKey d l dm))"
| eraser: "dm_reach dm \<Longrightarrow> dm_reach (snd (EraseRKey d r dm))"
| clear: "dm_reach dm \<Longrightarrow> dm_reach (dm_Clear dm)"
| all: "dm_reach dm \<Longrightarrow> dm_reach (snd (GetAll dr dm))"

lemma dm_reach_wf: "dm_reach dm \<Longrightarrow> dm_wf dm"
  by (induction rule: dm_reach.induct) (simp_all add: wf_intros FindLKey_wf FindRKey_wf GetAll_wf)

lemma GetAll_rel: "dm_wf dm \<Longrightarrow> set (fst (GetAll dr dm)) = dm_rel dm"
proof -
  assume wf: "dm_wf dm"
  have "(l, r, v) \<in> set (fst (GetAll dr dm)) \<longleftrightarrow> (l, r, v) \<in> dm_rel dm" for l r v
  proof -
    have "(l, r, v) \<in> set (fst (GetAll dr dm)) \<longleftrightarrow> r = the (smap_find l (lrm dm)) \<and> smap_find l (kvm dm) = Some v"
      using wf dm_wf_ok [OF wf] by (auto simp: GetAll_wf smap_find_set)
    then show ?thesis
      using dm_wf_dom [OF wf, of l] by (auto simp: dm_rel_def)
  qed
  then show ?thesis by auto
qed

section \<open>Properties\<close>

lemma demap_facts:
  assumes "dm_reach dm"
  shows "dm_wf dm"
    and "snd (FindLKey d l dm) = dm" "snd (FindRKey d r dm) = dm"
    and "fst (FindLKey d l dm) = Some (r, v) \<longleftrightarrow> fst (FindRKey d r dm) = Some (l, v)"
    and "set (fst (GetAll dr dm)) = dm_rel dm" "sorted_wrt (<) (map fst (fst (GetAll dr dm)))"
    and "dm_Size dm = card (dm_rel dm)"
proof -
  show wf: "dm_wf dm" using assms by (rule dm_reach_wf)
  then show "snd (FindLKey d l dm) = dm" "snd (FindRKey d r dm) = dm"
    by (simp_all add: demap.findl_keeps demap.findr_keeps)
  show "fst (FindLKey d l dm) = Some (r, v) \<longleftrightarrow> fst (FindRKey d r dm) = Some (l, v)"
    using wf by (rule demap.findl_findr)
  show all: "set (fst (GetAll dr dm)) = dm_rel dm"
    using wf by (rule GetAll_rel)
  have keys: "map fst (fst (GetAll dr dm)) = map fst (lrm dm)"
    using wf by (simp add: GetAll_wf dm_wf_def comp_def case_prod_beta) 
  then show s: "sorted_wrt (<) (map fst (fst (GetAll dr dm)))"
    using dm_wf_ok [OF wf] by (simp add: smap_ok_def)
  then have "distinct (fst (GetAll dr dm))"
    by (simp add: strict_sorted_iff distinct_map)
  moreover have "length (fst (GetAll dr dm)) = length (lrm dm)"
    using arg_cong [OF keys, of length] by simp
  ultimately show "dm_Size dm = card (dm_rel dm)"
    by (metis all distinct_card dm_Size_def)
qed

lemma demap_laws:
  assumes "dm_wf dm"
  shows "fst (Insert l r v dm) \<longleftrightarrow> fst (FindLKey d l dm) = None \<and> fst (FindRKey d r dm) = None"
    and "fst (Insert l r v dm) \<Longrightarrow>
      fst (FindLKey d l (snd (Insert l r v dm))) = Some (r, v) \<and>
      fst (FindRKey d r (snd (Insert l r v dm))) = Some (l, v)"
    and "\<not> fst (Insert l r v dm) \<Longrightarrow> snd (Insert l r v dm) = dm"
    and "l' \<noteq> l \<Longrightarrow> fst (FindLKey d l' (snd (Insert l r v dm))) = fst (FindLKey d l' dm)"
    and "fst (FindLKey d l (snd (EraseLKey d l dm))) = None"
    and "fst (FindRKey d r dm) = Some (l, w) \<Longrightarrow>
      EraseRKey d r dm = EraseLKey d l dm \<and> fst (EraseLKey d l dm) = Some (l, r, w) \<and>
      fst (Insert l r v (snd (EraseLKey d l dm)))"
proof -
  show "fst (Insert l r v dm) \<longleftrightarrow> fst (FindLKey d l dm) = None \<and> fst (FindRKey d r dm) = None"
    using assms by (simp add: Insert_def FindLKey_wf FindRKey_wf)
  show "fst (Insert l r v dm) \<Longrightarrow>
      fst (FindLKey d l (snd (Insert l r v dm))) = Some (r, v) \<and>
      fst (FindRKey d r (snd (Insert l r v dm))) = Some (l, v)"
    using demap.find_after_ins [OF assms] by blast
  show "\<not> fst (Insert l r v dm) \<Longrightarrow> snd (Insert l r v dm) = dm"
    by (auto simp: Insert_def split: if_splits)
  show "l' \<noteq> l \<Longrightarrow> fst (FindLKey d l' (snd (Insert l r v dm))) = fst (FindLKey d l' dm)"
    using assms by (rule demap.find_other_after_ins)
  show "fst (FindLKey d l (snd (EraseLKey d l dm))) = None"
    using assms by (rule demap.gone_after_erasel)
  assume r: "fst (FindRKey d r dm) = Some (l, w)"
  then have "smap_find r (rlm dm) = Some l" "smap_find l (lrm dm) = Some r" "w = the (smap_find l (kvm dm))"
    using assms dm_wf_inv [OF assms] by (auto simp: FindRKey_wf)
  then show "EraseRKey d r dm = EraseLKey d l dm \<and> fst (EraseLKey d l dm) = Some (l, r, w) \<and>
      fst (Insert l r v (snd (EraseLKey d l dm)))"
    using demap.reinsert [OF assms r] assms by (simp add: EraseRKey_wf EraseLKey_wf)
qed

text \<open>
  C18. In every map that the operations can build the two key maps are inverse to each other and
  every left key has exactly one value, so no \<open>operator[]\<close> of a lookup adds an entry; lookups
  by either key agree; \<open>GetAll\<close> lists exactly the entries, in the order of the left key, and
  \<open>Size\<close> is their number.
\<close>

theorem demap_consistent:
  assumes "dm_reach dm"
  shows "dm_wf dm \<and> snd (FindLKey d l dm) = dm \<and> snd (FindRKey d r dm) = dm
    \<and> (fst (FindLKey d l dm) = Some (r, v) \<longleftrightarrow> fst (FindRKey d r dm) = Some (l, v))
    \<and> set (fst (GetAll dr dm)) = dm_rel dm \<and> sorted_wrt (<) (map fst (fst (GetAll dr dm)))
    \<and> dm_Size dm = card (dm_rel dm)"
  using demap_facts [OF assms] by blast

theorem demap_consistent_witness:
  "dm_Size (snd (Insert 1 2 3 (dm_empty :: (nat, nat, nat) demap))) =
   card (dm_rel (snd (Insert 1 2 3 (dm_empty :: (nat, nat, nat) demap))))"
  using demap_consistent [OF dm_reach.ins [OF dm_reach.start], of 1 2 "3::nat" 0 0 0 0 0]
  by (elim conjE)

text \<open>
  \<open>Insert\<close> succeeds exactly when neither key is in use; then both keys find the entry and
  every other left key is found as before. An account keeps its place when the same pair is
  inserted again after its erasure, and an erased left key is found by neither key.
\<close>

theorem demap_insert_erase:
  assumes "dm_wf dm"
  shows "(fst (Insert l r v dm) \<longleftrightarrow> fst (FindLKey d l dm) = None \<and> fst (FindRKey d r dm) = None)
    \<and> (fst (Insert l r v dm) \<longrightarrow>
         fst (FindLKey d l (snd (Insert l r v dm))) = Some (r, v) \<and>
         fst (FindRKey d r (snd (Insert l r v dm))) = Some (l, v))
    \<and> (\<not> fst (Insert l r v dm) \<longrightarrow> snd (Insert l r v dm) = dm)
    \<and> (l' \<noteq> l \<longrightarrow> fst (FindLKey d l' (snd (Insert l r v dm))) = fst (FindLKey d l' dm))
    \<and> fst (FindLKey d l (snd (EraseLKey d l dm))) = None
    \<and> (fst (FindRKey d r dm) = Some (l, w) \<longrightarrow>
         EraseRKey d r dm = EraseLKey d l dm \<and> fst (EraseLKey d l dm) = Some (l, r, w) \<and>
         fst (Insert l r v (snd (EraseLKey d l dm))))"
  by (intro conjI impI) (metis demap_laws [OF assms])+

theorem demap_insert_erase_witness:
  "fst (FindLKey 0 1 (snd (Insert 1 2 3 (dm_empty :: (nat, nat, nat) demap)))) = Some (2, 3) \<and>
   fst (Insert 1 2 4 (snd (EraseLKey 0 1 (snd (Insert 1 2 3 (dm_empty :: (nat, nat, nat) demap))))))"
proof -
  have "fst (Insert 1 2 3 (dm_empty :: (nat, nat, nat) demap))"
    by (simp add: Insert_def dm_empty_def)
  moreover have "dm_wf (snd (Insert 1 2 3 (dm_empty :: (nat, nat, nat) demap)))"
    by (simp add: wf_intros)
  moreover have "fst (FindRKey 0 2 (snd (Insert 1 2 3 (dm_empty :: (nat, nat, nat) demap)))) = Some (1, 3)"
    by (simp add: Insert_def dm_empty_def FindRKey_def smap_insert_def smap_at_def)
  ultimately show ?thesis
    using demap_insert_erase [of "dm_empty :: (nat, nat, nat) demap" 1 2 3 0]
      demap_insert_erase [of "snd (Insert 1 2 3 (dm_empty :: (nat, nat, nat) demap))" 1 2 4 0 _ 3]
    by simp
qed

end
