(* ===== verification/Game.thy ===== *)
theory Game
  imports Codes "HOL-Library.Multiset"
begin

text \<open>
  The rules of a battle: \<open>battle/MyGame.cpp\<close>. Two players choose an action each, \<open>process\<close>
  plays the round. The mutex of \<open>Action\<close> and \<open>process\<close> makes both atomic. The \<open>int\<close> counters
  are integers here: the invariant bounds each of them, so no addition wraps. \<open>action\<close> and
  \<open>prev_action\<close> are read bit by bit and stay 32 bits wide.
\<close>

section \<open>State\<close>

abbreviation (input) MAX_PLAYER :: nat where "MAX_PLAYER \<equiv> 2"
abbreviation (input) MAX_HEALTH :: int where "MAX_HEALTH \<equiv> 1"
abbreviation (input) MAX_ENERGY :: int where "MAX_ENERGY \<equiv> 2"
abbreviation (input) MAX_ROUND :: int where "MAX_ROUND \<equiv> 10"
abbreviation (input) DODGE_ROUND :: int where "DODGE_ROUND \<equiv> 2"

abbreviation (input) MEDITATE :: "32 word" where "MEDITATE \<equiv> 1"
abbreviation (input) GUARD :: "32 word" where "GUARD \<equiv> 2"
abbreviation (input) EVADE :: "32 word" where "EVADE \<equiv> 4"
abbreviation (input) PUNCH :: "32 word" where "PUNCH \<equiv> 8"
abbreviation (input) FIRE :: "32 word" where "FIRE \<equiv> 16"

record player_info =
  action :: "32 word"
  health :: int
  energy :: int
  target :: int
  prev_action :: "32 word"
  consecutive :: int

record game =
  now_round :: int
  players :: "player_info list"
  Achievements :: "(int \<times> Achievement_ID_t \<times> int) list"

definition required_energy :: "32 word \<Rightarrow> int option" where
  "required_energy = map_of [(MEDITATE, 0), (GUARD, 0), (EVADE, 1), (PUNCH, 1), (FIRE, 2)]"

section \<open>Operations\<close>

definition MyGame :: game where
  "MyGame =
     \<lparr>now_round = -1,
      players = map (\<lambda>i. \<lparr>action = MEDITATE, health = MAX_HEALTH, energy = 0,
                          target = int MAX_PLAYER - (int i + 1), prev_action = -1, consecutive = 0\<rparr>)
                    [0..<MAX_PLAYER],
      Achievements = []\<rparr>"

definition MYPOPCNT :: "32 word \<Rightarrow> nat" where
  "MYPOPCNT x = length (filter (\<lambda>i. bit x i) [0..<32])"

unbundle bit_operations_syntax

definition CheckAction :: "32 word \<Rightarrow> bool" where
  "CheckAction act =
     (if act AND NOT 0x1F \<noteq> 0 then False
      else if MYPOPCNT act \<noteq> 1 then False
      else True)"

definition upd_player :: "nat \<Rightarrow> (player_info \<Rightarrow> player_info) \<Rightarrow> game \<Rightarrow> game" where
  "upd_player i f g = g\<lparr>players := (players g)[i := f (players g ! i)]\<rparr>"

text \<open>
  \<open>required_energy.at\<close> throws when the action is not in the map, and \<open>players[side]\<close> is only
  defined for a side of the game.
\<close>

definition Action :: "int \<Rightarrow> 32 word \<Rightarrow> game \<Rightarrow> game result" where
  "Action side act g =
     (if \<not> CheckAction act then Inr g
      else case required_energy act of
        None \<Rightarrow> Inl (Out_of_range ''map::at'')
      | Some need \<Rightarrow>
          if side < 0 \<or> int (length (players g)) \<le> side then Inl (Undefined ''players[side]'')
          else if need \<le> energy (players g ! nat side)
               then Inr (upd_player (nat side) (\<lambda>p. p\<lparr>action := act\<rparr>) g)
               else Inr g)"

fun GetWinner_loop :: "player_info list \<Rightarrow> int \<Rightarrow> int \<Rightarrow> int" where
  "GetWinner_loop [] i winner = winner"
| "GetWinner_loop (p # ps) i winner =
     (if health p > 0
      then (if winner \<ge> 0 then -1 else GetWinner_loop ps (i + 1) i)
      else GetWinner_loop ps (i + 1) winner)"

definition GetWinner :: "game \<Rightarrow> int" where
  "GetWinner g = GetWinner_loop (players g) 0 (-1)"

definition AchieveProgress :: "int \<Rightarrow> Achievement_ID_t \<Rightarrow> int \<Rightarrow> game \<Rightarrow> game" where
  "AchieveProgress side achieve cnt g = g\<lparr>Achievements := Achievements g @ [(side, achieve, cnt)]\<rparr>"

text \<open>
  The body of the loop of \<open>process\<close> for player \<open>i\<close>: the switch runs on the state in which
  \<open>prev_action\<close> and \<open>consecutive\<close> are already updated, and the energy is taken after it.
\<close>

definition process_switch :: "nat \<Rightarrow> game \<Rightarrow> game" where
  "process_switch i g =
     (let act = action (players g ! i);
          t = nat (target (players g ! i));
          tact = action (players g ! t);
          cons = consecutive (players g ! i)
      in if act = MEDITATE then
           (let g = upd_player i (\<lambda>p. p\<lparr>energy := energy p + 1\<rparr>) g
            in if energy (players g ! i) > MAX_ENERGY
               then upd_player i (\<lambda>p. p\<lparr>energy := MAX_ENERGY\<rparr>)
                      (AchieveProgress (int i) ACHIEVE_MEDITATE_ADDICTION 1 g)
               else g)
         else if act = PUNCH then
           (let g = (if tact AND 0x01 \<noteq> 0 then upd_player t (\<lambda>p. p\<lparr>health := health p - 1\<rparr>) g else g);
                g = (if tact = act then AchieveProgress (int i) ACHIEVE_DOPPELGANGER 1 g else g)
            in AchieveProgress (int i) ACHIEVE_PUNCH_ADDICTION cons g)
         else if act = FIRE then
           (let g = (if tact AND 0x0b \<noteq> 0
                     then (let g = upd_player t (\<lambda>p. p\<lparr>health := health p - 1\<rparr>) g
                           in if health (players g ! t) \<le> 0 \<and> tact = PUNCH
                              then AchieveProgress (int i) ACHIEVE_KNEELINMYSIGHT 1 g else g)
                     else g);
                g = (if tact = act then AchieveProgress (int i) ACHIEVE_DOPPELGANGER 1 g else g)
            in AchieveProgress (int i) ACHIEVE_FIRE_ADDICTION 1 g)
         else
           AchieveProgress (int i) (if act = GUARD then ACHIEVE_GUARD_ADDICTION else ACHIEVE_EVADE_ADDICTION) cons g)"

definition process_player :: "nat \<Rightarrow> game \<Rightarrow> game" where
  "process_player i g =
     (let prev = prev_action (players g ! i);
          act = action (players g ! i);
          g = upd_player i (\<lambda>p. p\<lparr>prev_action := act,
                 consecutive := (if prev \<noteq> act then 1 else consecutive p + 1)\<rparr>) g
      in case required_energy act of
           None \<Rightarrow> g
         | Some use_energy \<Rightarrow>
             if energy (players g ! i) < use_energy then g
             else upd_player i (\<lambda>p. p\<lparr>energy := energy p - use_energy\<rparr>) (process_switch i g))"

definition process :: "game \<Rightarrow> bool \<times> game" where
  "process g =
     (if now_round g \<ge> MAX_ROUND then (True, g)
      else if GetWinner g \<ge> 0 then (True, g)
      else
        (let g = g\<lparr>now_round := now_round g + 1\<rparr>;
             g = fold process_player [0..<MAX_PLAYER] g;
             g = fold (\<lambda>i. upd_player i (\<lambda>p. p\<lparr>action := MEDITATE\<rparr>)) [0..<MAX_PLAYER] g
         in (GetWinner g \<ge> 0 \<or> now_round g \<ge> MAX_ROUND, g)))"

text \<open>\<open>prev_action\<close> is narrowed to a byte.\<close>

definition GetPlayerInfo :: "int \<Rightarrow> game \<Rightarrow> byte \<times> int \<times> int" where
  "GetPlayerInfo side g =
     (if side < 0 \<or> side > 1 then (0, -1, -1)
      else (let p = players g ! nat side in (ucast (prev_action p), health p, energy p)))"

definition GetRound :: "game \<Rightarrow> int" where
  "GetRound g = now_round g"

definition GetAchievement :: "game \<Rightarrow> (int \<times> Achievement_ID_t \<times> int) option \<times> game" where
  "GetAchievement g = (case Achievements g of
       [] \<Rightarrow> (None, g)
     | a # q \<Rightarrow> (Some a, g\<lparr>Achievements := q\<rparr>))"

section \<open>Actions\<close>

lemma upt_MAX_PLAYER [simp]: "[0..<MAX_PLAYER] = [0, 1]"
  by (simp add: upt_rec)

definition is_action :: "32 word \<Rightarrow> bool" where
  "is_action a \<longleftrightarrow> a \<in> {MEDITATE, GUARD, EVADE, PUNCH, FIRE}"

lemma required_energy_simps [simp]:
  "required_energy MEDITATE = Some 0" "required_energy GUARD = Some 0" "required_energy EVADE = Some 1"
  "required_energy PUNCH = Some 1" "required_energy FIRE = Some 2"
  by (simp_all add: required_energy_def)

lemma is_action_required: "is_action a \<longleftrightarrow> required_energy a \<noteq> None"
  by (auto simp: is_action_def required_energy_def)

lemma low_bits_bound: "act AND NOT 0x1F = 0 \<Longrightarrow> unat (act :: 32 word) < 32"
proof -
  assume "act AND NOT 0x1F = 0"
  then have z: "act AND NOT (mask 5) = 0"
    by (simp add: mask_eq_exp_minus_1)
  have "bit act n \<Longrightarrow> n < 5" for n
    using arg_cong [OF z, of "\<lambda>w. bit w n"] bit_imp_le_length [of act n]
    by (auto simp: bit_simps)
  then have "take_bit 5 act = act"
    by (intro bit_word_eqI) (auto simp: bit_simps)
  then have "unat act = take_bit 5 (unat act)"
    by (metis unsigned_take_bit_eq)
  then show ?thesis
    using take_bit_nat_less_exp [of 5 "unat act"] by simp
qed

lemma CheckAction_small: "\<forall>n\<in>set [0..<32]. CheckAction (word_of_nat n) \<longrightarrow> is_action (word_of_nat n)"
  by code_simp

lemma CheckAction_actions: "\<forall>a\<in>set [MEDITATE, GUARD, EVADE, PUNCH, FIRE]. CheckAction a"
  by code_simp

lemma CheckAction_iff: "CheckAction act = is_action act"
proof
  assume c: "CheckAction act"
  then have "unat act < 32"
    by (intro low_bits_bound) (auto simp: CheckAction_def split: if_splits)
  with c show "is_action act"
    using CheckAction_small [THEN bspec, of "unat act"] by simp
next
  show "is_action act \<Longrightarrow> CheckAction act"
    using CheckAction_actions [THEN bspec, of act] by (simp add: is_action_def)
qed

section \<open>The rules\<close>

text \<open>
  The rules without the loop: who is hit by what, what an action costs, which achievements
  count. Both players are read as they were before the round.
\<close>

definition hits :: "32 word \<Rightarrow> 32 word \<Rightarrow> bool" where
  "hits a b = (a = PUNCH \<and> b = MEDITATE \<or> a = FIRE \<and> b \<in> {MEDITATE, GUARD, PUNCH})"

definition energy_after :: "32 word \<Rightarrow> int \<Rightarrow> int" where
  "energy_after a e = (if a = MEDITATE then min MAX_ENERGY (e + 1) else e - the (required_energy a))"

definition player_after :: "player_info \<Rightarrow> player_info \<Rightarrow> player_info" where
  "player_after p q = p\<lparr>action := MEDITATE,
     health := health p - (if hits (action q) (action p) then 1 else 0),
     energy := energy_after (action p) (energy p),
     prev_action := action p,
     consecutive := (if prev_action p = action p then consecutive p + 1 else 1)\<rparr>"

definition achieved :: "int \<Rightarrow> player_info \<Rightarrow> player_info \<Rightarrow> (int \<times> Achievement_ID_t \<times> int) list" where
  "achieved i p q =
     (let c = (if prev_action p = action p then consecutive p + 1 else 1);
          same = (if action q = action p then [(i, ACHIEVE_DOPPELGANGER, 1)] else [])
      in if action p = MEDITATE then (if energy p = MAX_ENERGY then [(i, ACHIEVE_MEDITATE_ADDICTION, 1)] else [])
         else if action p = GUARD then [(i, ACHIEVE_GUARD_ADDICTION, c)]
         else if action p = EVADE then [(i, ACHIEVE_EVADE_ADDICTION, c)]
         else if action p = PUNCH then same @ [(i, ACHIEVE_PUNCH_ADDICTION, c)]
         else (if action q = PUNCH then [(i, ACHIEVE_KNEELINMYSIGHT, 1)] else []) @ same
              @ [(i, ACHIEVE_FIRE_ADDICTION, 1)])"

definition over :: "game \<Rightarrow> bool" where
  "over g = (GetWinner g \<ge> 0 \<or> now_round g \<ge> MAX_ROUND)"

definition play_round :: "game \<Rightarrow> game" where
  "play_round g =
     (let p = players g ! 0; q = players g ! 1
      in g\<lparr>now_round := now_round g + 1,
           players := [player_after p q, player_after q p],
           Achievements := Achievements g @ achieved 0 p q @ achieved 1 q p\<rparr>)"

section \<open>Invariant\<close>

definition wf_player :: "int \<Rightarrow> player_info \<Rightarrow> bool" where
  "wf_player r p \<longleftrightarrow>
     is_action (action p) \<and> the (required_energy (action p)) \<le> energy p \<and>
     energy p \<in> {0..MAX_ENERGY} \<and> health p \<in> {0..MAX_HEALTH} \<and>
     consecutive p \<in> {0..r + 1} \<and> (r = -1 \<longleftrightarrow> prev_action p = -1) \<and>
     (r \<noteq> -1 \<longrightarrow> is_action (prev_action p))"

definition wf_game :: "game \<Rightarrow> bool" where
  "wf_game g \<longleftrightarrow>
     length (players g) = MAX_PLAYER \<and> now_round g \<in> {-1..MAX_ROUND} \<and>
     (\<forall>p\<in>set (players g). wf_player (now_round g) p) \<and>
     target (players g ! 0) = 1 \<and> target (players g ! 1) = 0 \<and>
     (health (players g ! 0) = 1 \<or> health (players g ! 1) = 1)"

lemma wf_gameE:
  assumes "wf_game g"
  obtains p q where "players g = [p, q]" "wf_player (now_round g) p" "wf_player (now_round g) q"
    "target p = 1" "target q = 0" "health p = 1 \<or> health q = 1" "now_round g \<in> {-1..MAX_ROUND}"
proof -
  obtain p q where "players g = [p, q]"
    using assms by (auto simp: wf_game_def length_Suc_conv numeral_2_eq_2)
  with assms show thesis
    by (intro that) (auto simp: wf_game_def)
qed

lemma GetWinner_two:
  "players g = [p, q] \<Longrightarrow>
   GetWinner g = (if health p > 0 \<and> health q \<le> 0 then 0 else if health p \<le> 0 \<and> health q > 0 then 1 else -1)"
  by (simp add: GetWinner_def)

lemma wf_game_over:
  assumes "wf_game g"
  shows "over g \<longleftrightarrow> now_round g = MAX_ROUND \<or> health (players g ! 0) = 0 \<or> health (players g ! 1) = 0"
  using assms
proof (rule wf_gameE)
  fix p q
  assume "players g = [p, q]" "wf_player (now_round g) p" "wf_player (now_round g) q"
    "health p = 1 \<or> health q = 1" "now_round g \<in> {-1..MAX_ROUND}"
  then show ?thesis
    by (auto simp: over_def GetWinner_two wf_player_def)
qed

lemma is_action_cases:
  assumes "is_action a"
  obtains "a = MEDITATE" | "a = GUARD" | "a = EVADE" | "a = PUNCH" | "a = FIRE"
  using assms by (auto simp: is_action_def)

lemma process_player_0:
  assumes "players g = [p, q]" "wf_player r p" "is_action (action q)" "target p = 1" "health q = 1"
  shows "process_player 0 g = g\<lparr>players :=
      [(player_after p q)\<lparr>action := action p, health := health p\<rparr>,
       q\<lparr>health := health q - (if hits (action p) (action q) then 1 else 0)\<rparr>],
      Achievements := Achievements g @ achieved 0 p q\<rparr>"
proof -
  have "is_action (action p)" using assms(2) by (simp add: wf_player_def)
  then show ?thesis
    using assms
    by (elim is_action_cases)
      (simp_all add: process_player_def process_switch_def upd_player_def AchieveProgress_def Let_def
        player_after_def achieved_def energy_after_def hits_def wf_player_def)
qed

lemma process_player_1:
  assumes "players g = [p, q]" "the (required_energy (action q)) \<le> energy q" "energy q \<le> MAX_ENERGY"
    "is_action (action q)" "is_action (action p)" "target q = 0" "health p = 1"
  shows "process_player 1 g = g\<lparr>players :=
      [p\<lparr>health := health p - (if hits (action q) (action p) then 1 else 0)\<rparr>,
       (player_after q p)\<lparr>action := action q, health := health q\<rparr>],
      Achievements := Achievements g @ achieved 1 q p\<rparr>"
  using assms(4) assms
  by (elim is_action_cases)
    (simp_all add: process_player_def process_switch_def upd_player_def AchieveProgress_def Let_def
      player_after_def achieved_def energy_after_def hits_def)

lemma process_players:
  assumes "players g = [p, q]" "wf_player r p" "wf_player r q" "target p = 1" "target q = 0"
    "health p = 1" "health q = 1"
  shows "process_player 1 (process_player 0 g) = g\<lparr>players :=
      [(player_after p q)\<lparr>action := action p\<rparr>, (player_after q p)\<lparr>action := action q\<rparr>],
      Achievements := Achievements g @ achieved 0 p q @ achieved 1 q p\<rparr>"
  (is "process_player 1 ?g = _")
proof -
  have a: "is_action (action p)" "is_action (action q)"
    using assms by (auto simp: wf_player_def)
  let ?p = "(player_after p q)\<lparr>action := action p, health := health p\<rparr>"
  let ?q = "q\<lparr>health := health q - (if hits (action p) (action q) then 1 else 0)\<rparr>"
  have g: "?g = g\<lparr>players := [?p, ?q], Achievements := Achievements g @ achieved 0 p q\<rparr>"
    using assms a by (intro process_player_0) auto
  then have "process_player 1 ?g = ?g\<lparr>players :=
      [?p\<lparr>health := health ?p - (if hits (action ?q) (action ?p) then 1 else 0)\<rparr>,
       (player_after ?q ?p)\<lparr>action := action ?q, health := health ?q\<rparr>],
      Achievements := Achievements ?g @ achieved 1 ?q ?p\<rparr>"
    using assms a by (intro process_player_1) (auto simp: wf_player_def)
  moreover have "achieved 1 ?q ?p = achieved 1 q p"
    by (simp add: achieved_def)
  ultimately show ?thesis
    unfolding g by (simp add: player_after_def)
qed

text \<open>The refinement: a call of \<open>process\<close> on a game that is not over plays one round of the rules.\<close>

lemma process_play_round:
  assumes "wf_game g" "\<not> over g"
  shows "process g = (over (play_round g), play_round g)"
proof -
  from assms(1) obtain p q where pq: "players g = [p, q]" "wf_player (now_round g) p"
    "wf_player (now_round g) q" "target p = 1" "target q = 0" "health p = 1 \<or> health q = 1"
    by (rule wf_gameE)
  then have h: "health p = 1" "health q = 1"
    using assms wf_game_over [of g] by (auto simp: wf_player_def)
  let ?g = "g\<lparr>now_round := now_round g + 1\<rparr>"
  have "players ?g = [p, q]" using pq by simp
  from process_players [OF this pq(2-5) h]
  have "fold process_player [0..<MAX_PLAYER] ?g = ?g\<lparr>players :=
      [(player_after p q)\<lparr>action := action p\<rparr>, (player_after q p)\<lparr>action := action q\<rparr>],
      Achievements := Achievements g @ achieved 0 p q @ achieved 1 q p\<rparr>"
    by simp
  moreover have "(player_after p q)\<lparr>action := MEDITATE\<rparr> = player_after p q"
    "(player_after q p)\<lparr>action := MEDITATE\<rparr> = player_after q p"
    by (simp_all add: player_after_def)
  ultimately show ?thesis
    using assms(2) pq(1)
    by (simp add: process_def over_def Let_def upd_player_def play_round_def GetWinner_def)
qed

lemma process_over: "over g \<Longrightarrow> process g = (True, g)"
  by (auto simp: process_def over_def)

lemma wf_player_after:
  assumes "wf_player r p" "wf_player r q" "health p = 1" "-1 \<le> r"
  shows "wf_player (r + 1) (player_after p q)"
proof -
  have "is_action (action p)" using assms(1) by (simp add: wf_player_def)
  then show ?thesis
    using assms
    by (elim is_action_cases)
      (auto simp: wf_player_def player_after_def energy_after_def is_action_def)
qed

lemma not_both_hit: "hits a b \<Longrightarrow> \<not> hits b a"
  unfolding hits_def by (elim disjE conjE) simp_all

lemma wf_play_round [wf_intros]:
  assumes "wf_game g" "\<not> over g"
  shows "wf_game (play_round g)"
proof -
  from assms(1) obtain p q where pq: "players g = [p, q]" "wf_player (now_round g) p"
    "wf_player (now_round g) q" "target p = 1" "target q = 0" "health p = 1 \<or> health q = 1"
    "now_round g \<in> {-1..MAX_ROUND}"
    by (rule wf_gameE)
  then have "health p = 1" "health q = 1" "now_round g < MAX_ROUND"
    using assms wf_game_over [of g] by (auto simp: wf_player_def)
  then show ?thesis
    using pq wf_player_after [of "now_round g" p q] wf_player_after [of "now_round g" q p]
      not_both_hit [of "action p" "action q"]
    by (auto simp: wf_game_def play_round_def Let_def player_after_def)
qed

lemma wf_process [wf_intros]: "wf_game g \<Longrightarrow> wf_game (snd (process g))"
  by (cases "over g") (simp_all add: process_over process_play_round wf_play_round)

lemma wf_MyGame [wf_intros]: "wf_game MyGame"
  by (simp add: wf_game_def MyGame_def wf_player_def is_action_def)

lemma Action_ok:
  assumes "wf_game g" "0 \<le> side" "side < int MAX_PLAYER"
  shows "Action side act g = Inr (if is_action act \<and> the (required_energy act) \<le> energy (players g ! nat side)
     then upd_player (nat side) (\<lambda>p. p\<lparr>action := act\<rparr>) g else g)"
  using assms by (auto simp: Action_def CheckAction_iff is_action_required wf_game_def)

lemma wf_player_choose:
  "wf_player r p \<Longrightarrow> is_action a \<Longrightarrow> the (required_energy a) \<le> energy p \<Longrightarrow> wf_player r (p\<lparr>action := a\<rparr>)"
  by (simp add: wf_player_def)

lemma wf_Action [wf_intros]:
  assumes "wf_game g" "0 \<le> side" "side < int MAX_PLAYER" "Action side act g = Inr g'"
  shows "wf_game g'"
proof -
  have "side = 0 \<or> side = 1" using assms by auto
  moreover from assms(1) obtain p q where "players g = [p, q]" "wf_player (now_round g) p"
    "wf_player (now_round g) q" "target p = 1" "target q = 0" "health p = 1 \<or> health q = 1"
    "now_round g \<in> {-1..MAX_ROUND}"
    by (rule wf_gameE)
  moreover have "g' = g \<or> is_action act \<and> the (required_energy act) \<le> energy (players g ! nat side)
      \<and> g' = upd_player (nat side) (\<lambda>p. p\<lparr>action := act\<rparr>) g"
    using assms(4) unfolding Action_ok [OF assms(1-3)] by (simp split: if_splits)
  ultimately show ?thesis
    using assms(1) wf_player_choose [of "now_round g" p act] wf_player_choose [of "now_round g" q act]
    by (elim disjE) (simp_all add: wf_game_def upd_player_def)
qed

lemma wf_GetAchievement [wf_intros]: "wf_game g \<Longrightarrow> wf_game (snd (GetAchievement g))"
  by (auto simp: GetAchievement_def wf_game_def split: list.splits)

section \<open>The interface of the battle server\<close>

text \<open>
  The server calls \<open>process\<close> once per round, with the requests of the players in between, until
  it answers true. \<open>left\<close> bounds the calls that remain.
\<close>

locale round_game =
  fixes wf :: "'g \<Rightarrow> bool"
    and play :: "'g \<Rightarrow> bool \<times> 'g"
    and finished :: "'g \<Rightarrow> bool"
    and left :: "'g \<Rightarrow> nat"
  assumes wf_play: "wf g \<Longrightarrow> wf (snd (play g))"
    and play_finished: "wf g \<Longrightarrow> finished g \<Longrightarrow> play g = (True, g)"
    and play_answer: "wf g \<Longrightarrow> fst (play g) = finished (snd (play g))"
    and left_play: "wf g \<Longrightarrow> \<not> finished g \<Longrightarrow> left (snd (play g)) < left g"
    and left_finished: "wf g \<Longrightarrow> left g = 0 \<Longrightarrow> finished g"
begin

definition request :: "('g \<Rightarrow> 'g) \<Rightarrow> bool" where
  "request m \<longleftrightarrow> (\<forall>g. wf g \<longrightarrow> wf (m g) \<and> left (m g) = left g \<and> finished (m g) = finished g)"

lemma ends:
  assumes "wf g" "\<forall>m\<in>set ms. request m" "left g \<le> length ms"
  shows "finished (fold (\<lambda>m g. snd (play (m g))) ms g)"
  using assms
proof (induction ms arbitrary: g)
  case Nil
  then show ?case by (simp add: left_finished)
next
  case (Cons m ms)
  then have m: "wf (m g)" "left (m g) = left g" "finished (m g) = finished g"
    by (simp_all add: request_def)
  have stay: "finished (fold (\<lambda>m g. snd (play (m g))) ks h)"
    if "wf h" "finished h" "\<forall>m\<in>set ks. request m" for h ks
    using that
  proof (induction ks arbitrary: h)
    case (Cons k ks)
    then have "wf (k h)" "finished (k h)" by (simp_all add: request_def)
    with Cons show ?case by (simp add: play_finished)
  qed simp
  show ?case
  proof (cases "finished g")
    case True
    with Cons.prems m stay [of "m g" ms] show ?thesis by (simp add: play_finished)
  next
    case False
    with Cons m wf_play [of "m g"] left_play [of "m g"] show ?thesis by simp
  qed
qed

end

interpretation battle: round_game wf_game process over "\<lambda>g. nat (MAX_ROUND - now_round g)"
proof unfold_locales
  fix g
  assume wf: "wf_game g"
  then show "wf_game (snd (process g))" by (rule wf_process)
  show "over g \<Longrightarrow> process g = (True, g)" by (rule process_over)
  show "fst (process g) = over (snd (process g))"
    using wf by (cases "over g") (simp_all add: process_over process_play_round)
  show "\<not> over g \<Longrightarrow> nat (MAX_ROUND - now_round (snd (process g))) < nat (MAX_ROUND - now_round g)"
    using wf by (simp add: process_play_round play_round_def Let_def) (simp add: over_def)
  show "nat (MAX_ROUND - now_round g) = 0 \<Longrightarrow> over g"
    by (simp add: over_def)
qed

section \<open>Reachable games\<close>

inductive game_reach :: "nat \<Rightarrow> game \<Rightarrow> bool" where
  start: "game_reach 0 MyGame"
| act: "game_reach n g \<Longrightarrow> 0 \<le> side \<Longrightarrow> side < int MAX_PLAYER \<Longrightarrow> Action side a g = Inr g' \<Longrightarrow> game_reach n g'"
| round: "game_reach n g \<Longrightarrow> game_reach (Suc n) (snd (process g))"
| achieve: "game_reach n g \<Longrightarrow> game_reach n (snd (GetAchievement g))"

lemma game_reach_wf: "game_reach n g \<Longrightarrow> wf_game g"
  by (induction rule: game_reach.induct) (auto intro: wf_intros)

lemma Action_round:
  assumes "Action side a g = Inr g'"
  shows "now_round g' = now_round g" "GetWinner g' = GetWinner g"
proof -
  have w: "GetWinner_loop (ps[i := (ps ! i)\<lparr>action := a\<rparr>]) k w = GetWinner_loop ps k w" for ps i k w
    by (induction ps arbitrary: i k w) (simp_all split: nat.split)
  have "g' = g \<or> (\<exists>i. g' = upd_player i (\<lambda>p. p\<lparr>action := a\<rparr>) g)"
    using assms by (auto simp: Action_def split: if_splits option.splits)
  then show "now_round g' = now_round g" "GetWinner g' = GetWinner g"
    by (auto simp: upd_player_def GetWinner_def w)
qed

lemma GetAchievement_round:
  "now_round (snd (GetAchievement g)) = now_round g" "GetWinner (snd (GetAchievement g)) = GetWinner g"
  by (simp_all add: GetAchievement_def GetWinner_def split: list.splits)

lemma game_reach_round: "game_reach n g \<Longrightarrow> over g \<or> now_round g = int n - 1"
proof (induction rule: game_reach.induct)
  case start
  show ?case by (simp add: MyGame_def)
next
  case (act n g side a g')
  then show ?case by (auto simp: over_def Action_round)
next
  case (round n g)
  then show ?case
    using game_reach_wf [OF round.hyps]
    by (cases "over g") (auto simp: process_over process_play_round play_round_def Let_def)
next
  case (achieve n g)
  then show ?case by (auto simp: over_def GetAchievement_round)
qed

section \<open>Properties\<close>

text \<open>
  C16. Whatever the players send, every game that requests and rounds can reach is well formed:
  two players who aim at each other, energy in 0..2, health in 0..1, an action that its player
  can pay, a round in -1..10, never both players dead; and no request for one of the two sides
  fails (\<open>required_energy.at\<close> does not throw).
\<close>

theorem game_invariant:
  assumes "game_reach n g"
  shows "wf_game g \<and> (\<forall>side act. 0 \<le> side \<and> side < int MAX_PLAYER \<longrightarrow> is_ok (Action side act g))"
  using game_reach_wf [OF assms] by (auto simp: Action_ok)

theorem game_invariant_witness: "wf_game (snd (process MyGame)) \<and> is_ok (Action 1 PUNCH (snd (process MyGame)))"
  using game_invariant [OF game_reach.round [OF game_reach.start]] by simp

text \<open>
  C2. One call of \<open>process\<close> on a running game plays exactly one round of the rules: both players
  act simultaneously (each is judged on the state before the round, though the loop runs player 0
  first), a punch hits meditation, fire hits meditation, guard and punch, meditating gains one
  energy up to the limit, every other action costs its energy, the actions are reset, the
  achievements are recorded, and the answer says whether the game is over. On a finished game
  \<open>process\<close> changes nothing.
\<close>

theorem process_refines_rules:
  assumes "wf_game g"
  shows "process g = (if over g then (True, g) else (over (play_round g), play_round g))"
  using assms by (simp add: process_over process_play_round)

theorem process_refines_rules_witness:
  "fst (process (MyGame\<lparr>players := (players MyGame)[0 := (players MyGame ! 0)\<lparr>energy := 2, action := FIRE\<rparr>]\<rparr>))"
proof -
  let ?g = "MyGame\<lparr>players := (players MyGame)[0 := (players MyGame ! 0)\<lparr>energy := 2, action := FIRE\<rparr>]\<rparr>"
  have "wf_game ?g"
    by (simp add: wf_game_def MyGame_def wf_player_def is_action_def)
  moreover have "\<not> over ?g" "over (play_round ?g)"
    by (simp_all add: over_def GetWinner_def MyGame_def play_round_def player_after_def hits_def Let_def)
  ultimately show ?thesis
    using process_refines_rules [of ?g] by simp
qed

text \<open>
  C27. Every battle ends: after eleven calls of \<open>process\<close>, with any requests in between, the game
  is over and stays as it is; before that, a game that is not over has played as many rounds as
  there were calls.
\<close>

theorem game_ends:
  assumes "game_reach n g"
  shows "(over g \<or> n \<le> 10 \<and> now_round g = int n - 1) \<and> (11 \<le> n \<longrightarrow> process g = (True, g))"
  using game_reach_round [OF assms] game_reach_wf [OF assms] process_over [of g]
  by (auto simp: wf_game_def over_def)

theorem game_ends_witness:
  "over (((\<lambda>g. snd (process g)) ^^ 11) MyGame) \<and>
   process (((\<lambda>g. snd (process g)) ^^ 11) MyGame) = (True, ((\<lambda>g. snd (process g)) ^^ 11) MyGame)"
proof -
  have "game_reach k (((\<lambda>g. snd (process g)) ^^ k) MyGame)" for k
    by (induction k) (auto intro: game_reach.intros)
  from game_ends [OF this [of 11]] show ?thesis by auto
qed

definition flip :: "int \<times> Achievement_ID_t \<times> int \<Rightarrow> int \<times> Achievement_ID_t \<times> int" where
  "flip a = (case a of (side, achieve, cnt) \<Rightarrow> (1 - side, achieve, cnt))"

definition swap_sides :: "game \<Rightarrow> game" where
  "swap_sides g = g\<lparr>players := [(players g ! 1)\<lparr>target := 1\<rparr>, (players g ! 0)\<lparr>target := 0\<rparr>],
     Achievements := map flip (Achievements g)\<rparr>"

lemma achieved_flip: "achieved i (p\<lparr>target := t\<rparr>) (q\<lparr>target := u\<rparr>) = map flip (achieved (1 - i) p q)"
  by (simp add: achieved_def flip_def Let_def)

lemma player_after_target:
  "player_after (p\<lparr>target := t\<rparr>) (q\<lparr>target := u\<rparr>) = (player_after p q)\<lparr>target := t\<rparr>"
  by (simp add: player_after_def)

lemma wf_swap_sides [wf_intros]: "wf_game g \<Longrightarrow> wf_game (swap_sides g)"
  by (erule wf_gameE) (auto simp: swap_sides_def wf_game_def wf_player_def)

lemma over_swap_sides: "wf_game g \<Longrightarrow> over (swap_sides g) = over g"
  using wf_swap_sides [of g] by (auto simp: wf_game_over swap_sides_def)

lemma game_symmetric_facts:
  assumes "wf_game g"
  shows "fst (process (swap_sides g)) = fst (process g)"
    and "players (snd (process (swap_sides g))) = players (swap_sides (snd (process g)))"
    and "mset (Achievements (snd (process (swap_sides g)))) = mset (Achievements (swap_sides (snd (process g))))"
    and "GetWinner (swap_sides g) = (if GetWinner g < 0 then GetWinner g else 1 - GetWinner g)"
proof -
  from assms obtain p q where pq: "players g = [p, q]" "target p = 1" "target q = 0"
    by (rule wf_gameE)
  have play: "players (play_round (swap_sides g)) = players (swap_sides (play_round g))"
    "mset (Achievements (play_round (swap_sides g))) = mset (Achievements (swap_sides (play_round g)))"
    using pq by (simp_all add: play_round_def swap_sides_def Let_def player_after_target achieved_flip)
  moreover have "over (play_round (swap_sides g)) = over (swap_sides (play_round g))"
    using play(1) by (simp add: over_def GetWinner_def) (simp add: play_round_def swap_sides_def Let_def)
  ultimately show "fst (process (swap_sides g)) = fst (process g)"
    "players (snd (process (swap_sides g))) = players (swap_sides (snd (process g)))"
    "mset (Achievements (snd (process (swap_sides g)))) = mset (Achievements (swap_sides (snd (process g))))"
    using assms
    by (cases "over g"; simp add: process_over process_play_round wf_swap_sides over_swap_sides wf_play_round)+
  show "GetWinner (swap_sides g) = (if GetWinner g < 0 then GetWinner g else 1 - GetWinner g)"
    using pq by (simp add: GetWinner_def swap_sides_def)
qed

text \<open>
  No side has an advantage: exchanging the players before a round exchanges the outcome, the
  achievements and the winner, although the loop plays side 0 first.
\<close>

theorem game_symmetric:
  assumes "wf_game g"
  shows "fst (process (swap_sides g)) = fst (process g)
    \<and> players (snd (process (swap_sides g))) = players (swap_sides (snd (process g)))
    \<and> mset (Achievements (snd (process (swap_sides g)))) = mset (Achievements (swap_sides (snd (process g))))
    \<and> GetWinner (swap_sides g) = (if GetWinner g < 0 then GetWinner g else 1 - GetWinner g)"
  using game_symmetric_facts [OF assms] by blast

theorem game_symmetric_witness:
  "players (snd (process (swap_sides MyGame))) = players (swap_sides (snd (process MyGame)))"
  using game_symmetric [OF wf_MyGame] by blast

abbreviation idle :: "nat \<Rightarrow> game" where
  "idle n \<equiv> ((\<lambda>g. snd (process g)) ^^ n) MyGame"

lemma idle_reach: "game_reach n (idle n)"
  by (induction n) (auto intro: game_reach.intros)

lemma idle_unhurt: "\<forall>p\<in>set (players (idle n)). action p = MEDITATE \<and> health p = 1"
proof (induction n)
  case 0
  show ?case by (simp add: MyGame_def)
next
  case (Suc n)
  from game_reach_wf [OF idle_reach [of n]] obtain p q where "players (idle n) = [p, q]"
    by (rule wf_gameE)
  with Suc game_reach_wf [OF idle_reach [of n]] show ?case
    by (cases "over (idle n)")
      (simp_all add: process_over process_play_round play_round_def Let_def player_after_def hits_def)
qed

lemma idle_over: "over (idle n) \<longleftrightarrow> now_round (idle n) = MAX_ROUND"
proof -
  from game_reach_wf [OF idle_reach [of n]] obtain p q where "players (idle n) = [p, q]"
    by (rule wf_gameE)
  with idle_unhurt [of n] show ?thesis
    by (simp add: wf_game_over [OF game_reach_wf [OF idle_reach]])
qed

lemma idle_round: "n \<le> 11 \<Longrightarrow> now_round (idle n) = int n - 1"
proof (induction n)
  case 0
  show ?case by (simp add: MyGame_def)
next
  case (Suc n)
  then have "now_round (idle n) = int n - 1" "\<not> over (idle n)"
    using idle_over [of n] by simp_all
  then show ?case
    using game_reach_wf [OF idle_reach [of n]] by (simp add: process_play_round play_round_def Let_def)
qed

lemma fst_process_idle: "fst (process (idle n)) = over (idle (Suc n))"
  using battle.play_answer [OF game_reach_wf [OF idle_reach [of n]]] by simp

text \<open>
  A new game reports round -1, not 0, and a battle in which nobody is hit runs for eleven
  rounds, numbered 0 to 10: the first ten calls of \<open>process\<close> answer false, the eleventh true.
\<close>

theorem game_eleven_rounds:
  "GetRound MyGame = -1 \<and> \<not> fst (process (idle 9)) \<and> GetRound (idle 10) = 9 \<and>
   fst (process (idle 10)) \<and> GetRound (idle 11) = 10"
  using idle_round [of 0] idle_round [of 10] idle_round [of 11]
  unfolding fst_process_idle GetRound_def idle_over by simp

end
