(* ===== verification/Double.thy ===== *)
theory Double
  imports Complex_Main "HOL-Library.Log_Nat"
begin

text \<open>
  The \<open>double\<close> arithmetic that the match maker uses: every operation is the exact rational result
  rounded to the nearest number with 53 significant bits, ties to even. The exponent range is not
  limited: the numbers here are quotients, differences and multiples of 32-bit integers, which are
  far from overflow and from the subnormal numbers.
\<close>

section \<open>Rounding\<close>

definition round_even :: "rat \<Rightarrow> int" where
  "round_even y =
     (let n = \<lfloor>y\<rfloor>; d = y - of_int n
      in if d < 1 / 2 then n else if d > 1 / 2 then n + 1 else if even n then n else n + 1)"

definition exponent :: "rat \<Rightarrow> int" where
  "exponent x =
     (let (a, b) = quotient_of \<bar>x\<bar>;
          e = int (floorlog 2 (nat a)) - int (floorlog 2 (nat b))
      in if 2 powi e \<le> \<bar>x\<bar> then e else e - 1)"

definition fl :: "rat \<Rightarrow> rat" where
  "fl x = (if x = 0 then 0
           else let u = 2 powi (exponent x - 52)
                in (if x < 0 then -1 else 1) * of_int (round_even (\<bar>x\<bar> / u)) * u)"

section \<open>Rounding to an integer\<close>

lemma round_even_bounds: "of_int (round_even y) \<le> y + 1 / 2" "y - 1 / 2 \<le> of_int (round_even y)"
proof -
  have "of_int \<lfloor>y\<rfloor> \<le> y" "y < of_int \<lfloor>y\<rfloor> + 1"
    by linarith+
  then show "of_int (round_even y) \<le> y + 1 / 2" "y - 1 / 2 \<le> of_int (round_even y)"
    unfolding round_even_def Let_def by (simp_all split: if_split) linarith+
qed

lemma round_even_mono: "x \<le> y \<Longrightarrow> round_even x \<le> round_even y"
proof -
  assume le: "x \<le> y"
  then have "\<lfloor>x\<rfloor> \<le> \<lfloor>y\<rfloor>" by (rule floor_mono)
  then consider "\<lfloor>x\<rfloor> = \<lfloor>y\<rfloor>" | "\<lfloor>x\<rfloor> + 1 \<le> \<lfloor>y\<rfloor>" by linarith
  then show ?thesis
  proof cases
    case 1
    with le show ?thesis by (auto simp: round_even_def Let_def)
  next
    case 2
    moreover have "round_even x \<le> \<lfloor>x\<rfloor> + 1" "\<lfloor>y\<rfloor> \<le> round_even y"
      by (auto simp: round_even_def Let_def)
    ultimately show ?thesis by linarith
  qed
qed

lemma round_even_of_int [simp]: "round_even (of_int n) = n"
  by (simp add: round_even_def)

section \<open>The binade of a number\<close>

lemma floorlog_bounds:
  assumes "0 < n"
  shows "2 powi (int (floorlog 2 n) - 1) \<le> (of_nat n :: rat)" "(of_nat n :: rat) < 2 powi int (floorlog 2 n)"
proof -
  have k: "0 < floorlog 2 n"
    using assms by (simp add: floorlog_def)
  have b: "2 ^ (floorlog 2 n - 1) \<le> n \<and> n < 2 ^ floorlog 2 n"
    using floorlog_bounds [of n 2] assms by simp
  have "(2 ^ (floorlog 2 n - 1) :: rat) \<le> of_nat n"
    using b by (metis of_nat_le_iff of_nat_numeral of_nat_power)
  moreover have "(2 :: rat) powi (int (floorlog 2 n) - 1) = 2 ^ (floorlog 2 n - 1)"
    using k by (simp add: power_int_def nat_diff_distrib)
  ultimately show "2 powi (int (floorlog 2 n) - 1) \<le> (of_nat n :: rat)" by simp
  have "(of_nat n :: rat) < 2 ^ floorlog 2 n"
    using b by (metis of_nat_less_iff of_nat_numeral of_nat_power)
  then show "(of_nat n :: rat) < 2 powi int (floorlog 2 n)" by simp
qed

lemma exponent_bounds:
  assumes "x \<noteq> 0"
  shows "2 powi exponent x \<le> \<bar>x\<bar>" "\<bar>x\<bar> < 2 powi (exponent x + 1)"
proof -
  obtain a b where q: "quotient_of \<bar>x\<bar> = (a, b)" by (metis surj_pair)
  have b: "0 < b" using quotient_of_denom_pos [OF q] .
  have x: "\<bar>x\<bar> = of_int a / of_int b" using quotient_of_div [OF q] .
  have a: "0 < a"
    using assms x b by (metis divide_le_0_iff less_le_not_le linorder_not_le of_int_0_le_iff of_int_le_0_iff zero_less_abs_iff)
  define k l where "k = int (floorlog 2 (nat a))" and "l = int (floorlog 2 (nat b))"
  have A: "2 powi (k - 1) \<le> (of_int a :: rat)" "(of_int a :: rat) < 2 powi k"
    using floorlog_bounds [of "nat a"] a by (simp_all add: k_def of_nat_nat)
  have B: "2 powi (l - 1) \<le> (of_int b :: rat)" "(of_int b :: rat) < 2 powi l"
    using floorlog_bounds [of "nat b"] b by (simp_all add: l_def of_nat_nat)
  have low: "2 powi (k - l - 1) \<le> \<bar>x\<bar>"
  proof -
    have "2 powi (k - l - 1) = (2 powi (k - 1) / 2 powi l :: rat)"
      by (simp add: power_int_diff [symmetric] algebra_simps)
    also have "\<dots> \<le> of_int a / of_int b"
      using A B a b by (intro frac_le) auto
    finally show ?thesis using x by simp
  qed
  have high: "\<bar>x\<bar> < 2 powi (k - l + 1)"
  proof -
    have "\<bar>x\<bar> < 2 powi k / 2 powi (l - 1)"
      unfolding x using A B a b by (intro frac_less2 frac_less) auto
    also have "\<dots> = (2 powi (k - l + 1) :: rat)"
      by (simp add: power_int_diff [symmetric] algebra_simps)
    finally show ?thesis .
  qed
  have "exponent x = (if 2 powi (k - l) \<le> \<bar>x\<bar> then k - l else k - l - 1)"
    by (simp add: exponent_def q Let_def k_def l_def)
  then show "2 powi exponent x \<le> \<bar>x\<bar>" "\<bar>x\<bar> < 2 powi (exponent x + 1)"
    using low high by (auto split: if_splits)
qed

section \<open>Rounding to a double\<close>

lemma fl_zero [simp]: "fl 0 = 0"
  by (simp add: fl_def)

lemma exponent_minus [simp]: "exponent (- x) = exponent x"
  by (simp add: exponent_def)

lemma fl_minus [simp]: "fl (- x) = - fl x"
  by (auto simp: fl_def Let_def)

lemma fl_pos: "0 < x \<Longrightarrow> fl x = of_int (round_even (x / 2 powi (exponent x - 52))) * 2 powi (exponent x - 52)"
  by (simp add: fl_def Let_def)

lemma fl_binade:
  assumes "0 < x"
  shows "2 powi exponent x \<le> fl x" "fl x \<le> 2 powi (exponent x + 1)"
proof -
  let ?u = "2 powi (exponent x - 52) :: rat"
  have e: "2 powi exponent x = of_int (2 ^ 52) * ?u" "2 powi (exponent x + 1) = of_int (2 ^ 53) * ?u"
    by (simp_all add: power_int_diff power_int_add)
  have "of_int (2 ^ 52) \<le> x / ?u" "x / ?u \<le> of_int (2 ^ 53)"
    using exponent_bounds [of x] assms unfolding e by (simp_all add: pos_le_divide_eq pos_divide_le_eq)
  then have "2 ^ 52 \<le> round_even (x / ?u)" "round_even (x / ?u) \<le> 2 ^ 53"
    using round_even_mono round_even_of_int by metis+
  then have "of_int (2 ^ 52) \<le> (of_int (round_even (x / ?u)) :: rat)" "(of_int (round_even (x / ?u)) :: rat) \<le> of_int (2 ^ 53)"
    by (simp_all only: of_int_le_iff)
  then show "2 powi exponent x \<le> fl x" "fl x \<le> 2 powi (exponent x + 1)"
    unfolding fl_pos [OF assms] e by (simp_all only: mult_right_mono zero_le_power_int zero_le_numeral)
qed

lemma fl_mono_pos:
  assumes "0 < x" "x \<le> y"
  shows "fl x \<le> fl y"
proof -
  have y: "0 < y" using assms by simp
  have "2 powi exponent x < (2 powi (exponent y + 1) :: rat)"
    using exponent_bounds [of x] exponent_bounds [of y] assms y by (simp add: order_le_less_trans)
  then have "exponent x \<le> exponent y"
    using power_int_increasing [of "exponent y + 1" "exponent x" "2 :: rat"]
    by (metis add1_zle_eq linorder_not_le one_le_numeral)
  then consider "exponent x = exponent y" | "exponent x + 1 \<le> exponent y" by linarith
  then show ?thesis
  proof cases
    case 1
    let ?u = "2 powi (exponent y - 52) :: rat"
    have "x / ?u \<le> y / ?u" using assms by (simp add: divide_right_mono)
    then have "(of_int (round_even (x / ?u)) :: rat) \<le> of_int (round_even (y / ?u))"
      by (simp add: round_even_mono)
    then show ?thesis
      unfolding fl_pos [OF assms(1)] fl_pos [OF y] 1 by (simp add: mult_right_mono)
  next
    case 2
    have "fl x \<le> 2 powi (exponent x + 1)" using assms by (simp add: fl_binade)
    also have "\<dots> \<le> 2 powi exponent y" using 2 by (intro power_int_increasing) auto
    also have "\<dots> \<le> fl y" using y by (rule fl_binade)
    finally show ?thesis .
  qed
qed

lemma fl_sign: "0 < x \<Longrightarrow> 0 < fl x"
  using fl_binade(1) [of x] by (meson less_le_trans zero_less_numeral zero_less_power_int)

lemma fl_nonneg: "0 \<le> x \<Longrightarrow> 0 \<le> fl x"
  using fl_sign [of x] by (cases "x = 0") auto

lemma fl_mono: "x \<le> y \<Longrightarrow> fl x \<le> fl y"
proof -
  assume le: "x \<le> y"
  consider "0 < x" | "x = 0" | "x < 0" "0 \<le> y" | "y < 0" using le by linarith
  then show ?thesis
  proof cases
    case 1
    with le show ?thesis by (simp add: fl_mono_pos)
  next
    case 2
    with le show ?thesis by (simp add: fl_nonneg)
  next
    case 3
    then have "0 < fl (- x)" by (intro fl_sign) simp
    moreover have "0 \<le> fl y" using 3 by (simp add: fl_nonneg)
    ultimately show ?thesis by simp
  next
    case 4
    with le have "fl (- y) \<le> fl (- x)" by (intro fl_mono_pos) auto
    then show ?thesis by simp
  qed
qed

lemma fl_one [simp]: "fl 1 = 1"
  by code_simp

section \<open>The interface\<close>

text \<open>What the match maker relies on of a rounded operation.\<close>

locale rounding =
  fixes rnd :: "rat \<Rightarrow> rat"
  assumes rnd_mono: "x \<le> y \<Longrightarrow> rnd x \<le> rnd y"
    and rnd_minus: "rnd (- x) = - rnd x"
    and rnd_one: "rnd 1 = 1"
begin

lemma rnd_zero: "rnd 0 = 0"
  using rnd_minus [of 0] by simp

lemma rnd_unit: "0 \<le> x \<Longrightarrow> x \<le> 1 \<Longrightarrow> 0 \<le> rnd x \<and> rnd x \<le> 1"
  using rnd_mono [of 0 x] rnd_mono [of x 1] by (simp add: rnd_zero rnd_one)

lemma rnd_diff_sym: "\<bar>rnd (x - y)\<bar> = \<bar>rnd (y - x)\<bar>"
  using rnd_minus [of "x - y"] by simp

lemma rnd_diff_le_one: "0 \<le> x \<Longrightarrow> x \<le> 1 \<Longrightarrow> 0 \<le> y \<Longrightarrow> y \<le> 1 \<Longrightarrow> \<bar>rnd (x - y)\<bar> \<le> 1"
  using rnd_mono [of "x - y" 1] rnd_mono [of "-1" "x - y"] rnd_minus [of 1] by (simp add: rnd_one abs_le_iff)

lemma rnd_ge_one: "1 \<le> x \<Longrightarrow> 1 \<le> rnd x"
  using rnd_mono [of 1 x] by (simp add: rnd_one)

end

interpretation double: rounding fl
  by unfold_locales (simp_all add: fl_mono)

end
