(* ===== verification/MatchMaker.thy ===== *)
theory MatchMaker
  imports Codes Double "HOL-Library.Multiset" "HOL-Library.Sublist"
begin

text \<open>
  The match maker of \<open>match/MyMatchMaker.cpp\<close>: players wait in a set ordered by win ratio; \<open>Process\<close>
  pairs players whose ratios are close enough, and the distance that is close enough grows with
  the time a player has waited.

  \<open>std::set\<close> is a list in the order of \<open>operator<\<close>. The counter \<open>wait_count\<close> is shared by the copies
  of an element, but only one copy is ever read (the one in the set, or the one taken out of
  \<open>match_queue\<close> and entered again), so it is a field of the element. \<open>ratio\<close> resets the counter of
  a player without games to 10; the resets that the comparisons of the set do are left out, as
  \<open>isMatchable\<close> does the same reset before it reads the counter (\<open>isMatchable_touch\<close> below). Counters
  are integers: a counter would wrap only after \<open>2 ^ 31\<close> calls of \<open>Process\<close>.
\<close>

section \<open>Elements\<close>

record queue_element =
  qe_id :: Account_ID_t
  qe_win :: int
  qe_draw :: int
  qe_loose :: int
  wait_count :: int

definition qe_empty :: queue_element where
  "qe_empty = \<lparr>qe_id = 0, qe_win = 0, qe_draw = 0, qe_loose = 0, wait_count = 1\<rparr>"

definition qe_new :: "Account_ID_t \<Rightarrow> int \<Rightarrow> int \<Rightarrow> int \<Rightarrow> queue_element" where
  "qe_new i w d l = \<lparr>qe_id = i, qe_win = w, qe_draw = d, qe_loose = l, wait_count = 1\<rparr>"

definition qe_eq :: "queue_element \<Rightarrow> queue_element \<Rightarrow> bool" where
  "qe_eq a b = (qe_id a = qe_id b)"

definition whoami :: "queue_element \<Rightarrow> Account_ID_t" where
  "whoami e = qe_id e"

definition ratio :: "queue_element \<Rightarrow> rat \<times> queue_element" where
  "ratio e =
     (let sum = qe_win e + qe_loose e + qe_draw e
      in if sum = 0 then (fl (of_int (qe_win e) / of_int 1), e\<lparr>wait_count := 10\<rparr>)
         else (fl (of_int (qe_win e) / of_int sum), e))"

definition qe_less :: "queue_element \<Rightarrow> queue_element \<Rightarrow> bool" where
  "qe_less a b =
     (if fst (ratio a) = fst (ratio b) then qe_id a < qe_id b
      else fst (ratio a) < fst (ratio b))"

definition isMatchable ::
  "rat \<Rightarrow> queue_element \<Rightarrow> queue_element \<Rightarrow> bool \<times> queue_element \<times> queue_element" where
  "isMatchable Interpolate lhs rhs =
     (let (r1, lhs) = ratio lhs;
          (r2, rhs) = ratio rhs;
          diff = \<bar>fl (r1 - r2)\<bar>;
          coverage = max (fl (of_int (wait_count lhs) * Interpolate)) (fl (of_int (wait_count rhs) * Interpolate))
      in (diff \<le> coverage, lhs, rhs))"

definition Wait :: "queue_element \<Rightarrow> queue_element" where
  "Wait e = e\<lparr>wait_count := wait_count e + 1\<rparr>"

section \<open>The match maker\<close>

record match_maker =
  mm_interpolate :: rat
  wait_queue :: "queue_element list"
  match_queue :: "(queue_element \<times> queue_element) list"

definition MyMatchMaker :: "rat \<Rightarrow> match_maker" where
  "MyMatchMaker interpolate_ratio =
     \<lparr>mm_interpolate = interpolate_ratio, wait_queue = [], match_queue = []\<rparr>"

fun set_insert :: "queue_element \<Rightarrow> queue_element list \<Rightarrow> queue_element list" where
  "set_insert e [] = [e]"
| "set_insert e (x # xs) =
     (if qe_less e x then e # x # xs
      else if qe_less x e then x # set_insert e xs
      else x # xs)"

definition Enter_elem :: "queue_element \<Rightarrow> match_maker \<Rightarrow> match_maker" where
  "Enter_elem elem mm = (if whoami elem \<le> 0 then mm else mm\<lparr>wait_queue := set_insert elem (wait_queue mm)\<rparr>)"

definition Enter :: "Account_ID_t \<Rightarrow> int \<Rightarrow> int \<Rightarrow> int \<Rightarrow> match_maker \<Rightarrow> match_maker" where
  "Enter i w d l mm = (if i \<le> 0 then mm else mm\<lparr>wait_queue := set_insert (qe_new i w d l) (wait_queue mm)\<rparr>)"

fun erase_id :: "Account_ID_t \<Rightarrow> queue_element list \<Rightarrow> queue_element list" where
  "erase_id i [] = []"
| "erase_id i (x # xs) = (if whoami x = i then xs else x # erase_id i xs)"

definition Exit :: "Account_ID_t \<Rightarrow> match_maker \<Rightarrow> match_maker" where
  "Exit i mm = mm\<lparr>wait_queue := erase_id i (wait_queue mm)\<rparr>"

text \<open>The inner loop: the first later element that matches is taken out of the set.\<close>

fun find_match ::
  "rat \<Rightarrow> queue_element \<Rightarrow> queue_element list \<Rightarrow> queue_element option \<times> queue_element \<times> queue_element list" where
  "find_match I i [] = (None, i, [])"
| "find_match I i (j # js) =
     (let (b, i, j) = isMatchable I i j
      in if b then (Some j, i, js)
         else (let (m, i, js) = find_match I i js in (m, i, j # js)))"

lemma find_match_length: "length (snd (snd (find_match I i js))) \<le> length js"
  by (induction js arbitrary: i) (auto simp: Let_def case_prod_beta)

lemma find_match_shorter: "(m, i', js') = find_match I i js \<Longrightarrow> length js' < Suc (length js)"
  using find_match_length [of I i js] by (metis less_Suc_eq_le snd_conv)

text \<open>The outer loop: what stays in the set, and the pairs pushed on \<open>match_queue\<close>.\<close>

function process_loop ::
  "rat \<Rightarrow> queue_element list \<Rightarrow> queue_element list \<times> (queue_element \<times> queue_element) list" where
  "process_loop I [] = ([], [])"
| "process_loop I (i # rest) =
     (case find_match I i rest of
        (Some j, i', rest') \<Rightarrow> (let (kept, ms) = process_loop I rest' in (kept, (i', j) # ms))
      | (None, i', rest') \<Rightarrow> (let (kept, ms) = process_loop I rest' in (i' # kept, ms)))"
  by pat_completeness auto
termination
  by (relation "measure (\<lambda>(I, xs). length xs)") (auto dest: find_match_shorter)

definition Process :: "match_maker \<Rightarrow> match_maker" where
  "Process mm =
     (let (kept, ms) = process_loop (mm_interpolate mm) (wait_queue mm)
      in mm\<lparr>wait_queue := map Wait kept, match_queue := match_queue mm @ ms\<rparr>)"

definition isThereMatch :: "match_maker \<Rightarrow> bool" where
  "isThereMatch mm = (match_queue mm \<noteq> [])"

definition GetMatch :: "match_maker \<Rightarrow> queue_element \<times> queue_element" where
  "GetMatch mm = (case match_queue mm of [] \<Rightarrow> (qe_empty, qe_empty) | m # _ \<Rightarrow> m)"

definition PopMatch :: "match_maker \<Rightarrow> match_maker" where
  "PopMatch mm = (case match_queue mm of [] \<Rightarrow> mm | _ # ms \<Rightarrow> mm\<lparr>match_queue := ms\<rparr>)"

definition mm_Size :: "match_maker \<Rightarrow> nat" where
  "mm_Size mm = length (wait_queue mm)"

section \<open>The counter of a player without games\<close>

definition games :: "queue_element \<Rightarrow> int" where
  "games e = qe_win e + qe_loose e + qe_draw e"

definition touch :: "queue_element \<Rightarrow> queue_element" where
  "touch e = (if games e = 0 then e\<lparr>wait_count := 10\<rparr> else e)"

definition player :: "queue_element \<Rightarrow> Account_ID_t \<times> int \<times> int \<times> int" where
  "player e = (qe_id e, qe_win e, qe_draw e, qe_loose e)"

lemma touch_touch [simp]: "touch (touch e) = touch e"
  by (simp add: touch_def games_def)

lemma player_touch [simp]: "player (touch e) = player e"
  by (simp add: touch_def player_def)

lemma player_Wait [simp]: "player (Wait e) = player e"
  by (simp add: Wait_def player_def)

lemma snd_ratio [simp]: "snd (ratio e) = touch e"
  by (simp add: ratio_def touch_def games_def Let_def)

lemma ratio_player: "player a = player b \<Longrightarrow> fst (ratio a) = fst (ratio b)"
  by (simp add: ratio_def player_def Let_def)

lemma ratio_touch [simp]: "fst (ratio (touch e)) = fst (ratio e)"
  by (rule ratio_player) simp

lemma ratio_Wait [simp]: "fst (ratio (Wait e)) = fst (ratio e)"
  by (rule ratio_player) simp

definition matchable :: "rat \<Rightarrow> queue_element \<Rightarrow> queue_element \<Rightarrow> bool" where
  "matchable I a b \<longleftrightarrow> \<bar>fl (fst (ratio a) - fst (ratio b))\<bar>
     \<le> max (fl (of_int (wait_count (touch a)) * I)) (fl (of_int (wait_count (touch b)) * I))"

lemma isMatchable_eq: "isMatchable I a b = (matchable I a b, touch a, touch b)"
  by (simp add: isMatchable_def matchable_def case_prod_beta Let_def)

lemma isMatchable_touch [simp]:
  "matchable I (touch a) b = matchable I a b" "matchable I a (touch b) = matchable I a b"
  by (simp_all add: matchable_def)

lemma matchable_sym: "matchable I a b = matchable I b a"
  using double.rnd_diff_sym [of "fst (ratio a)" "fst (ratio b)"] by (simp add: matchable_def max.commute)

section \<open>The order of the set\<close>

lemma qe_less_player:
  "player a = player a' \<Longrightarrow> player b = player b' \<Longrightarrow> qe_less a b = qe_less a' b'"
  using ratio_player [of a a'] ratio_player [of b b'] by (simp add: qe_less_def player_def)

lemma qe_less_trans: "qe_less a b \<Longrightarrow> qe_less b c \<Longrightarrow> qe_less a c"
  by (auto simp: qe_less_def split: if_splits)

lemma qe_less_irrefl [simp]: "\<not> qe_less a a"
  by (simp add: qe_less_def)

lemma qe_less_total: "\<not> qe_less a b \<Longrightarrow> \<not> qe_less b a \<Longrightarrow> fst (ratio a) = fst (ratio b) \<and> qe_id a = qe_id b"
  by (auto simp: qe_less_def split: if_splits)

lemma set_set_insert: "set (set_insert e xs) \<subseteq> insert e (set xs)" "set xs \<subseteq> set (set_insert e xs)"
  by (induction e xs rule: set_insert.induct) auto

lemma sorted_set_insert:
  "sorted_wrt qe_less xs \<Longrightarrow> sorted_wrt qe_less (set_insert e xs)"
proof (induction e xs rule: set_insert.induct)
  case (2 e x xs)
  then show ?case
    using set_set_insert(1) [of e xs] qe_less_trans [of e x] by auto
qed simp

section \<open>One pass\<close>

lemma find_match_Some:
  "find_match I i js = (Some j, i', js') \<Longrightarrow>
   i' = touch i \<and> matchable I i j \<and> j = touch j \<and>
   add_mset (player j) (image_mset player (mset js')) = image_mset player (mset js)"
proof (induction js arbitrary: i i' js')
  case (Cons k js)
  show ?case
  proof (cases "matchable I i k")
    case True
    with Cons.prems show ?thesis by (auto simp: isMatchable_eq)
  next
    case False
    obtain m i1 js1 where f: "find_match I (touch i) js = (m, i1, js1)"
      by (metis prod_cases3)
    with False Cons.prems have "m = Some j" "i1 = i'" "js' = touch k # js1"
      by (simp_all add: isMatchable_eq)
    with f False Cons.IH [of "touch i"] show ?thesis
      by auto
  qed
qed simp

lemma find_match_None:
  "find_match I i js = (None, i', js') \<Longrightarrow>
   (js = [] \<and> i' = i \<or> i' = touch i) \<and> js' = map touch js \<and> (\<forall>j\<in>set js. \<not> matchable I i j)"
proof (induction js arbitrary: i i' js')
  case (Cons k js)
  show ?case
  proof (cases "matchable I i k")
    case True
    with Cons.prems show ?thesis by (auto simp: isMatchable_eq)
  next
    case False
    obtain m i1 js1 where f: "find_match I (touch i) js = (m, i1, js1)"
      by (metis prod_cases3)
    with False Cons.prems have "m = None" "i1 = i'" "js' = touch k # js1"
      by (simp_all add: isMatchable_eq)
    with f False Cons.IH [of "touch i"] show ?thesis
      by auto
  qed
qed simp

lemma process_loop_conserves:
  "process_loop I xs = (kept, ms) \<Longrightarrow>
   image_mset player (mset kept) + (\<Sum>(a, b)\<in>#mset ms. {#player a, player b#}) = image_mset player (mset xs)"
proof (induction I xs arbitrary: kept ms rule: process_loop.induct)
  case (2 I i rest)
  obtain m i' rest' where f: "find_match I i rest = (m, i', rest')"
    by (metis prod_cases3)
  obtain k s where p: "process_loop I rest' = (k, s)" by fastforce
  show ?case
  proof (cases m)
    case None
    with f p "2.prems" have "kept = i' # k" "ms = s" by auto
    moreover have "image_mset player (mset rest') = image_mset player (mset rest)" "player i' = player i"
      using find_match_None [of I i rest i' rest'] f None by (auto simp: comp_def multiset.map_comp)
    ultimately show ?thesis
      using "2.IH"(1) [OF f [symmetric] None refl p] by simp
  next
    case (Some j)
    with f p "2.prems" have "kept = k" "ms = (i', j) # s" by auto
    moreover have "add_mset (player j) (image_mset player (mset rest')) = image_mset player (mset rest)" "player i' = player i"
      using find_match_Some [of I i rest j i' rest'] f Some by auto
    ultimately show ?thesis
      using "2.IH"(2) [OF f [symmetric] Some refl p] by (simp add: algebra_simps)
  qed
qed simp

lemma find_match_Some_subseq:
  "find_match I i js = (Some j, i', js') \<Longrightarrow> subseq (map touch js') (map touch js)"
proof (induction js arbitrary: i i' js')
  case (Cons k js)
  show ?case
  proof (cases "matchable I i k")
    case True
    with Cons.prems show ?thesis by (auto simp: isMatchable_eq)
  next
    case False
    obtain m i1 js1 where f: "find_match I (touch i) js = (m, i1, js1)"
      by (metis prod_cases3)
    with False Cons.prems have "m = Some j" "js' = touch k # js1"
      by (simp_all add: isMatchable_eq)
    with f Cons.IH show ?thesis by simp
  qed
qed simp

lemma subseq_set: "subseq xs ys \<Longrightarrow> set xs \<subseteq> set ys"
  by (induction rule: list_emb.induct) auto

text \<open>Who stays in the set stays in its order, and no two of those who stay are matchable.\<close>

lemma process_loop_kept:
  "process_loop I xs = (kept, ms) \<Longrightarrow>
   subseq (map touch kept) (map touch xs) \<and> sorted_wrt (\<lambda>a b. \<not> matchable I a b) kept"
proof (induction I xs arbitrary: kept ms rule: process_loop.induct)
  case (2 I i rest)
  obtain m i' rest' where f: "find_match I i rest = (m, i', rest')"
    by (metis prod_cases3)
  obtain k s where p: "process_loop I rest' = (k, s)" by fastforce
  show ?case
  proof (cases m)
    case None
    with f p "2.prems" have kept: "kept = i' # k" by auto
    have IH: "subseq (map touch k) (map touch rest')" "sorted_wrt (\<lambda>a b. \<not> matchable I a b) k"
      using "2.IH"(1) [OF f [symmetric] None refl p] by auto
    have r: "touch i' = touch i" "map touch rest' = map touch rest" "\<forall>j\<in>set rest. \<not> matchable I i j"
      using find_match_None [of I i rest i' rest'] f None by (auto simp: comp_def)
    have "\<not> matchable I i' a" if "a \<in> set k" for a
    proof -
      have "touch a \<in> set (map touch rest)"
        using that subseq_set [OF IH(1)] unfolding r(2) by auto
      then obtain b where "b \<in> set rest" "touch b = touch a" by auto
      with r(1,3) show ?thesis by (metis isMatchable_touch)
    qed
    with IH r kept show ?thesis by simp
  next
    case (Some j)
    with f p "2.prems" have "kept = k" by auto
    with "2.IH"(2) [OF f [symmetric] Some refl p] find_match_Some_subseq [of I i rest j i' rest'] f Some
    show ?thesis by (auto intro: subseq_order.order_trans list_emb_Cons)
  qed
qed simp

lemma process_loop_matched:
  "process_loop I xs = (kept, ms) \<Longrightarrow> (a, b) \<in> set ms \<Longrightarrow> matchable I a b"
proof (induction I xs arbitrary: kept ms rule: process_loop.induct)
  case (2 I i rest)
  obtain m i' rest' where f: "find_match I i rest = (m, i', rest')"
    by (metis prod_cases3)
  obtain k s where p: "process_loop I rest' = (k, s)" by fastforce
  show ?case
  proof (cases m)
    case None
    with f p "2.prems" "2.IH"(1) [OF f [symmetric] None refl p] show ?thesis by auto
  next
    case (Some j)
    with f p "2.prems" "2.IH"(2) [OF f [symmetric] Some refl p] find_match_Some [of I i rest j i' rest']
    show ?thesis by auto
  qed
qed simp

section \<open>Invariant\<close>

definition wf_qe :: "queue_element \<Rightarrow> bool" where
  "wf_qe e \<longleftrightarrow> qe_id e \<noteq> 0 \<and> 0 \<le> qe_win e \<and> 0 \<le> qe_draw e \<and> 0 \<le> qe_loose e \<and> 1 \<le> wait_count e"

definition wf_mm :: "match_maker \<Rightarrow> bool" where
  "wf_mm mm \<longleftrightarrow> sorted_wrt qe_less (wait_queue mm) \<and> (\<forall>e\<in>set (wait_queue mm). wf_qe e)
     \<and> (\<forall>(a, b)\<in>set (match_queue mm). wf_qe a \<and> wf_qe b)"

lemma wf_qe_touch [simp]: "wf_qe e \<Longrightarrow> wf_qe (touch e)" and wf_qe_Wait [simp]: "wf_qe e \<Longrightarrow> wf_qe (Wait e)"
  by (simp_all add: wf_qe_def touch_def Wait_def)

lemma sorted_wrt_subseq: "subseq xs ys \<Longrightarrow> sorted_wrt P ys \<Longrightarrow> sorted_wrt P xs"
proof (induction rule: list_emb.induct)
  case (list_emb_Cons2 x y xs ys)
  then show ?case using subseq_set [of xs ys] by auto
qed auto

lemma sorted_qe_cong:
  assumes "map player xs = map player ys"
  shows "sorted_wrt qe_less xs = sorted_wrt qe_less ys"
proof -
  have l: "length xs = length ys" using assms by (metis length_map)
  moreover have p: "player (xs ! i) = player (ys ! i)" if "i < length ys" for i
    using that assms l by (metis nth_map)
  moreover have "qe_less (xs ! i) (xs ! j) = qe_less (ys ! i) (ys ! j)" if "i < j" "j < length ys" for i j
    using that p [of i] p [of j] by (intro qe_less_player) auto
  ultimately show ?thesis
    by (auto simp: sorted_wrt_iff_nth_less)
qed

lemma sorted_process_loop:
  assumes "process_loop I xs = (kept, ms)" "sorted_wrt qe_less xs"
  shows "sorted_wrt qe_less (map Wait kept)"
proof -
  have "sorted_wrt qe_less (map touch xs)"
    using assms(2) sorted_qe_cong [of "map touch xs" xs] by (simp add: comp_def)
  then have "sorted_wrt qe_less (map touch kept)"
    using process_loop_kept [OF assms(1)] sorted_wrt_subseq by blast
  then show ?thesis
    using sorted_qe_cong [of "map touch kept" "map Wait kept"] by (simp add: comp_def)
qed

lemma find_match_wf:
  "find_match I i js = (m, i', js') \<Longrightarrow> wf_qe i \<Longrightarrow> \<forall>e\<in>set js. wf_qe e \<Longrightarrow>
   wf_qe i' \<and> (\<forall>e\<in>set js'. wf_qe e) \<and> (\<forall>j. m = Some j \<longrightarrow> wf_qe j)"
proof (induction js arbitrary: i i' js')
  case (Cons k js)
  show ?case
  proof (cases "matchable I i k")
    case True
    with Cons.prems have "m = Some (touch k)" "i' = touch i" "js' = js"
      by (simp_all add: isMatchable_eq)
    with Cons.prems show ?thesis by simp
  next
    case False
    obtain m1 i1 js1 where f: "find_match I (touch i) js = (m1, i1, js1)"
      by (metis prod_cases3)
    with False Cons.prems have "m1 = m" "i1 = i'" "js' = touch k # js1"
      by (simp_all add: isMatchable_eq)
    with f Cons.IH [of "touch i" i1 js1] Cons.prems show ?thesis by simp
  qed
qed simp

lemma process_loop_wf:
  "process_loop I xs = (kept, ms) \<Longrightarrow> \<forall>e\<in>set xs. wf_qe e \<Longrightarrow>
   (\<forall>e\<in>set kept. wf_qe e) \<and> (\<forall>(a, b)\<in>set ms. wf_qe a \<and> wf_qe b)"
proof (induction I xs arbitrary: kept ms rule: process_loop.induct)
  case (2 I i rest)
  obtain m i' rest' where f: "find_match I i rest = (m, i', rest')"
    by (metis prod_cases3)
  obtain k s where p: "process_loop I rest' = (k, s)" by fastforce
  note w = find_match_wf [OF f]
  show ?case
  proof (cases m)
    case None
    with f p w "2.prems" "2.IH"(1) [OF f [symmetric] None refl p] show ?thesis by auto
  next
    case (Some j)
    with f p w "2.prems" "2.IH"(2) [OF f [symmetric] Some refl p] show ?thesis by auto
  qed
qed simp

lemma wf_Process [wf_intros]: "wf_mm mm \<Longrightarrow> wf_mm (Process mm)"
  using sorted_process_loop [of "mm_interpolate mm" "wait_queue mm"] process_loop_wf [of "mm_interpolate mm" "wait_queue mm"]
  by (cases "process_loop (mm_interpolate mm) (wait_queue mm)") (auto simp: wf_mm_def Process_def)

lemma wf_Enter_elem [wf_intros]:
  assumes "wf_mm mm" "wf_qe e"
  shows "wf_mm (Enter_elem e mm)"
  using assms set_set_insert(1) [of e "wait_queue mm"] sorted_set_insert [of "wait_queue mm" e]
  by (auto simp: wf_mm_def Enter_elem_def)

lemma Enter_as_elem: "Enter i w d l mm = Enter_elem (qe_new i w d l) mm"
  by (simp add: Enter_def Enter_elem_def whoami_def qe_new_def)

lemma wf_Enter [wf_intros]:
  "wf_mm mm \<Longrightarrow> 0 \<le> w \<Longrightarrow> 0 \<le> d \<Longrightarrow> 0 \<le> l \<Longrightarrow> wf_mm (Enter i w d l mm)"
  using wf_Enter_elem [of mm "qe_new i w d l"]
  by (cases "i = 0") (simp_all add: Enter_as_elem wf_qe_def, simp_all add: Enter_elem_def whoami_def qe_new_def)

lemma subseq_erase_id: "subseq (erase_id i xs) xs"
  by (induction i xs rule: erase_id.induct) auto

lemma wf_Exit [wf_intros]: "wf_mm mm \<Longrightarrow> wf_mm (Exit i mm)"
  using sorted_wrt_subseq [OF subseq_erase_id] subseq_set [OF subseq_erase_id [of i "wait_queue mm"]]
  by (auto simp: wf_mm_def Exit_def)

lemma wf_PopMatch [wf_intros]: "wf_mm mm \<Longrightarrow> wf_mm (PopMatch mm)"
  by (auto simp: wf_mm_def PopMatch_def split: list.splits)

lemma wf_MyMatchMaker [wf_intros]: "wf_mm (MyMatchMaker I)"
  by (simp add: wf_mm_def MyMatchMaker_def)

lemma distinct_ids:
  assumes "sorted_wrt qe_less xs" "\<forall>e\<in>set xs. player e = (qe_id e, st (qe_id e))"
  shows "distinct (map qe_id xs)"
proof -
  have "qe_id a \<noteq> qe_id b" if "qe_less a b" "a \<in> set xs" "b \<in> set xs" for a b
  proof
    assume "qe_id a = qe_id b"
    then have "player a = player b" using assms(2) that by auto
    then show False using that(1) qe_less_player [of a b b b] by simp
  qed
  then show ?thesis
    using assms(1) by (induction xs) fastforce+
qed

section \<open>Waiting\<close>

definition waited :: "int \<Rightarrow> queue_element \<Rightarrow> bool" where
  "waited n e \<longleftrightarrow> games e = 0 \<or> n \<le> wait_count e"

lemma waited_touch [simp]: "waited n (touch e) = waited n e"
  by (simp add: waited_def touch_def games_def)

lemma waited_Wait: "waited n e \<Longrightarrow> waited (n + 1) (Wait e)"
  by (auto simp: waited_def Wait_def games_def)

lemma waited_Process:
  assumes "\<forall>e\<in>set (wait_queue mm). waited n e"
  shows "\<forall>e\<in>set (wait_queue (Process mm)). waited (n + 1) e"
proof -
  obtain kept ms where p: "process_loop (mm_interpolate mm) (wait_queue mm) = (kept, ms)" by fastforce
  have "touch ` set kept \<subseteq> touch ` set (wait_queue mm)"
    using subseq_set [of "map touch kept" "map touch (wait_queue mm)"] process_loop_kept [OF p] by simp
  then have "\<forall>e\<in>set kept. waited n e"
    using assms by (metis image_iff subset_iff waited_touch)
  then show ?thesis
    by (simp add: Process_def p waited_Wait)
qed

lemma ratio_unit: "wf_qe e \<Longrightarrow> 0 \<le> fst (ratio e) \<and> fst (ratio e) \<le> 1"
  unfolding ratio_def Let_def by (auto simp: wf_qe_def intro!: double.rnd_unit [THEN conjunct1] double.rnd_unit [THEN conjunct2])

lemma matchable_waited:
  assumes "wf_qe a" "wf_qe b" "waited n a" "waited n b" "0 < I" "1 \<le> of_int n * I"
  shows "matchable I a b"
proof (cases "games a = 0 \<and> games b = 0")
  case True
  then have "qe_win a = 0" "qe_win b = 0"
    using assms by (auto simp: wf_qe_def games_def)
  then have "fst (ratio a) = fst (ratio b)"
    by (simp add: ratio_def Let_def)
  moreover have "0 \<le> fl (of_int (wait_count (touch a)) * I)"
    using assms wf_qe_touch [OF assms(1)] by (intro fl_nonneg) (simp add: wf_qe_def)
  ultimately show ?thesis by (simp add: matchable_def)
next
  case False
  have big: "1 \<le> fl (of_int (wait_count e) * I)" if "n \<le> wait_count e" for e
  proof -
    have "of_int n * I \<le> of_int (wait_count e) * I"
      using that assms(5) by (simp add: mult_right_mono)
    with assms(6) show ?thesis by (intro double.rnd_ge_one) simp
  qed
  have "1 \<le> max (fl (of_int (wait_count (touch a)) * I)) (fl (of_int (wait_count (touch b)) * I))"
    using False assms(3,4) big [of a] big [of b] by (auto simp: waited_def touch_def)
  moreover have "\<bar>fl (fst (ratio a) - fst (ratio b))\<bar> \<le> 1"
    using ratio_unit [OF assms(1)] ratio_unit [OF assms(2)] by (intro double.rnd_diff_le_one) auto
  ultimately show ?thesis by (simp add: matchable_def)
qed

lemma Process_all_waited:
  assumes "wf_mm mm" "0 < mm_interpolate mm" "1 \<le> of_int n * mm_interpolate mm"
    "\<forall>e\<in>set (wait_queue mm). waited n e"
  shows "length (wait_queue (Process mm)) \<le> 1"
proof -
  obtain kept ms where p: "process_loop (mm_interpolate mm) (wait_queue mm) = (kept, ms)" by fastforce
  have w: "wf_qe e \<and> waited n e" if "e \<in> set kept" for e
  proof -
    have "touch e \<in> touch ` set (wait_queue mm)"
      using that subseq_set [of "map touch kept" "map touch (wait_queue mm)"] process_loop_kept [OF p] by auto
    moreover have "\<forall>e\<in>set kept. wf_qe e"
      using process_loop_wf [OF p] assms(1) by (simp add: wf_mm_def)
    ultimately show ?thesis using that assms(4) by (metis imageE waited_touch)
  qed
  have "kept = [] \<or> (\<exists>a. kept = [a])"
  proof (rule ccontr)
    assume "\<not> ?thesis"
    then obtain a b r where k: "kept = a # b # r" by (metis list.exhaust)
    then have "\<not> matchable (mm_interpolate mm) a b"
      using process_loop_kept [OF p] by simp
    with w [of a] w [of b] k assms matchable_waited show False by auto
  qed
  then show ?thesis by (auto simp: Process_def p)
qed

lemma mm_interpolate_Process [simp]: "mm_interpolate (Process mm) = mm_interpolate mm"
  by (simp add: Process_def case_prod_beta)

section \<open>The interface of the match server\<close>

text \<open>
  What the match server relies on: a pass moves players from waiting to matched and loses none,
  \<open>PopMatch\<close> drops the pair that \<open>GetMatch\<close> gave.
\<close>

locale matcher =
  fixes waiting :: "'s \<Rightarrow> 'p multiset"
    and matched :: "'s \<Rightarrow> ('p \<times> 'p) list"
    and pass :: "'s \<Rightarrow> 's"
    and get :: "'s \<Rightarrow> ('p \<times> 'p) option"
    and pop :: "'s \<Rightarrow> 's"
  assumes pass_moves: "\<exists>new. matched (pass s) = matched s @ new \<and>
      waiting (pass s) + (\<Sum>(a, b)\<in>#mset new. {#a, b#}) = waiting s"
    and get_front: "get s = (case matched s of [] \<Rightarrow> None | m # _ \<Rightarrow> Some m)"
    and pop_front: "matched (pop s) = tl (matched s)"
    and pop_waiting: "waiting (pop s) = waiting s"
begin

definition everyone :: "'s \<Rightarrow> 'p multiset" where
  "everyone s = waiting s + (\<Sum>(a, b)\<in>#mset (matched s). {#a, b#})"

lemma pass_everyone: "everyone (pass s) = everyone s"
proof -
  obtain new where n: "matched (pass s) = matched s @ new"
    and w: "waiting (pass s) + (\<Sum>(a, b)\<in>#mset new. {#a, b#}) = waiting s"
    using pass_moves by blast
  have "everyone (pass s) = (waiting (pass s) + (\<Sum>(a, b)\<in>#mset new. {#a, b#}))
      + (\<Sum>(a, b)\<in>#mset (matched s). {#a, b#})"
    by (simp add: everyone_def n)
  then show ?thesis unfolding w by (simp add: everyone_def)
qed

lemma pop_everyone: "get s = Some (a, b) \<Longrightarrow> everyone s = everyone (pop s) + {#a, b#}"
  by (cases "matched s") (auto simp: everyone_def get_front pop_front pop_waiting)

end

lemma Process_moves:
  "\<exists>new. match_queue (Process mm) = match_queue mm @ new \<and>
     image_mset player (mset (wait_queue (Process mm))) + (\<Sum>(a, b)\<in>#mset new. {#player a, player b#})
       = image_mset player (mset (wait_queue mm))"
  using process_loop_conserves [of "mm_interpolate mm" "wait_queue mm"]
  by (cases "process_loop (mm_interpolate mm) (wait_queue mm)")
    (simp add: Process_def image_mset.compositionality comp_def)

lemma sum_pairs_map:
  "(\<Sum>(a, b)\<in>#mset (map (map_prod f f) new). {#a, b#}) = (\<Sum>(a, b)\<in>#mset new. {#f a, f b#})"
  by (induction new) auto

interpretation maker: matcher "\<lambda>mm. image_mset player (mset (wait_queue mm))"
  "\<lambda>mm. map (map_prod player player) (match_queue mm)" Process
  "\<lambda>mm. if isThereMatch mm then Some (map_prod player player (GetMatch mm)) else None" PopMatch
proof unfold_locales
  fix mm
  obtain new where "match_queue (Process mm) = match_queue mm @ new"
    "image_mset player (mset (wait_queue (Process mm))) + (\<Sum>(a, b)\<in>#mset new. {#player a, player b#})
       = image_mset player (mset (wait_queue mm))"
    using Process_moves by blast
  then show "\<exists>new. map (map_prod player player) (match_queue (Process mm)) = map (map_prod player player) (match_queue mm) @ new \<and>
      image_mset player (mset (wait_queue (Process mm))) + (\<Sum>(a, b)\<in>#mset new. {#a, b#}) = image_mset player (mset (wait_queue mm))"
    by (intro exI [of _ "map (map_prod player player) new"]) (simp only: map_append sum_pairs_map simp_thms)
qed (auto simp: isThereMatch_def GetMatch_def PopMatch_def split: list.splits)

section \<open>Properties\<close>

text \<open>
  C4. One pass of \<open>Process\<close> loses and invents nobody: the players that were waiting are those who
  still wait and those of the new pairs, which are appended to the match queue; together with the
  pairs not yet taken the number of times each player occurs is unchanged, and the set keeps its
  order.
\<close>

theorem Process_conserves:
  assumes "wf_mm mm"
  shows "wf_mm (Process mm) \<and> (\<exists>new. match_queue (Process mm) = match_queue mm @ new \<and>
     image_mset player (mset (wait_queue (Process mm))) + (\<Sum>(a, b)\<in>#mset new. {#player a, player b#})
       = image_mset player (mset (wait_queue mm)))
     \<and> maker.everyone (Process mm) = maker.everyone mm"
  using wf_Process [OF assms] Process_moves [of mm] maker.pass_everyone by blast

theorem Process_conserves_witness:
  "maker.everyone (Process (Enter 7 1 0 0 (MyMatchMaker (1 / 10)))) = maker.everyone (Enter 7 1 0 0 (MyMatchMaker (1 / 10)))"
  using Process_conserves [OF wf_Enter [OF wf_MyMatchMaker]] by simp

text \<open>
  The greedy pass is sound and leaves nothing out: every pair it makes is within the coverage
  that the two players have reached, and no two of the players it leaves waiting were.
\<close>

theorem Process_greedy:
  assumes "process_loop I xs = (kept, ms)"
  shows "(\<forall>(a, b)\<in>set ms. fst (isMatchable I a b)) \<and> sorted_wrt (\<lambda>a b. \<not> fst (isMatchable I a b)) kept"
  using process_loop_matched [OF assms] process_loop_kept [OF assms] by (auto simp: isMatchable_eq)

theorem Process_greedy_witness:
  "fst (isMatchable 1 (qe_new 1 0 0 1) (qe_new 2 1 0 0)) \<and> sorted_wrt (\<lambda>a b. \<not> fst (isMatchable 1 a b)) []"
proof -
  have "process_loop 1 [qe_new 1 0 0 1, qe_new 2 1 0 0] = ([], [(qe_new 1 0 0 1, qe_new 2 1 0 0)])"
    by code_simp
  from Process_greedy [OF this] show ?thesis by simp
qed



text \<open>
  If every element carries the current record \<open>st\<close> of its account, an account is waiting at
  most once, so a new pair has two different accounts, and \<open>Exit\<close> takes the account out.
\<close>

theorem accounts_distinct:
  assumes "wf_mm mm" "\<forall>e\<in>set (wait_queue mm). player e = (qe_id e, st (qe_id e))"
  shows "distinct (map qe_id (wait_queue mm)) \<and> i \<notin> set (map qe_id (wait_queue (Exit i mm)))
    \<and> (\<forall>a b new. match_queue (Process mm) = match_queue mm @ new \<and> (a, b) \<in> set new \<longrightarrow> qe_id a \<noteq> qe_id b)"
proof (intro conjI allI impI)
  show d: "distinct (map qe_id (wait_queue mm))"
    using assms distinct_ids by (auto simp: wf_mm_def)
  have "distinct (map qe_id xs) \<Longrightarrow> i \<notin> set (map qe_id (erase_id i xs))" for xs
    by (induction xs) (auto simp: whoami_def)
  with d show "i \<notin> set (map qe_id (wait_queue (Exit i mm)))" by (simp add: Exit_def)
  fix a b new
  assume new: "match_queue (Process mm) = match_queue mm @ new \<and> (a, b) \<in> set new"
  then obtain new' where "mset new = add_mset (a, b) new'"
    by (meson mset_add set_mset_mset in_multiset_in_set)
  moreover have "image_mset player (mset (wait_queue (Process mm))) + (\<Sum>(a, b)\<in>#mset new. {#player a, player b#})
       = image_mset player (mset (wait_queue mm))"
    using Process_moves [of mm] new by auto
  ultimately have "image_mset player (mset (wait_queue mm)) = {#player a, player b#} +
      (image_mset player (mset (wait_queue (Process mm))) + (\<Sum>(a, b)\<in>#new'. {#player a, player b#}))"
    by simp
  then have "{#player a, player b#} \<subseteq># image_mset player (mset (wait_queue mm))"
    by (metis mset_subset_eq_add_left)
  then have "image_mset fst {#player a, player b#} \<subseteq># image_mset fst (image_mset player (mset (wait_queue mm)))"
    by (rule image_mset_subseteq_mono)
  then have "{#qe_id a, qe_id b#} \<subseteq># mset (map qe_id (wait_queue mm))"
    by (simp add: player_def image_mset.compositionality comp_def)
  moreover have "count (mset (map qe_id (wait_queue mm))) (qe_id a) \<le> 1"
    using d by (simp only: distinct_count_atmost_1) simp
  ultimately show "qe_id a \<noteq> qe_id b"
    using mset_subset_eq_count [of "{#qe_id a, qe_id b#}" "mset (map qe_id (wait_queue mm))" "qe_id a"] by auto
qed

theorem accounts_distinct_witness: "distinct (map qe_id (wait_queue (Enter 7 1 0 0 (MyMatchMaker 1))))"
proof -
  have "wf_mm (Enter 7 1 0 0 (MyMatchMaker 1))" by (intro wf_Enter wf_MyMatchMaker) simp_all
  moreover have "\<forall>e\<in>set (wait_queue (Enter 7 1 0 0 (MyMatchMaker 1))). player e = (qe_id e, (1, 0, 0))"
    by (simp add: Enter_def MyMatchMaker_def player_def qe_new_def)
  ultimately show ?thesis using accounts_distinct [of _ "\<lambda>_. (1, 0, 0)"] by blast
qed

text \<open>
  Without that the set does not keep accounts apart: its order looks at the ratio before the
  account, so an account entered again with other figures is in the set twice, and one pass pairs
  the account with itself.
\<close>

theorem self_match:
  "map (map_prod whoami whoami) (match_queue (Process (Enter 7 1 0 0 (Enter 7 0 0 1 (MyMatchMaker 1))))) = [(7, 7)]"
  by code_simp

end
