(* ===== verification/Security.thy ===== *)
theory Security
  imports Codes
begin

text \<open>
  The code around OpenSSL in \<open>security/\<close>: \<open>Encryptor\<close> (a cipher context that is fed whole messages), the
  cut of a derived secret into key and initial vector, and the error handling of \<open>KeyExchanger\<close>. The
  OpenSSL calls are parameters.
\<close>

abbreviation (input) KEY_SIZE :: nat where "KEY_SIZE \<equiv> 32"
abbreviation (input) IV_SIZE :: nat where "IV_SIZE \<equiv> 16"

section \<open>Encryptor\<close>

text \<open>
  \<open>update\<close> and \<open>final\<close> stand for \<open>EVP_CipherUpdate\<close> and \<open>EVP_CipherFinal_ex\<close> on the context: the bytes
  they write and the new context, or \<open>None\<close> when they fail. \<open>Crypt\<close> lets them write into a buffer of
  \<open>maxlength\<close> bytes; writing more is undefined.
\<close>

record 'c openssl_cipher =
  evp_update :: "'c \<Rightarrow> byte list \<Rightarrow> (byte list \<times> 'c) option"
  evp_final :: "'c \<Rightarrow> (byte list \<times> 'c) option"

definition crypt_maxlength :: "nat \<Rightarrow> nat" where
  "crypt_maxlength n = (n div IV_SIZE + 1) * IV_SIZE"

definition Crypt :: "'c openssl_cipher \<Rightarrow> 'c \<Rightarrow> byte list \<Rightarrow> (byte list \<times> 'c) result" where
  "Crypt ssl ctx data =
     (let maxlength = crypt_maxlength (length data)
      in case evp_update ssl ctx data of
           None \<Rightarrow> Inl (StackTraceExcept ''EVP_CipherUpdate'')
         | Some (out, ctx) \<Rightarrow>
             (case evp_final ssl ctx of
                None \<Rightarrow> Inl (StackTraceExcept ''EVP_CipherFinal_ex'')
              | Some (pad, ctx) \<Rightarrow>
                  if length out + length pad > maxlength then Inl (Undefined ''write past the buffer'')
                  else Inr (out @ pad, ctx)))"

definition SplitKey :: "byte list \<Rightarrow> byte list \<times> byte list" where
  "SplitKey secret =
     (if length secret \<noteq> KEY_SIZE + IV_SIZE then (replicate KEY_SIZE 0, replicate IV_SIZE 0)
      else (take KEY_SIZE secret, take IV_SIZE (drop KEY_SIZE secret)))"

text \<open>
  \<open>init\<close> stands for \<open>EVP_CipherInit_ex2\<close> with the cipher AES-256-CBC, \<open>set_padding\<close> for the call that
  turns padding on.
\<close>

definition SetKey ::
  "(bool \<Rightarrow> byte list \<Rightarrow> byte list \<Rightarrow> 'c option) \<Rightarrow> ('c \<Rightarrow> 'c option) \<Rightarrow> bool \<Rightarrow> byte list \<Rightarrow> byte list \<Rightarrow> 'c result" where
  "SetKey init set_padding isEncrypt k i =
     (case init isEncrypt k i of
        None \<Rightarrow> Inl (StackTraceExcept ''EVP_CipherInit_ex2'')
      | Some ctx \<Rightarrow> (case set_padding ctx of
            None \<Rightarrow> Inl (StackTraceExcept ''EVP_CIPHER_CTX_set_padding'')
          | Some ctx \<Rightarrow> Inr ctx))"

section \<open>KeyExchanger\<close>

text \<open>
  The OpenSSL calls of \<open>ComputeKey\<close> in their order: each may fail, and the first failure is the error
  that is returned. The objects are freed on both paths. \<open>ok\<close> says for each call whether it succeeds
  (allocation of the peer key, copy of the parameters, the peer's public key, the context, \<open>derive_init\<close>,
  \<open>set_peer\<close>, the length query and the derivation), \<open>secret\<close> is what the derivation writes.
\<close>

datatype derive_step =
    New_peer | Copy_parameters | Set_encoded_key | New_context | Derive_init | Derive_set_peer
  | Derive_length | Derive_secret

definition derive_steps :: "derive_step list" where
  "derive_steps = [New_peer, Copy_parameters, Set_encoded_key, New_context, Derive_init,
     Derive_set_peer, Derive_length, Derive_secret]"

fun first_failure :: "('a \<Rightarrow> bool) \<Rightarrow> 'a list \<Rightarrow> 'a option" where
  "first_failure ok [] = None"
| "first_failure ok (s # ss) = (if ok s then first_failure ok ss else Some s)"

definition ComputeKey ::
  "(byte list \<Rightarrow> derive_step \<Rightarrow> bool) \<Rightarrow> (byte list \<Rightarrow> byte list) \<Rightarrow> byte list \<Rightarrow> derive_step + byte list" where
  "ComputeKey ok secret peer =
     (case first_failure (ok peer) derive_steps of
        Some s \<Rightarrow> Inl s
      | None \<Rightarrow> Inr (secret peer))"

text \<open>\<open>fetch\<close>, \<open>ctx_new\<close> and \<open>derive\<close> stand for the calls of \<open>KDF\<close>; \<open>derive\<close> fills the result, which has \<open>KeySize\<close> bytes.\<close>

definition KDF ::
  "bool \<Rightarrow> bool \<Rightarrow> (byte list \<Rightarrow> byte list \<Rightarrow> nat \<Rightarrow> (nat \<Rightarrow> byte) option) \<Rightarrow>
   byte list \<Rightarrow> nat \<Rightarrow> byte list \<Rightarrow> byte list result" where
  "KDF fetch ctx_new derive secret KeySize sharedInfo =
     (if \<not> fetch then Inl (StackTraceExcept ''EVP_KDF_fetch'')
      else if \<not> ctx_new then Inl (StackTraceExcept ''EVP_KDF_CTX_new'')
      else case derive secret sharedInfo KeySize of
             None \<Rightarrow> Inl (StackTraceExcept ''EVP_KDF_derive'')
           | Some b \<Rightarrow> Inr (map b [0..<KeySize]))"

text \<open>\<open>encoded\<close> is what \<open>EVP_PKEY_get1_encoded_public_key\<close> gives, \<open>err\<close> the code of \<open>ERR_get_error\<close>.\<close>

definition GetPublicKey :: "error_code \<Rightarrow> byte list \<Rightarrow> error_code + byte list" where
  "GetPublicKey err encoded = (if length encoded = 0 then Inl err else Inr encoded)"

section \<open>Facts\<close>

lemma SplitKey_lengths:
  "length (fst (SplitKey s)) = KEY_SIZE \<and> length (snd (SplitKey s)) = IV_SIZE"
  by (simp add: SplitKey_def)

lemma SplitKey_append: "length s = KEY_SIZE + IV_SIZE \<Longrightarrow> fst (SplitKey s) @ snd (SplitKey s) = s"
  by (simp add: SplitKey_def)

lemma length_KDF: "KDF f c d s n i = Inr b \<Longrightarrow> length b = n"
  by (auto simp: KDF_def split: if_splits option.splits)

lemma first_failure_None: "first_failure ok ss = None \<longleftrightarrow> (\<forall>s\<in>set ss. ok s)"
  by (induction ss) auto

end
