(* ===== verification/ClientSocket.thy ===== *)
theory ClientSocket
  imports ByteQueue PacketProcessor Security
begin

text \<open>
  A connection: \<open>network/MyClientSocket.cpp\<close> over the stream of \<open>network/MyTCPClient.cpp\<close>. Messages are
  encrypted once the key exchange is done, framed, and written one after the other; what is read
  is reassembled and decrypted.

  The stream itself (Boost.Asio) and the cipher (OpenSSL, reached through \<open>security/Encryptor.cpp\<close>) are
  not code of the repository. \<open>crypt\<close> is the cipher, a function of the state of its context that may
  fail. The stream is seen through \<open>cs_readable\<close>, whether a read is pending, the write that is pending (\<open>cs_sending\<close>, with the bytes
  bound to its completion handler) and the bytes it has taken (\<open>cs_wire\<close>). An asynchronous call is its
  effect on this state, and a completion handler is an operation of its own. \<open>cs_sent\<close> is a ghost: the
  messages that \<open>Send\<close> accepted. \<open>cs_cleaned\<close> counts the calls of the clean-up handler.
\<close>

section \<open>State\<close>

record ('k, 'cb) csock =
  cs_isSecure :: bool
  cs_encryptor :: 'k
  cs_decryptor :: 'k
  cs_recvbuffer :: packet_processor
  cs_initiateClose :: bool
  cs_send_queue :: "byte list list"
  cs_ttl :: int
  cs_timer :: "'cb option"
  cs_readable :: bool
  cs_reading :: bool
  cs_sending :: "byte list option"
  cs_wire :: "byte list"
  cs_doclose :: bool
  cs_cleaned :: nat
  cs_sent :: "byte list list"

type_synonym 'k cipher = "'k \<Rightarrow> byte list \<Rightarrow> (byte list \<times> 'k) result"

definition cs_new :: "'k \<Rightarrow> 'k \<Rightarrow> ('k, 'cb) csock" where
  "cs_new enc dec =
     \<lparr>cs_isSecure = False, cs_encryptor = enc, cs_decryptor = dec, cs_recvbuffer = pp_new,
      cs_initiateClose = False, cs_send_queue = [], cs_ttl = 0, cs_timer = None, cs_readable = True,
      cs_reading = False, cs_sending = None, cs_wire = [], cs_doclose = False, cs_cleaned = 0, cs_sent = []\<rparr>"

section \<open>Timer, time to live, closing\<close>

definition SetTimeout :: "'cb \<Rightarrow> ('k, 'cb) csock \<Rightarrow> ('k, 'cb) csock" where
  "SetTimeout callback cs = (if cs_initiateClose cs then cs else cs\<lparr>cs_timer := Some callback\<rparr>)"

definition CancelTimeout :: "('k, 'cb) csock \<Rightarrow> ('k, 'cb) csock" where
  "CancelTimeout cs = cs\<lparr>cs_timer := None\<rparr>"

definition FillTTL :: "int \<Rightarrow> ('k, 'cb) csock \<Rightarrow> ('k, 'cb) csock" where
  "FillTTL max_ttl cs = cs\<lparr>cs_ttl := max_ttl\<rparr>"

definition CountTTL :: "('k, 'cb) csock \<Rightarrow> bool \<times> ('k, 'cb) csock" where
  "CountTTL cs = (let cs = cs\<lparr>cs_ttl := cs_ttl cs - 1\<rparr> in (cs_ttl cs > 0, cs))"

definition DoClose :: "('k, 'cb) csock \<Rightarrow> ('k, 'cb) csock" where
  "DoClose cs = cs\<lparr>cs_doclose := True\<rparr>"

text \<open>The completion of the wait of \<open>DoClose\<close>: the stream is closed and the handler called.\<close>

definition DoClose_done :: "('k, 'cb) csock \<Rightarrow> ('k, 'cb) csock" where
  "DoClose_done cs = cs\<lparr>cs_doclose := False, cs_readable := False, cs_cleaned := cs_cleaned cs + 1\<rparr>"

definition Close :: "('k, 'cb) csock \<Rightarrow> ('k, 'cb) csock" where
  "Close cs =
     (if cs_initiateClose cs then cs
      else
        (let cs = CancelTimeout (cs\<lparr>cs_initiateClose := True\<rparr>)
         in if cs_readable cs then DoClose cs
            else cs\<lparr>cs_cleaned := cs_cleaned cs + 1\<rparr>))"

section \<open>Sending\<close>

definition DoSend :: "byte list \<Rightarrow> ('k, 'cb) csock \<Rightarrow> ('k, 'cb) csock" where
  "DoSend bytes cs = cs\<lparr>cs_sending := Some bytes\<rparr>"

text \<open>
  \<open>Send\<close> in its three parts: the check under \<open>mtx\<close>, the encryption under no lock, and the queueing under
  \<open>send_mtx\<close>.
\<close>

definition Send_check :: "('k, 'cb) csock \<Rightarrow> bool" where
  "Send_check cs = (cs_readable cs \<and> \<not> cs_initiateClose cs)"

definition Send_encode :: "'k cipher \<Rightarrow> byte list \<Rightarrow> ('k, 'cb) csock \<Rightarrow> (byte list \<times> ('k, 'cb) csock) result" where
  "Send_encode crypt bytes cs =
     (if cs_isSecure cs
      then bind_result (crypt (cs_encryptor cs) bytes)
             (\<lambda>(c, k). Inr (encapsulate c, cs\<lparr>cs_encryptor := k\<rparr>))
      else Inr (encapsulate bytes, cs))"

definition Send_enqueue :: "byte list \<Rightarrow> ('k, 'cb) csock \<Rightarrow> ('k, 'cb) csock" where
  "Send_enqueue bytes cs =
     (let cs = cs\<lparr>cs_send_queue := cs_send_queue cs @ [bytes]\<rparr>
      in if length (cs_send_queue cs) > 1 then cs else DoSend bytes cs)"

definition Send :: "'k cipher \<Rightarrow> byte list \<Rightarrow> ('k, 'cb) csock \<Rightarrow> ('k, 'cb) csock result" where
  "Send crypt bytes cs =
     (if \<not> Send_check cs then Inr cs
      else bind_result (Send_encode crypt bytes cs)
             (\<lambda>(b, cs). Inr (Send_enqueue b (cs\<lparr>cs_sent := cs_sent cs @ [bytes]\<rparr>))))"

text \<open>\<open>send_queue.pop()\<close> on an empty queue is undefined.\<close>

definition Send_Handle :: "bool \<Rightarrow> nat \<Rightarrow> byte list \<Rightarrow> ('k, 'cb) csock \<Rightarrow> ('k, 'cb) csock result" where
  "Send_Handle failed bytes_sent bytes cs =
     (if failed \<or> bytes_sent \<le> 0 then Inr (Close cs)
      else if \<not> cs_readable cs then Inr cs
      else if bytes_sent < length bytes then Inr (DoSend (drop bytes_sent bytes) cs)
      else case cs_send_queue cs of
             [] \<Rightarrow> Inl (Undefined ''pop of an empty queue'')
           | _ # q \<Rightarrow>
               (let cs = cs\<lparr>cs_send_queue := q\<rparr>
                in if q \<noteq> [] then Inr (DoSend (hd q) cs) else Inr cs))"

text \<open>The stream has taken \<open>n\<close> bytes of the pending write, or failed, and calls the handler.\<close>

definition write_done :: "bool \<Rightarrow> nat \<Rightarrow> ('k, 'cb) csock \<Rightarrow> ('k, 'cb) csock result" where
  "write_done failed n cs =
     (case cs_sending cs of
        None \<Rightarrow> Inr cs
      | Some bytes \<Rightarrow>
          Send_Handle failed n bytes
            (cs\<lparr>cs_sending := None, cs_wire := cs_wire cs @ (if failed then [] else take n bytes)\<rparr>))"

section \<open>Receiving\<close>

definition cs_Recv :: "'k cipher \<Rightarrow> ('k, 'cb) csock \<Rightarrow> (byte list option \<times> ('k, 'cb) csock) result" where
  "cs_Recv crypt cs =
     (if isMsgIn (cs_recvbuffer cs)
      then bind_result (GetMsg (cs_recvbuffer cs))
             (\<lambda>(m, pp). let cs = cs\<lparr>cs_recvbuffer := pp\<rparr>
                in if cs_isSecure cs
                   then bind_result (crypt (cs_decryptor cs) m) (\<lambda>(p, k). Inr (Some p, cs\<lparr>cs_decryptor := k\<rparr>))
                   else Inr (Some m, cs))
      else Inr (None, cs))"

text \<open>A handler of a receive operation gets the message and the error code, and acts on the socket.\<close>

type_synonym ('k, 'cb) recv_handler = "byte list \<Rightarrow> error_code \<Rightarrow> ('k, 'cb) csock \<Rightarrow> ('k, 'cb) csock result"

definition DoRecv :: "('k, 'cb) csock \<Rightarrow> ('k, 'cb) csock" where
  "DoRecv cs = cs\<lparr>cs_reading := True\<rparr>"

definition StartRecv :: "'k cipher \<Rightarrow> ('k, 'cb) recv_handler \<Rightarrow> ('k, 'cb) csock \<Rightarrow> ('k, 'cb) csock result" where
  "StartRecv crypt handler cs =
     (if \<not> cs_readable cs \<or> cs_initiateClose cs then Inr cs
      else bind_result (cs_Recv crypt cs)
             (\<lambda>(msg, cs). case msg of
                 Some m \<Rightarrow> handler m (ErrorCode_custom SUCCESS) cs
               | None \<Rightarrow> Inr (DoRecv cs)))"

abbreviation (input) BUF_SIZE :: nat where "BUF_SIZE \<equiv> 1024"

definition GetRecv :: "byte list \<Rightarrow> ('k, 'cb) csock \<Rightarrow> ('k, 'cb) csock result" where
  "GetRecv data cs = bind_result (PacketProcessor.Recv (take BUF_SIZE data) (cs_recvbuffer cs))
     (\<lambda>pp. Inr (cs\<lparr>cs_recvbuffer := pp\<rparr>))"

definition Recv_Handle ::
  "'k cipher \<Rightarrow> ('k, 'cb) recv_handler \<Rightarrow> error_code option \<Rightarrow> byte list \<Rightarrow> ('k, 'cb) csock \<Rightarrow> ('k, 'cb) csock result" where
  "Recv_Handle crypt handler err data cs =
     (let cs = cs\<lparr>cs_reading := False\<rparr>
      in case err of
           Some ec \<Rightarrow> bind_result (handler [] ec cs) (\<lambda>cs. Inr (Close cs))
         | None \<Rightarrow>
             bind_result (GetRecv data cs) (\<lambda>cs.
             bind_result (cs_Recv crypt cs) (\<lambda>(result, cs).
               case result of
                 Some m \<Rightarrow> handler m (ErrorCode_custom SUCCESS) cs
               | None \<Rightarrow> StartRecv crypt handler cs)))"

section \<open>Key exchange\<close>

text \<open>
  \<open>compute\<close>, \<open>kdf\<close> and \<open>set_key\<close> are \<open>ComputeKey\<close>, \<open>KDF\<close> and \<open>SetKey\<close> with their OpenSSL parameters applied;
  \<open>closing\<close> is the timer callback that closes the socket; \<open>handler\<close> is the continuation of the server.
\<close>

definition KeyExchange_recv ::
  "(byte list \<Rightarrow> derive_step + byte list) \<Rightarrow> (byte list \<Rightarrow> nat \<Rightarrow> byte list result) \<Rightarrow>
   (bool \<Rightarrow> byte list \<Rightarrow> byte list \<Rightarrow> 'k result) \<Rightarrow>
   (error_code \<Rightarrow> ('k, 'cb) csock \<Rightarrow> ('k, 'cb) csock result) \<Rightarrow> ('k, 'cb) recv_handler" where
  "KeyExchange_recv compute kdf set_key handler packet recv_ec cs =
     (let cs = CancelTimeout cs
      in if \<not> ec_isSuccessed recv_ec then handler recv_ec cs
         else case compute packet of
                Inl _ \<Rightarrow> handler (ErrorCode_custom ERR_PROTOCOL_VIOLATION) cs
              | Inr secret \<Rightarrow>
                  bind_result (kdf secret 48) (\<lambda>derived.
                    if length derived \<noteq> 48 then handler (ErrorCode_custom ERR_OUT_OF_CAPACITY) cs
                    else
                      (let (key, iv) = SplitKey derived
                       in bind_result (set_key True key iv) (\<lambda>enc.
                          bind_result (set_key False key iv) (\<lambda>dec.
                            handler (ErrorCode_custom SUCCESS)
                              (cs\<lparr>cs_encryptor := enc, cs_decryptor := dec, cs_isSecure := True\<rparr>))))))"

definition KeyExchange ::
  "'k cipher \<Rightarrow> error_code + byte list \<Rightarrow> (byte list \<Rightarrow> derive_step + byte list) \<Rightarrow>
   (byte list \<Rightarrow> nat \<Rightarrow> byte list result) \<Rightarrow> (bool \<Rightarrow> byte list \<Rightarrow> byte list \<Rightarrow> 'k result) \<Rightarrow> 'cb \<Rightarrow>
   (error_code \<Rightarrow> ('k, 'cb) csock \<Rightarrow> ('k, 'cb) csock result) \<Rightarrow> ('k, 'cb) csock \<Rightarrow> ('k, 'cb) csock result" where
  "KeyExchange crypt pkey compute kdf set_key closing handler cs =
     (case pkey of
        Inl e \<Rightarrow> handler e cs
      | Inr pub \<Rightarrow>
          bind_result (Send crypt pub cs) (\<lambda>cs.
            if \<not> cs_readable cs then handler (ErrorCode_custom ERR_CONNECTION_CLOSED) cs
            else StartRecv crypt (KeyExchange_recv compute kdf set_key handler) (SetTimeout closing cs)))"

text \<open>The codes of \<open>EINVAL\<close>, of the closed web socket, of end of file and of an aborted operation are parameters.\<close>

definition isNormalClose :: "int \<Rightarrow> int \<Rightarrow> int \<Rightarrow> int \<Rightarrow> error_code \<Rightarrow> bool" where
  "isNormalClose EINVAL ws_closed asio_eof asio_aborted ec =
     (if ec_isSuccessed ec then True
      else if m_type ec = TYPE_ERRNO then m_code ec = EINVAL
      else if m_type ec = TYPE_CUSTOM then m_code ec = uint ERR_CONNECTION_CLOSED
      else if m_type ec = TYPE_BOOST then m_code ec = ws_closed \<or> m_code ec = asio_eof \<or> m_code ec = asio_aborted
      else False)"

section \<open>Writing\<close>

text \<open>
  The runs of a connection on the sending side: \<open>ps\<close> are the payloads (after encryption) that \<open>Send\<close>
  has queued so far. The stream may take any part of the pending write, or fail, at any time;
  the socket may be closed and the cipher may be set at any time.
\<close>

inductive send_run :: "'k cipher \<Rightarrow> byte list list \<Rightarrow> ('k, 'cb) csock \<Rightarrow> bool" for crypt where
  start: "send_run crypt [] (cs_new enc dec)"
| send: "send_run crypt ps cs \<Longrightarrow> Send_check cs \<Longrightarrow> Send_encode crypt m cs = Inr (encapsulate c, cs1) \<Longrightarrow>
    send_run crypt (ps @ [c]) (Send_enqueue (encapsulate c) (cs1\<lparr>cs_sent := cs_sent cs1 @ [m]\<rparr>))"
| written: "send_run crypt ps cs \<Longrightarrow> write_done failed n cs = Inr cs' \<Longrightarrow> send_run crypt ps cs'"
| close: "send_run crypt ps cs \<Longrightarrow> send_run crypt ps (Close cs)"
| closed: "send_run crypt ps cs \<Longrightarrow> cs_doclose cs \<Longrightarrow> send_run crypt ps (DoClose_done cs)"
| secure: "send_run crypt ps cs \<Longrightarrow> send_run crypt ps (cs\<lparr>cs_encryptor := k, cs_decryptor := k', cs_isSecure := b\<rparr>)"

lemma send_run_Send:
  assumes "send_run crypt ps cs" "Send crypt m cs = Inr cs'"
  shows "send_run crypt ps cs' \<or> (\<exists>c. send_run crypt (ps @ [c]) cs')"
proof (cases "Send_check cs")
  case True
  then obtain b cs1 where e: "Send_encode crypt m cs = Inr (b, cs1)"
    and cs': "cs' = Send_enqueue b (cs1\<lparr>cs_sent := cs_sent cs1 @ [m]\<rparr>)"
    using assms(2) by (auto simp: Send_def bind_result_Inr_conv)
  then obtain c where "b = encapsulate c"
    by (auto simp: Send_encode_def bind_result_Inr_conv split: if_splits)
  then show ?thesis
    using send_run.send [OF assms(1) True] e cs' by blast
next
  case False
  with assms show ?thesis by (simp add: Send_def)
qed

text \<open>
  What is on the wire, in the pending write and in the queue is the concatenation of the frames. The
  second case is a connection on which a write failed or that is no longer readable.
\<close>

definition flow :: "byte list list \<Rightarrow> ('k, 'cb) csock \<Rightarrow> bool" where
  "flow fs cs \<longleftrightarrow> [] \<notin> set fs \<and>
     ((case cs_send_queue cs of
        [] \<Rightarrow> cs_sending cs = None \<and> cs_wire cs = concat fs
      | f # q \<Rightarrow>
          (\<exists>old sent rest. fs = old @ f # q \<and> f = sent @ rest \<and> rest \<noteq> [] \<and>
             cs_sending cs = Some rest \<and> cs_wire cs = concat old @ sent))
     \<or> cs_sending cs = None \<and> cs_send_queue cs \<noteq> [] \<and> (cs_initiateClose cs \<or> \<not> cs_readable cs) \<and> (\<exists>r. concat fs = cs_wire cs @ r))"

lemma flow_prefix: "flow fs cs \<Longrightarrow> \<exists>r. concat fs = cs_wire cs @ r"
  by (auto simp: flow_def split: list.splits)

lemma flow_cong:
  assumes "flow fs cs" "cs_send_queue cs' = cs_send_queue cs" "cs_sending cs' = cs_sending cs" "cs_wire cs' = cs_wire cs"
    "cs_initiateClose cs \<or> \<not> cs_readable cs \<Longrightarrow> cs_initiateClose cs' \<or> \<not> cs_readable cs'"
  shows "flow fs cs'"
  using assms by (auto simp: flow_def split: list.splits)

lemma Close_fields [simp]:
  "cs_send_queue (Close cs) = cs_send_queue cs" "cs_sending (Close cs) = cs_sending cs"
  "cs_wire (Close cs) = cs_wire cs" "cs_readable (Close cs) = cs_readable cs" "cs_initiateClose (Close cs)"
  "cs_sent (Close cs) = cs_sent cs"
  by (simp_all add: Close_def DoClose_def CancelTimeout_def Let_def)

lemma encapsulate_not_Nil [simp]: "encapsulate m \<noteq> []"
  by (simp add: encapsulate_escape)

lemma flow_enqueue:
  assumes "flow fs cs" "Send_check cs" "b \<noteq> []"
  shows "flow (fs @ [b]) (Send_enqueue b cs)"
proof (cases "cs_send_queue cs")
  case Nil
  with assms have "cs_wire cs = concat fs" "cs_sending cs = None" "[] \<notin> set fs"
    by (auto simp: flow_def Send_check_def)
  with Nil assms(3) show ?thesis
    by (auto simp: flow_def Send_enqueue_def DoSend_def)
next
  case (Cons f q)
  with assms obtain old sent rest where "fs = old @ f # q" "f = sent @ rest" "rest \<noteq> []"
    "cs_sending cs = Some rest" "cs_wire cs = concat old @ sent" "[] \<notin> set fs"
    by (auto simp: flow_def Send_check_def)
  with Cons assms(3) show ?thesis
    by (auto simp: flow_def Send_enqueue_def)
qed

lemma write_done_flow:
  assumes "flow fs cs"
  shows "\<exists>cs'. write_done failed n cs = Inr cs' \<and> flow fs cs'"
proof (cases "cs_sending cs")
  case None
  with assms show ?thesis by (simp add: write_done_def)
next
  case (Some rest)
  with assms obtain f q old sent where q: "cs_send_queue cs = f # q" "fs = old @ f # q" "f = sent @ rest"
    "rest \<noteq> []" "cs_wire cs = concat old @ sent"
    by (auto simp: flow_def split: list.splits)
  have pre: "concat fs = cs_wire cs @ take n rest @ (drop n rest @ concat q)"
    by (simp add: q)
  note nonempty = assms [unfolded flow_def, THEN conjunct1]
  let ?cs = "cs\<lparr>cs_sending := None, cs_wire := cs_wire cs @ (if failed then [] else take n rest)\<rparr>"
  have w: "write_done failed n cs = Send_Handle failed n rest ?cs"
    by (simp add: write_done_def Some)
  consider (fail) "failed \<or> n = 0" | (unread) "\<not> failed" "n \<noteq> 0" "\<not> cs_readable cs"
    | (part) "\<not> failed" "n \<noteq> 0" "cs_readable cs" "n < length rest"
    | (all) "\<not> failed" "n \<noteq> 0" "cs_readable cs" "length rest \<le> n"
    by linarith
  then show ?thesis
  proof cases
    case fail
    then have "flow fs (Close ?cs)"
      using pre nonempty q(1) by (auto simp: flow_def)
    with fail w show ?thesis by (auto simp: Send_Handle_def)
  next
    case unread
    then have "flow fs ?cs"
      using pre nonempty q(1) by (auto simp: flow_def)
    with unread w show ?thesis by (auto simp: Send_Handle_def)
  next
    case part
    then have "flow fs (DoSend (drop n rest) ?cs)"
      using q nonempty by (auto simp: flow_def DoSend_def intro!: exI [of _ "sent @ take n rest"])
    with part w show ?thesis by (auto simp: Send_Handle_def)
  next
    case all
    let ?cs2 = "?cs\<lparr>cs_send_queue := q\<rparr>"
    have "flow fs (if q \<noteq> [] then DoSend (hd q) ?cs2 else ?cs2)"
    proof (cases q)
      case Nil
      with all q nonempty show ?thesis by (simp add: flow_def)
    next
      case (Cons f2 q2)
      with q assms have "f2 \<noteq> []" by (auto simp: flow_def)
      with Cons all q assms show ?thesis
        by (auto simp: flow_def DoSend_def intro!: exI [of _ "old @ [f]"] exI [of _ "[]"])
    qed
    with all w q(1) show ?thesis by (auto simp: Send_Handle_def Let_def)
  qed
qed

lemma send_run_flow: "send_run crypt ps cs \<Longrightarrow> flow (map encapsulate ps) cs"
proof (induction rule: send_run.induct)
  case (start enc dec)
  show ?case by (simp add: flow_def cs_new_def)
next
  case (send ps cs m c cs1)
  from send.hyps(3) have same: "cs_send_queue cs1 = cs_send_queue cs" "cs_sending cs1 = cs_sending cs"
    "cs_wire cs1 = cs_wire cs" "cs_initiateClose cs1 = cs_initiateClose cs" "cs_readable cs1 = cs_readable cs"
    by (auto simp: Send_encode_def bind_result_Inr_conv split: if_splits)
  let ?cs = "cs1\<lparr>cs_sent := cs_sent cs1 @ [m]\<rparr>"
  have "flow (map encapsulate ps) ?cs"
    by (rule flow_cong [OF send.IH]) (simp_all add: same)
  moreover have "Send_check ?cs"
    using send.hyps(2) same by (simp add: Send_check_def)
  ultimately show ?case
    by (simp add: flow_enqueue)
next
  case (written ps cs failed n cs')
  then show ?case using write_done_flow [of _ cs failed n] by fastforce
next
  case (close ps cs)
  show ?case by (rule flow_cong [OF close.IH]) simp_all
next
  case (closed ps cs)
  show ?case by (rule flow_cong [OF closed.IH]) (simp_all add: DoClose_done_def)
next
  case (secure ps cs k k' b)
  show ?case by (rule flow_cong [OF secure.IH]) simp_all
qed

text \<open>How much is still to be written.\<close>

definition pending :: "('k, 'cb) csock \<Rightarrow> nat" where
  "pending cs = length (case cs_sending cs of None \<Rightarrow> [] | Some r \<Rightarrow> r) + length (concat (tl (cs_send_queue cs)))"

lemma write_done_progress:
  assumes "flow fs cs" "cs_readable cs" "cs_sending cs \<noteq> None" "0 < n" "write_done False n cs = Inr cs'"
  shows "pending cs' < pending cs \<and> cs_readable cs' \<and> (cs_sending cs' = None \<longrightarrow> cs_send_queue cs' = [])"
proof -
  obtain rest f q where r: "cs_sending cs = Some rest" "cs_send_queue cs = f # q" "rest \<noteq> []"
    using assms(1,3) by (auto simp: flow_def split: list.splits)
  with assms(2,4,5) show ?thesis
    by (cases q) (auto simp: write_done_def Send_Handle_def Let_def DoSend_def pending_def split: if_splits)
qed

text \<open>\<open>drain\<close>: the stream keeps taking \<open>n\<close> bytes of what is pending.\<close>

fun drain :: "nat \<Rightarrow> nat \<Rightarrow> ('k, 'cb) csock \<Rightarrow> ('k, 'cb) csock result" where
  "drain n 0 cs = Inr cs"
| "drain n (Suc k) cs = bind_result (write_done False n cs) (drain n k)"

lemma drain_done:
  assumes "flow fs cs" "cs_readable cs" "cs_sending cs = None \<longrightarrow> cs_send_queue cs = []" "0 < n" "pending cs \<le> k"
  shows "\<exists>cs'. drain n k cs = Inr cs' \<and> cs_send_queue cs' = [] \<and> cs_sending cs' = None \<and> flow fs cs' \<and> cs_readable cs'"
  using assms
proof (induction k arbitrary: cs)
  case 0
  have "cs_sending cs = None"
  proof (rule ccontr)
    assume "cs_sending cs \<noteq> None"
    then obtain r where "cs_sending cs = Some r" "r \<noteq> []"
      using "0.prems"(1) by (auto simp: flow_def split: list.splits)
    with "0.prems"(5) show False by (simp add: pending_def)
  qed
  with 0 show ?case by simp
next
  case (Suc k)
  obtain cs1 where w: "write_done False n cs = Inr cs1" "flow fs cs1"
    using write_done_flow [OF Suc.prems(1)] by blast
  show ?case
  proof (cases "cs_sending cs")
    case None
    then have "cs1 = cs" "pending cs = 0"
      using w Suc.prems(3) by (simp_all add: write_done_def pending_def)
    with w Suc show ?thesis by simp
  next
    case (Some r)
    then show ?thesis
      using write_done_progress [OF Suc.prems(1,2) _ Suc.prems(4) w(1)] Suc.IH [OF w(2)] Suc.prems(4,5) w(1) by auto
  qed
qed

section \<open>Encryption\<close>

text \<open>
  What is relied on of the cipher, named \<open>cipher_ok\<close>: a decrypting context that is in step with an
  encrypting one gives back the message and is in step again, and a ciphertext is never empty (a
  padded block cipher writes at least one block). \<open>Encryptor\<close> goes on with a context after its final call; that it stays
  in step then is part of this hypothesis.
\<close>

definition cipher_ok :: "'k cipher \<Rightarrow> ('k \<Rightarrow> 'k \<Rightarrow> bool) \<Rightarrow> bool" where
  "cipher_ok crypt step \<longleftrightarrow>
     (\<forall>e d m c e'. step e d \<and> crypt e m = Inr (c, e') \<longrightarrow>
        c \<noteq> [] \<and> (\<exists>d'. crypt d c = Inr (m, d') \<and> step e' d'))"

fun Send_all :: "'k cipher \<Rightarrow> byte list list \<Rightarrow> ('k, 'cb) csock \<Rightarrow> ('k, 'cb) csock result" where
  "Send_all crypt [] cs = Inr cs"
| "Send_all crypt (m # ms) cs = bind_result (Send crypt m cs) (Send_all crypt ms)"

fun Recv_msgs :: "'k cipher \<Rightarrow> nat \<Rightarrow> ('k, 'cb) csock \<Rightarrow> (byte list list \<times> ('k, 'cb) csock) result" where
  "Recv_msgs crypt 0 cs = Inr ([], cs)"
| "Recv_msgs crypt (Suc n) cs = bind_result (cs_Recv crypt cs) (\<lambda>(m, cs). case m of
       None \<Rightarrow> Inr ([], cs)
     | Some p \<Rightarrow> bind_result (Recv_msgs crypt n cs) (\<lambda>(ps, cs). Inr (p # ps, cs)))"

fun crypt_seq :: "'k cipher \<Rightarrow> 'k \<Rightarrow> byte list list \<Rightarrow> (byte list list \<times> 'k) result" where
  "crypt_seq crypt k [] = Inr ([], k)"
| "crypt_seq crypt k (m # ms) = bind_result (crypt k m) (\<lambda>(c, k).
     bind_result (crypt_seq crypt k ms) (\<lambda>(cs, k). Inr (c # cs, k)))"

lemma Send_all_secure:
  assumes "Send_all crypt ms a = Inr a'" "Send_check a" "cs_isSecure a"
  shows "\<exists>cs e. crypt_seq crypt (cs_encryptor a) ms = Inr (cs, e) \<and>
    cs_send_queue a' = cs_send_queue a @ map encapsulate cs"
  using assms
proof (induction ms arbitrary: a)
  case (Cons m ms)
  from Cons.prems obtain c e where c: "crypt (cs_encryptor a) m = Inr (c, e)"
    by (auto simp: Send_def Send_encode_def bind_result_Inr_conv)
  define a1 where "a1 = Send_enqueue (encapsulate c) (a\<lparr>cs_encryptor := e, cs_sent := cs_sent a @ [m]\<rparr>)"
  have "Send crypt m a = Inr a1"
    using Cons.prems(2,3) c by (simp add: Send_def Send_encode_def a1_def)
  then have a1: "Send_all crypt ms a1 = Inr a'" "Send_check a1" "cs_isSecure a1" "cs_encryptor a1 = e"
    "cs_send_queue a1 = cs_send_queue a @ [encapsulate c]"
    using Cons.prems by (simp_all add: a1_def Send_check_def Send_enqueue_def Let_def DoSend_def)
  from Cons.IH [OF a1(1-3)] show ?case
    using c a1(4,5) by auto
qed simp

lemma crypt_seq_length: "crypt_seq crypt k ms = Inr (cs, k') \<Longrightarrow> length cs = length ms"
  by (induction ms arbitrary: k cs) (auto simp: bind_result_Inr_conv)

lemma crypt_seq_inverse:
  assumes "cipher_ok crypt step"
  shows "step e d \<Longrightarrow> crypt_seq crypt e ms = Inr (cs, e') \<Longrightarrow>
    [] \<notin> set cs \<and> (\<exists>d'. crypt_seq crypt d cs = Inr (ms, d') \<and> step e' d')"
proof (induction ms arbitrary: e d cs)
  case (Cons m ms)
  from Cons.prems(2) obtain c e1 cs1 where c: "crypt e m = Inr (c, e1)" "crypt_seq crypt e1 ms = Inr (cs1, e')" "cs = c # cs1"
    by (auto simp: bind_result_Inr_conv)
  from assms Cons.prems(1) c(1) obtain d1 where d: "c \<noteq> []" "crypt d c = Inr (m, d1)" "step e1 d1"
    unfolding cipher_ok_def by blast
  from Cons.IH [OF d(3) c(2)] d c(3) show ?case by auto
qed auto

lemma Recv_msgs_seq:
  assumes "crypt_seq crypt (cs_decryptor b) cs = Inr (ms, d')" "cs_isSecure b" "pp_msgs (cs_recvbuffer b) = cs"
  shows "\<exists>b'. Recv_msgs crypt (length cs) b = Inr (ms, b')"
  using assms
proof (induction cs arbitrary: b ms)
  case (Cons c cs)
  from Cons.prems(1) obtain m d ms1 where d: "crypt (cs_decryptor b) c = Inr (m, d)" "crypt_seq crypt d cs = Inr (ms1, d')" "ms = m # ms1"
    by (auto simp: bind_result_Inr_conv)
  define b1 where "b1 = b\<lparr>cs_recvbuffer := (cs_recvbuffer b)\<lparr>pp_msgs := cs\<rparr>, cs_decryptor := d\<rparr>"
  have "cs_Recv crypt b = Inr (Some m, b1)"
    using Cons.prems d(1) by (simp add: cs_Recv_def isMsgIn_def GetMsg_def b1_def)
  moreover have "\<exists>b'. Recv_msgs crypt (length cs) b1 = Inr (ms1, b')"
    using Cons.prems d(2) by (intro Cons.IH) (simp_all add: b1_def)
  ultimately show ?case using d(3) by auto
qed simp

section \<open>What the servers see\<close>

text \<open>
  The servers see a socket through a few fields: whether it can be used, the messages it was given,
  its time to live and the callback of its timer. The operations of \<open>csock\<close> act on this view alone, as
  long as the cipher does not fail.
\<close>

record 'cb sock =
  sk_open :: bool
  sk_closing :: bool
  sk_out :: "byte list list"
  sk_ttl :: int
  sk_timer :: "'cb option"

definition sk_new :: "'cb sock" where
  "sk_new = \<lparr>sk_open = True, sk_closing = False, sk_out = [], sk_ttl = 0, sk_timer = None\<rparr>"

definition sk_Send :: "byte list \<Rightarrow> ('cb, 'x) sock_scheme \<Rightarrow> ('cb, 'x) sock_scheme" where
  "sk_Send m s = (if \<not> sk_open s \<or> sk_closing s then s else s\<lparr>sk_out := sk_out s @ [m]\<rparr>)"

definition sk_Close :: "('cb, 'x) sock_scheme \<Rightarrow> ('cb, 'x) sock_scheme" where
  "sk_Close s = (if sk_closing s then s else s\<lparr>sk_closing := True, sk_timer := None\<rparr>)"

definition sk_SetTimeout :: "'cb \<Rightarrow> ('cb, 'x) sock_scheme \<Rightarrow> ('cb, 'x) sock_scheme" where
  "sk_SetTimeout cb s = (if sk_closing s then s else s\<lparr>sk_timer := Some cb\<rparr>)"

definition sk_CancelTimeout :: "('cb, 'x) sock_scheme \<Rightarrow> ('cb, 'x) sock_scheme" where
  "sk_CancelTimeout s = s\<lparr>sk_timer := None\<rparr>"

definition sk_FillTTL :: "int \<Rightarrow> ('cb, 'x) sock_scheme \<Rightarrow> ('cb, 'x) sock_scheme" where
  "sk_FillTTL n s = s\<lparr>sk_ttl := n\<rparr>"

definition sk_CountTTL :: "('cb, 'x) sock_scheme \<Rightarrow> bool \<times> ('cb, 'x) sock_scheme" where
  "sk_CountTTL s = (let s = s\<lparr>sk_ttl := sk_ttl s - 1\<rparr> in (sk_ttl s > 0, s))"

definition view :: "('k, 'cb) csock \<Rightarrow> 'cb sock" where
  "view cs = \<lparr>sk_open = cs_readable cs, sk_closing = cs_initiateClose cs, sk_out = cs_sent cs,
     sk_ttl = cs_ttl cs, sk_timer = cs_timer cs\<rparr>"

lemma view_Send: "Send crypt m cs = Inr cs' \<Longrightarrow> view cs' = sk_Send m (view cs)"
  by (auto simp: Send_def Send_check_def Send_encode_def Send_enqueue_def DoSend_def Let_def view_def sk_Send_def
      bind_result_Inr_conv split: if_splits)

lemma view_ops [simp]:
  "view (Close cs) = sk_Close (view cs)"
  "view (SetTimeout cb cs) = sk_SetTimeout cb (view cs)"
  "view (CancelTimeout cs) = sk_CancelTimeout (view cs)"
  "view (FillTTL n cs) = sk_FillTTL n (view cs)"
  "map_prod id view (CountTTL cs) = sk_CountTTL (view cs)"
  by (simp_all add: view_def Close_def DoClose_def CancelTimeout_def Let_def sk_Close_def SetTimeout_def
      sk_SetTimeout_def sk_CancelTimeout_def FillTTL_def sk_FillTTL_def CountTTL_def sk_CountTTL_def)

section \<open>Properties\<close>



text \<open>
  Messages arrive: what one end sends over an encrypted connection, in any number of messages,
  the other end receives decrypted, complete and in order, however the stream fragments it, if the
  two cipher contexts start in step.
\<close>

theorem secure_delivery:
  assumes "cipher_ok crypt step" "step (cs_encryptor a) (cs_decryptor b)"
    and "Send_check a" "cs_isSecure a" "cs_send_queue a = []" "Send_all crypt ms a = Inr a'"
    and "cs_isSecure b" "cs_recvbuffer b = pp_new"
    and "concat chunks = concat (cs_send_queue a')"
  shows "\<exists>pp b'. Recv_all chunks pp_new = Inr pp \<and>
     Recv_msgs crypt (length ms) (b\<lparr>cs_recvbuffer := pp\<rparr>) = Inr (ms, b')"
proof -
  obtain cs e where c: "crypt_seq crypt (cs_encryptor a) ms = Inr (cs, e)" "cs_send_queue a' = map encapsulate cs"
    using Send_all_secure [OF assms(6,3,4)] assms(5) by auto
  obtain d where d: "[] \<notin> set cs" "crypt_seq crypt (cs_decryptor b) cs = Inr (ms, d)"
    using crypt_seq_inverse [OF assms(1,2) c(1)] by blast
  obtain pp where pp: "Recv_all chunks pp_new = Inr pp" "pp_msgs pp = filter (\<lambda>m. m \<noteq> []) cs"
    unfolding Recv_all_def using packets.reassembled [of chunks cs] assms(9) c(2) by auto
  have "filter (\<lambda>m. m \<noteq> []) cs = cs"
    using d(1) by (metis (mono_tags, lifting) filter_True)
  moreover have "length cs = length ms"
    using c(1) by (rule crypt_seq_length)
  ultimately show ?thesis
    using Recv_msgs_seq [of crypt "b\<lparr>cs_recvbuffer := pp\<rparr>" cs ms d] d pp assms(7) by simp
qed

definition xor_cipher :: "byte cipher" where
  "xor_cipher k m = Inr (map (\<lambda>b. Bit_Operations.xor b k) m, k + 1)"

definition tag_cipher :: "(bool \<times> byte) cipher" where
  "tag_cipher k m =
     (case k of
        (True, n) \<Rightarrow> Inr (n # m, (True, n + 1))
      | (False, n) \<Rightarrow> (case m of c # p \<Rightarrow> if c = n then Inr (p, (False, n + 1)) else Inl (StackTraceExcept ''decrypt'')
                               | [] \<Rightarrow> Inl (StackTraceExcept ''decrypt'')))"

lemma tag_cipher_ok: "cipher_ok tag_cipher (\<lambda>e d. e = (True, snd d) \<and> \<not> fst d)"
  by (auto simp: cipher_ok_def tag_cipher_def)

theorem secure_delivery_witness:
  "\<exists>pp b'. Recv_all [[0], [5, 0xee], [0xff, 1, 6, 0xee, 0xff]] pp_new = Inr pp \<and>
     Recv_msgs tag_cipher (length [[5 :: byte], [6]]) ((cs_new (True, 0) (False, 0) :: (bool \<times> byte, unit) csock)\<lparr>cs_isSecure := True, cs_recvbuffer := pp\<rparr>)
       = Inr ([[5], [6]], b')"
proof -
  let ?a = "(cs_new (True, 0) (False, 0) :: (bool \<times> byte, unit) csock)\<lparr>cs_isSecure := True\<rparr>"
  obtain a' where a': "Send_all tag_cipher [[5], [6]] ?a = Inr a'"
      "concat (cs_send_queue a') = concat [[0], [5, 0xee], [0xff, 1, 6, 0xee, 0xff]]"
    by (simp add: Send_def Send_check_def Send_encode_def Send_enqueue_def DoSend_def cs_new_def tag_cipher_def
        encapsulate_def pattern_def eof_def)
  show ?thesis
    using secure_delivery [OF tag_cipher_ok, of ?a ?a "[[5], [6]]" a' "[[0], [5, 0xee], [0xff, 1, 6, 0xee, 0xff]]"] a'
    by (simp add: Send_check_def cs_new_def)
qed

text \<open>
  \<open>Send\<close> encrypts before it takes the lock of the queue. If two threads send at once, the second
  ciphertext can be queued first, and a receiver whose cipher depends on the order of the messages
  decrypts neither message.
\<close>

theorem send_race:
  "bind_result (Send_encode xor_cipher [1] ((cs_new 0 0 :: (byte, unit) csock)\<lparr>cs_isSecure := True\<rparr>)) (\<lambda>(b1, cs1).
   bind_result (Send_encode xor_cipher [2] cs1) (\<lambda>(b2, cs2).
   bind_result (PacketProcessor.Recv (concat (cs_send_queue (Send_enqueue b1 (Send_enqueue b2 cs2)))) pp_new) (\<lambda>pp.
   bind_result (Recv_msgs xor_cipher 2 ((cs_new 0 0 :: (byte, unit) csock)\<lparr>cs_isSecure := True, cs_recvbuffer := pp\<rparr>))
     (\<lambda>(received, _). Inr received)))) = Inr [[3], [0]]"
  by code_simp

text \<open>
  Closing is final and happens once: a second \<open>Close\<close> changes nothing, and after the first no
  message is accepted, no read is started and no timer is set.
\<close>

theorem Close_final:
  "Close (Close cs) = Close cs \<and> Send crypt m (Close cs) = Inr (Close cs)
   \<and> StartRecv crypt h (Close cs) = Inr (Close cs) \<and> SetTimeout cb (Close cs) = Close cs
   \<and> cs_timer (Close (cs\<lparr>cs_initiateClose := False\<rparr>)) = None
   \<and> view (Close cs) = sk_Close (view cs)"
proof -
  have c: "cs_initiateClose (Close cs)" by simp
  then show ?thesis
    by (simp add: Close_def [of "Close cs"] Send_def Send_check_def StartRecv_def SetTimeout_def)
      (simp add: Close_def DoClose_def CancelTimeout_def Let_def)
qed

end
