(* ===== verification/Streams.thy ===== *)
theory Streams
  imports ClientSocket Decimal
begin

text \<open>
  The streams below a connection: \<open>network/MyTCPClient.cpp\<close>, \<open>network/MyTCPTLSClient.cpp\<close>, \<open>network/MyWebsocketClient.cpp\<close> and
  \<open>network/MyWebsocketTLSClient.cpp\<close>, with \<open>Connect\<close> of \<open>network/MyClientSocket.cpp\<close>: how a client tries the addresses of a server one after
  the other, how an accepted socket is prepared, what is read, and closing.

  Boost is seen through the operation that is pending and the error code of its completion. A \<open>boost::system::error_code\<close> is
  its value and its message and has failed when the value is not 0. \<open>peer\<close> is \<open>remote_endpoint\<close>, which throws when the socket is
  not connected; \<open>sni\<close> says whether \<open>SSL_set_tlsext_host_name\<close> accepts a name. \<open>cn_handled\<close> records the calls of the handler, and \<open>cn_tried\<close> is a
  ghost: the addresses that a connection was tried to.
\<close>

section \<open>State\<close>

type_synonym boost_code = "int \<times> string"
type_synonym endpoint = "string \<times> int"

definition failed :: "boost_code \<Rightarrow> bool" where
  "failed ec = (fst ec \<noteq> 0)"

datatype conn_op = Tcp_connect endpoint | Tls_handshake | Ws_handshake string

record conn =
  cn_Address :: string
  cn_Port :: int
  cn_DomainStr :: string
  cn_endpoints :: "endpoint list"
  cn_pending :: "conn_op option"
  cn_tcp_open :: bool
  cn_ws_open :: bool
  cn_handled :: "error_code list"
  cn_tried :: "endpoint list"

definition calls_handler :: "error_code \<Rightarrow> conn \<Rightarrow> conn" where
  "calls_handler ec c = c\<lparr>cn_handled := cn_handled c @ [ec]\<rparr>"

text \<open>The constructors: the address is that of the peer when there is one, as for an accepted socket.\<close>

definition new_conn :: "endpoint option \<Rightarrow> conn" where
  "new_conn ep =
     \<lparr>cn_Address = (case ep of None \<Rightarrow> [] | Some (a, p) \<Rightarrow> a), cn_Port = (case ep of None \<Rightarrow> 0 | Some (a, p) \<Rightarrow> p), cn_DomainStr = [],
      cn_endpoints = [], cn_pending = None, cn_tcp_open = (ep \<noteq> None), cn_ws_open = False, cn_handled = [], cn_tried = []\<rparr>"

section \<open>Connecting\<close>

text \<open>The branch of \<open>Connect_Handle\<close> for a failure: the next address, or the handler when there is none.\<close>

definition next_endpoint :: "error_code \<Rightarrow> conn \<Rightarrow> conn" where
  "next_endpoint last_ec c = (case cn_endpoints c of
       [] \<Rightarrow> calls_handler last_ec c
     | ep # eps \<Rightarrow> c\<lparr>cn_endpoints := eps, cn_tcp_open := True, cn_pending := Some (Tcp_connect ep), cn_tried := cn_tried c @ [ep]\<rparr>)"

text \<open>The endpoint that is connected now.\<close>

definition remote_endpoint :: "(endpoint \<Rightarrow> endpoint option) \<Rightarrow> conn \<Rightarrow> endpoint result" where
  "remote_endpoint peer c = (case peer (last (cn_tried c)) of None \<Rightarrow> Inl (Runtime_error ''remote_endpoint'') | Some ep \<Rightarrow> Inr ep)"

definition set_remote :: "endpoint \<Rightarrow> conn \<Rightarrow> conn" where
  "set_remote ep c = c\<lparr>cn_Address := fst ep, cn_Port := snd ep\<rparr>"

definition cn_ToString :: "conn \<Rightarrow> string" where
  "cn_ToString c = cn_Address c @ '':'' @ to_string_int (cn_Port c)"

definition tcp_Connect_Handle :: "(endpoint \<Rightarrow> endpoint option) \<Rightarrow> boost_code \<Rightarrow> conn \<Rightarrow> conn result" where
  "tcp_Connect_Handle peer ec c =
     (if \<not> failed ec then bind_result (remote_endpoint peer c) (\<lambda>ep. Inr (calls_handler (ErrorCode_boost ec) (set_remote ep c)))
      else Inr (next_endpoint (ErrorCode_custom ERR_CONNECTION_CLOSED) c))"

definition tls_Connect_Handle :: "(endpoint \<Rightarrow> endpoint option) \<Rightarrow> boost_code \<Rightarrow> conn \<Rightarrow> conn result" where
  "tls_Connect_Handle peer ec c =
     (if \<not> failed ec then bind_result (remote_endpoint peer c) (\<lambda>ep. Inr ((set_remote ep c)\<lparr>cn_pending := Some Tls_handshake\<rparr>))
      else Inr (next_endpoint (ErrorCode_custom ERR_CONNECTION_CLOSED) c))"

definition tls_handshaked :: "(endpoint \<Rightarrow> endpoint option) \<Rightarrow> boost_code \<Rightarrow> conn \<Rightarrow> conn result" where
  "tls_handshaked peer ec c =
     (if failed ec then tls_Connect_Handle peer ec c else Inr (calls_handler (ErrorCode_boost ec) c))"

definition ws_Connect_Handle :: "(endpoint \<Rightarrow> endpoint option) \<Rightarrow> boost_code \<Rightarrow> conn \<Rightarrow> conn result" where
  "ws_Connect_Handle peer ec c =
     (if \<not> failed ec then
        (let c = c\<lparr>cn_DomainStr := cn_ToString c\<rparr>
         in bind_result (remote_endpoint peer c) (\<lambda>ep. Inr ((set_remote ep c)\<lparr>cn_pending := Some (Ws_handshake (cn_DomainStr c))\<rparr>)))
      else Inr (next_endpoint (ErrorCode_custom ERR_CONNECTION_CLOSED) c))"

definition ws_handshaked :: "(endpoint \<Rightarrow> endpoint option) \<Rightarrow> boost_code \<Rightarrow> conn \<Rightarrow> conn result" where
  "ws_handshaked peer ec c =
     (if failed ec then ws_Connect_Handle peer ec c
      else Inr (calls_handler (ErrorCode_boost ec) (c\<lparr>cn_ws_open := True\<rparr>)))"

definition wtls_Connect_Handle :: "(endpoint \<Rightarrow> endpoint option) \<Rightarrow> (string \<Rightarrow> bool) \<Rightarrow> boost_code \<Rightarrow> conn \<Rightarrow> conn result" where
  "wtls_Connect_Handle peer sni ec c =
     (if \<not> failed ec then
        (let c = c\<lparr>cn_DomainStr := cn_ToString c\<rparr>
         in bind_result (remote_endpoint peer c) (\<lambda>ep.
              if \<not> sni (cn_DomainStr c) then Inl (StackTraceExcept ''SSL_set_tlsext_host_name'')
              else Inr ((set_remote ep c)\<lparr>cn_pending := Some Tls_handshake\<rparr>)))
      else Inr (next_endpoint (ErrorCode_boost ec) c))"

definition wtls_tls_handshaked :: "(endpoint \<Rightarrow> endpoint option) \<Rightarrow> (string \<Rightarrow> bool) \<Rightarrow> boost_code \<Rightarrow> conn \<Rightarrow> conn result" where
  "wtls_tls_handshaked peer sni ec c =
     (if failed ec then wtls_Connect_Handle peer sni ec c else Inr (c\<lparr>cn_pending := Some (Ws_handshake (cn_DomainStr c))\<rparr>))"

definition wtls_ws_handshaked :: "(endpoint \<Rightarrow> endpoint option) \<Rightarrow> (string \<Rightarrow> bool) \<Rightarrow> boost_code \<Rightarrow> conn \<Rightarrow> conn result" where
  "wtls_ws_handshaked peer sni ec c =
     (if failed ec then wtls_Connect_Handle peer sni ec c
      else Inr (calls_handler (ErrorCode_boost ec) (c\<lparr>cn_ws_open := True\<rparr>)))"

text \<open>The completion of the operation \<open>op\<close> with the code \<open>ec\<close>, for each class.\<close>

datatype stream_kind = TCPClient | TCPTLSClient | WebsocketClient | WebsocketTLSClient

definition Connect_Handle :: "stream_kind \<Rightarrow> (endpoint \<Rightarrow> endpoint option) \<Rightarrow> (string \<Rightarrow> bool) \<Rightarrow> boost_code \<Rightarrow> conn \<Rightarrow> conn result" where
  "Connect_Handle K peer sni = (case K of
       TCPClient \<Rightarrow> tcp_Connect_Handle peer | TCPTLSClient \<Rightarrow> tls_Connect_Handle peer
     | WebsocketClient \<Rightarrow> ws_Connect_Handle peer | WebsocketTLSClient \<Rightarrow> wtls_Connect_Handle peer sni)"

definition completed :: "stream_kind \<Rightarrow> (endpoint \<Rightarrow> endpoint option) \<Rightarrow> (string \<Rightarrow> bool) \<Rightarrow> conn_op \<Rightarrow> boost_code \<Rightarrow> conn \<Rightarrow> conn result" where
  "completed K peer sni op = (case op of
       Tcp_connect _ \<Rightarrow> Connect_Handle K peer sni
     | Tls_handshake \<Rightarrow> (if K = WebsocketTLSClient then wtls_tls_handshaked peer sni else tls_handshaked peer)
     | Ws_handshake _ \<Rightarrow> (if K = WebsocketTLSClient then wtls_ws_handshaked peer sni else ws_handshaked peer))"

definition cn_is_open :: "conn \<Rightarrow> bool" where
  "cn_is_open c = cn_tcp_open c"

definition cn_isReadable :: "stream_kind \<Rightarrow> conn \<Rightarrow> bool" where
  "cn_isReadable K c = (if K \<in> {TCPClient, TCPTLSClient} then cn_is_open c else cn_ws_open c)"

text \<open>\<open>resolved\<close> is what the resolver gives. The first call of \<open>Connect_Handle\<close> pretends a refused connection.\<close>

definition Connect ::
  "stream_kind \<Rightarrow> (endpoint \<Rightarrow> endpoint option) \<Rightarrow> (string \<Rightarrow> bool) \<Rightarrow> boost_code \<Rightarrow> string + endpoint list \<Rightarrow> string \<Rightarrow> int \<Rightarrow> conn \<Rightarrow> conn result" where
  "Connect K peer sni refused resolved addr port c =
     (if cn_is_open c then Inr c
      else case resolved of
             Inl msg \<Rightarrow> Inl (StackTraceExcept msg)
           | Inr results \<Rightarrow>
               Connect_Handle K peer sni refused (c\<lparr>cn_Address := addr, cn_Port := port, cn_endpoints := results, cn_tried := []\<rparr>))"

text \<open>The completions that follow, until nothing is pending: \<open>net\<close> gives their codes. \<open>None\<close> is to be out of fuel.\<close>

fun drive :: "(conn_op \<Rightarrow> boost_code \<Rightarrow> conn \<Rightarrow> conn result) \<Rightarrow> (conn \<Rightarrow> conn_op \<Rightarrow> boost_code) \<Rightarrow> nat \<Rightarrow> conn \<Rightarrow> conn result option" where
  "drive complete net fuel c = (case cn_pending c of
       None \<Rightarrow> Some (Inr c)
     | Some op \<Rightarrow>
         (case fuel of
            0 \<Rightarrow> None
          | Suc n \<Rightarrow>
              (case complete op (net c op) (c\<lparr>cn_pending := None\<rparr>) of
                 Inl e \<Rightarrow> Some (Inl e)
               | Inr c' \<Rightarrow> drive complete net n c')))"

declare drive.simps [simp del]

section \<open>The contract of a stream\<close>

text \<open>
  What \<open>MyClientSocket\<close> expects of the classes of its streams: a failure takes the next address, or reports a failure to the handler when
  there is none; a success finishes or starts an operation of a lower rank on the same address.
\<close>

definition quiet :: "conn \<Rightarrow> conn \<Rightarrow> bool" where
  "quiet c c' \<longleftrightarrow> cn_endpoints c' = cn_endpoints c \<and> cn_tried c' = cn_tried c \<and> cn_tcp_open c' = cn_tcp_open c"

locale stream =
  fixes complete :: "conn_op \<Rightarrow> boost_code \<Rightarrow> conn \<Rightarrow> conn result"
    and uses :: "conn_op \<Rightarrow> bool"
    and rank :: "conn_op \<Rightarrow> nat"
    and peer :: "endpoint \<Rightarrow> endpoint option"
    and readable :: "conn \<Rightarrow> bool"
  assumes rank_pos: "0 < rank op" and rank_connect: "rank op \<le> rank (Tcp_connect ep)" and connects: "uses (Tcp_connect ep)"
    and try_next: "failed ec \<Longrightarrow> cn_endpoints c = ep # eps \<Longrightarrow> \<exists>last_ec. complete op ec c = Inr (next_endpoint last_ec c)"
    and give_up: "failed ec \<Longrightarrow> cn_endpoints c = [] \<Longrightarrow> \<exists>e. complete op ec c = Inr (calls_handler e c) \<and> \<not> ec_isSuccessed e"
    and succeed: "\<not> failed ec \<Longrightarrow> uses op \<Longrightarrow> cn_tried c \<noteq> [] \<Longrightarrow> cn_tcp_open c \<Longrightarrow> cn_pending c = None \<Longrightarrow> peer (last (cn_tried c)) = Some (a, p) \<Longrightarrow>
      (\<forall>ep. op \<noteq> Tcp_connect ep) \<longrightarrow> (cn_Address c, cn_Port c) = (a, p) \<Longrightarrow>
      \<exists>c'. complete op ec c = Inr c' \<and> quiet c c' \<and> (cn_Address c', cn_Port c') = (a, p) \<and>
        (cn_handled c' = cn_handled c \<and> (\<exists>op'. cn_pending c' = Some op' \<and> uses op' \<and> rank op' < rank op \<and> (\<forall>ep. op' \<noteq> Tcp_connect ep)) \<or>
         (\<exists>e. cn_handled c' = cn_handled c @ [e] \<and> ec_isSuccessed e) \<and> cn_pending c' = None \<and> readable c')"
begin

text \<open>An address is being tried.\<close>

definition underway :: "conn_op \<Rightarrow> conn \<Rightarrow> bool" where
  "underway op c \<longleftrightarrow> cn_pending c = Some op \<and> uses op \<and> cn_tcp_open c \<and> cn_tried c \<noteq> [] \<and>
     ((\<forall>ep. op \<noteq> Tcp_connect ep) \<longrightarrow> peer (last (cn_tried c)) = Some (cn_Address c, cn_Port c))"

text \<open>The handler has been called once, with the result of the last attempt.\<close>

definition answered :: "conn \<Rightarrow> conn \<Rightarrow> bool" where
  "answered c c' \<longleftrightarrow> cn_pending c' = None \<and>
     (\<exists>e. cn_handled c' = cn_handled c @ [e] \<and> cn_tried c' @ cn_endpoints c' = cn_tried c @ cn_endpoints c \<and>
       (if ec_isSuccessed e then readable c' \<and> cn_tried c' \<noteq> [] \<and> peer (last (cn_tried c')) = Some (cn_Address c', cn_Port c')
        else cn_endpoints c' = []))"

definition steps :: "conn_op \<Rightarrow> conn \<Rightarrow> nat" where
  "steps op c = rank op + rank (Tcp_connect ([], 0)) * length (cn_endpoints c)"

lemma rank_connect_eq: "rank (Tcp_connect ep) = rank (Tcp_connect ep')"
  by (simp add: antisym rank_connect)

lemma answered_trans:
  "answered c1 c' \<Longrightarrow> cn_handled c1 = cn_handled c \<Longrightarrow> cn_tried c1 @ cn_endpoints c1 = cn_tried c @ cn_endpoints c \<Longrightarrow> answered c c'"
  by (simp add: answered_def)

lemma one_step:
  assumes "underway op c" "\<forall>ep\<in>set (cn_tried c @ cn_endpoints c). peer ep \<noteq> None"
  shows "\<exists>c'. complete op ec (c\<lparr>cn_pending := None\<rparr>) = Inr c' \<and>
    (answered c c' \<or> cn_handled c' = cn_handled c \<and> cn_tried c' @ cn_endpoints c' = cn_tried c @ cn_endpoints c \<and>
      (\<exists>op'. underway op' c' \<and> steps op' c' < steps op c))"
proof (cases "failed ec")
  case True
  let ?c = "c\<lparr>cn_pending := None\<rparr>"
  show ?thesis
  proof (cases "cn_endpoints c")
    case Nil
    then obtain e where "complete op ec ?c = Inr (calls_handler e ?c)" "\<not> ec_isSuccessed e"
      using give_up [OF True, of ?c op] by auto
    with Nil show ?thesis by (auto simp: answered_def calls_handler_def)
  next
    case (Cons ep eps)
    then obtain l where l: "complete op ec ?c = Inr (next_endpoint l ?c)" using try_next [OF True, of ?c ep eps op] by auto
    have "underway (Tcp_connect ep) (next_endpoint l ?c)" using Cons by (simp add: underway_def next_endpoint_def connects)
    moreover have "steps (Tcp_connect ep) (next_endpoint l ?c) < steps op c"
      using Cons rank_pos [of op] by (simp add: steps_def next_endpoint_def rank_connect_eq [of ep "([], 0)"])
    ultimately show ?thesis using l Cons by (auto simp: next_endpoint_def)
  qed
next
  case False
  let ?c = "c\<lparr>cn_pending := None\<rparr>"
  have "last (cn_tried c) \<in> set (cn_tried c @ cn_endpoints c)" using assms(1) by (simp add: underway_def)
  with assms(2) obtain a p where ap: "peer (last (cn_tried c)) = Some (a, p)" by fastforce
  then obtain c' where c': "complete op ec ?c = Inr c'" "quiet ?c c'" "(cn_Address c', cn_Port c') = (a, p)"
    "cn_handled c' = cn_handled c \<and> (\<exists>op'. cn_pending c' = Some op' \<and> uses op' \<and> rank op' < rank op \<and> (\<forall>ep. op' \<noteq> Tcp_connect ep)) \<or>
     (\<exists>e. cn_handled c' = cn_handled c @ [e] \<and> ec_isSuccessed e) \<and> cn_pending c' = None \<and> readable c'"
    using succeed [OF False, of op ?c a p] assms(1) by (auto simp: underway_def)
  then show ?thesis
    using assms(1) ap by (auto simp: quiet_def answered_def underway_def steps_def)
qed

lemma drive_answers:
  assumes "underway op c" "\<forall>ep\<in>set (cn_tried c @ cn_endpoints c). peer ep \<noteq> None" "steps op c \<le> fuel"
  shows "\<exists>c'. drive complete net fuel c = Some (Inr c') \<and> answered c c'"
  using assms
proof (induction fuel arbitrary: op c)
  case 0
  then show ?case using rank_pos [of op] by (simp add: steps_def)
next
  case (Suc n)
  have p: "cn_pending c = Some op" using Suc.prems(1) by (simp add: underway_def)
  obtain c1 where c1: "complete op (net c op) (c\<lparr>cn_pending := None\<rparr>) = Inr c1"
    "answered c c1 \<or> cn_handled c1 = cn_handled c \<and> cn_tried c1 @ cn_endpoints c1 = cn_tried c @ cn_endpoints c \<and>
      (\<exists>op'. underway op' c1 \<and> steps op' c1 < steps op c)"
    using one_step [OF Suc.prems(1,2)] by blast
  have d: "drive complete net (Suc n) c = drive complete net n c1" by (subst drive.simps) (simp add: p c1(1))
  from c1(2) show ?case
  proof (elim disjE conjE exE)
    assume "answered c c1"
    then show ?thesis using d by (subst (asm) (2) drive.simps) (simp add: answered_def)
  next
    fix op' assume h: "cn_handled c1 = cn_handled c" "cn_tried c1 @ cn_endpoints c1 = cn_tried c @ cn_endpoints c"
      and u: "underway op' c1" "steps op' c1 < steps op c"
    then obtain c' where "drive complete net n c1 = Some (Inr c')" "answered c1 c'"
      using Suc.IH [OF u(1)] Suc.prems(2,3) by fastforce
    then show ?thesis using d answered_trans h by metis
  qed
qed

end

section \<open>The four classes\<close>

lemmas handle_defs = tcp_Connect_Handle_def tls_Connect_Handle_def ws_Connect_Handle_def wtls_Connect_Handle_def
  tls_handshaked_def ws_handshaked_def wtls_tls_handshaked_def wtls_ws_handshaked_def Connect_Handle_def

text \<open>The operations that a class has: a TLS handshake and a handshake of the web socket come after the connection, in this order.\<close>

definition conn_rank :: "conn_op \<Rightarrow> nat" where
  "conn_rank op = (case op of Tcp_connect _ \<Rightarrow> 3 | Tls_handshake \<Rightarrow> 2 | Ws_handshake _ \<Rightarrow> 1)"

lemma failed_code: "failed ec \<Longrightarrow> \<not> ec_isSuccessed (ErrorCode_boost ec)"
  by (simp add: failed_def ec_isSuccessed_def ErrorCode_boost_def)

lemma passed_code: "\<not> failed ec \<Longrightarrow> ec_isSuccessed (ErrorCode_boost ec)"
  by (simp add: failed_def ec_isSuccessed_def ErrorCode_boost_def)

lemma completed_failed:
  assumes "failed ec"
  shows "\<exists>e. completed K peer sni op ec c = Inr (next_endpoint e c) \<and> \<not> ec_isSuccessed e"
  using assms failed_code [OF assms]
  by (cases K; cases op) (auto simp: completed_def handle_defs)

definition conn_uses :: "stream_kind \<Rightarrow> conn_op \<Rightarrow> bool" where
  "conn_uses K op = (case op of
       Tcp_connect _ \<Rightarrow> True
     | Tls_handshake \<Rightarrow> K \<in> {TCPTLSClient, WebsocketTLSClient}
     | Ws_handshake _ \<Rightarrow> K \<in> {WebsocketClient, WebsocketTLSClient})"

lemma completed_passed:
  assumes "\<not> failed ec" "conn_uses K op" "cn_tcp_open c" "cn_pending c = None" "peer (last (cn_tried c)) = Some (a, p)" "\<And>s. sni s"
    and "(\<forall>ep. op \<noteq> Tcp_connect ep) \<longrightarrow> (cn_Address c, cn_Port c) = (a, p)"
  shows "\<exists>c'. completed K peer sni op ec c = Inr c' \<and> quiet c c' \<and> (cn_Address c', cn_Port c') = (a, p) \<and>
      (cn_handled c' = cn_handled c \<and> (\<exists>op'. cn_pending c' = Some op' \<and> conn_uses K op' \<and> conn_rank op' < conn_rank op \<and> (\<forall>ep. op' \<noteq> Tcp_connect ep)) \<or>
       (\<exists>e. cn_handled c' = cn_handled c @ [e] \<and> ec_isSuccessed e) \<and> cn_pending c' = None \<and> cn_isReadable K c')"
  using assms passed_code [OF assms(1)]
  by (cases K; cases op)
    (auto simp: completed_def handle_defs conn_uses_def conn_rank_def quiet_def remote_endpoint_def set_remote_def calls_handler_def
      cn_isReadable_def cn_is_open_def Let_def)

lemma stream_completed:
  assumes "\<And>s. sni s"
  shows "stream (completed K peer sni) (conn_uses K) conn_rank peer (cn_isReadable K)"
proof
  show "0 < conn_rank op" "conn_rank op \<le> conn_rank (Tcp_connect ep)" "conn_uses K (Tcp_connect ep)" for op ep
    by (simp_all add: conn_rank_def conn_uses_def split: conn_op.split)
next
  fix ec ep eps op and c :: conn assume "failed ec" "cn_endpoints c = ep # eps"
  then show "\<exists>last_ec. completed K peer sni op ec c = Inr (next_endpoint last_ec c)" using completed_failed by blast
next
  fix ec op and c :: conn assume "failed ec" "cn_endpoints c = []"
  then show "\<exists>e. completed K peer sni op ec c = Inr (calls_handler e c) \<and> \<not> ec_isSuccessed e"
    using completed_failed [of ec K peer sni op c] by (auto simp: next_endpoint_def)
qed (rule completed_passed; use assms in blast)

text \<open>A name that \<open>SSL_set_tlsext_host_name\<close> refuses ends the attempt with an exception; the interpretations are for accepted names.\<close>

interpretation streams: stream "completed K peer (\<lambda>_. True)" "conn_uses K" conn_rank peer "cn_isReadable K" for K peer
  by (rule stream_completed) simp

section \<open>Connecting to a server\<close>



section \<open>Accepted sockets\<close>

text \<open>\<open>Prepare\<close>: the operation that is pending first, and what its completion gives, the next operation or a call of the handler.\<close>

datatype prep_op = Wait_read | Tls_accept | Ws_accept
datatype prep = Preparing prep_op | Prepared error_code

definition tcp_Prepare :: prep where "tcp_Prepare = Preparing Wait_read"
definition tls_Prepare :: prep where "tls_Prepare = Preparing Tls_accept"
definition ws_Prepare :: prep where "ws_Prepare = Preparing Ws_accept"
definition wtls_Prepare :: prep where "wtls_Prepare = Preparing Tls_accept"

definition tcp_waited :: "boost_code \<Rightarrow> prep" where
  "tcp_waited ec = Prepared (if failed ec then ErrorCode_boost ec else ErrorCode_custom SUCCESS)"

definition tls_accepted :: "boost_code \<Rightarrow> prep" where
  "tls_accepted ec = Prepared (ErrorCode_boost ec)"

definition ws_accepted :: "boost_code \<Rightarrow> prep" where
  "ws_accepted ec = Prepared (ErrorCode_boost ec)"

definition wtls_tls_accepted :: "boost_code \<Rightarrow> prep" where
  "wtls_tls_accepted ec = (if failed ec then Prepared (ErrorCode_boost ec) else Preparing Ws_accept)"

definition wtls_ws_accepted :: "boost_code \<Rightarrow> prep" where
  "wtls_ws_accepted ec = Prepared (ErrorCode_boost ec)"

definition Prepare :: "stream_kind \<Rightarrow> prep" where
  "Prepare K = (case K of TCPClient \<Rightarrow> tcp_Prepare | TCPTLSClient \<Rightarrow> tls_Prepare | WebsocketClient \<Rightarrow> ws_Prepare | WebsocketTLSClient \<Rightarrow> wtls_Prepare)"

definition prepared :: "stream_kind \<Rightarrow> prep_op \<Rightarrow> boost_code \<Rightarrow> prep" where
  "prepared K op ec = (case op of
       Wait_read \<Rightarrow> tcp_waited ec
     | Tls_accept \<Rightarrow> (if K = WebsocketTLSClient then wtls_tls_accepted ec else tls_accepted ec)
     | Ws_accept \<Rightarrow> (if K = WebsocketTLSClient then wtls_ws_accepted ec else ws_accepted ec))"

lemmas prepare_defs = Prepare_def prepared_def tcp_Prepare_def tls_Prepare_def ws_Prepare_def wtls_Prepare_def
  tcp_waited_def tls_accepted_def ws_accepted_def wtls_tls_accepted_def wtls_ws_accepted_def

section \<open>Reading and closing\<close>

text \<open>
  \<open>GetRecv\<close> of the web sockets: \<open>buf\<close> is the buffer after a read of \<open>bytes_written\<close> bytes, \<open>binary\<close> says whether the frame was binary. The whole
  buffer is handed over and the bytes of this read are taken out of it.
\<close>

definition ws_GetRecv :: "bool \<Rightarrow> byte list \<Rightarrow> nat \<Rightarrow> ('k, 'cb) csock \<Rightarrow> (byte list \<times> ('k, 'cb) csock) result" where
  "ws_GetRecv binary buf bytes_written cs =
     (if bytes_written > 0 then
        (if \<not> binary then Inl (StackTraceExcept ''Protocol Violation'')
         else bind_result (PacketProcessor.Recv buf (cs_recvbuffer cs)) (\<lambda>pp. Inr (drop bytes_written buf, cs\<lparr>cs_recvbuffer := pp\<rparr>)))
      else Inr (buf, cs))"

text \<open>The reads of a web socket, one binary frame after the other into the same buffer.\<close>

fun ws_reads :: "byte list list \<Rightarrow> byte list \<Rightarrow> ('k, 'cb) csock \<Rightarrow> (byte list \<times> ('k, 'cb) csock) result" where
  "ws_reads [] buf cs = Inr (buf, cs)"
| "ws_reads (f # fs) buf cs = bind_result (ws_GetRecv True (buf @ f) (length f) cs) (\<lambda>(buf, cs). ws_reads fs buf cs)"

fun tcp_reads :: "byte list list \<Rightarrow> ('k, 'cb) csock \<Rightarrow> ('k, 'cb) csock result" where
  "tcp_reads [] cs = Inr cs"
| "tcp_reads (f # fs) cs = bind_result (if f = [] then Inr cs else GetRecv f cs) (tcp_reads fs)"

text \<open>A binary frame is taken as the same bytes of a TCP stream would be, and nothing stays in the buffer.\<close>

lemma ws_reads_tcp:
  assumes "\<forall>f\<in>set fs. length f \<le> BUF_SIZE"
  shows "ws_reads fs [] cs = bind_result (tcp_reads fs cs) (\<lambda>cs. Inr ([], cs))"
  using assms
proof (induction fs arbitrary: cs)
  case (Cons f fs)
  then have "ws_GetRecv True f (length f) cs = bind_result (if f = [] then Inr cs else GetRecv f cs) (\<lambda>cs. Inr ([], cs))"
    by (simp add: ws_GetRecv_def GetRecv_def bind_result_def split: sum.split)
  with Cons show ?case
    by (cases "if f = [] then Inr cs else GetRecv f cs") (simp_all add: bind_result_def)
qed (simp add: bind_result_def)

text \<open>The stream after the completion of \<open>DoClose\<close>: \<open>MyTCPTLSClient\<close> only shuts TLS down.\<close>

definition cn_closed :: "stream_kind \<Rightarrow> conn \<Rightarrow> conn" where
  "cn_closed K c = (case K of
       TCPClient \<Rightarrow> c\<lparr>cn_tcp_open := False\<rparr>
     | TCPTLSClient \<Rightarrow> c
     | _ \<Rightarrow> c\<lparr>cn_tcp_open := False, cn_ws_open := False\<rparr>)"

lemma closed_unreadable: "cn_isReadable K (cn_closed K c) \<longleftrightarrow> K = TCPTLSClient \<and> cn_is_open c"
  by (cases K) (simp_all add: cn_isReadable_def cn_closed_def cn_is_open_def)

text \<open>
  When the handshake of the web socket fails on one address and the next is tried, the host name of the second handshake is built from
  \<open>Address\<close>, which by then holds the address of the first peer and not the name that \<open>Connect\<close> was given.
\<close>

lemma retry_names_first_peer:
  assumes "failed ec" "\<not> failed ok" "cn_endpoints c = ep # eps" "peer ep = Some q"
  shows "\<exists>c'. bind_result (ws_handshaked peer ec c) (ws_Connect_Handle peer ok) = Inr c' \<and> cn_pending c' = Some (Ws_handshake (cn_ToString c))"
  using assms
  by (simp add: ws_handshaked_def ws_Connect_Handle_def next_endpoint_def remote_endpoint_def set_remote_def cn_ToString_def Let_def)

end
