(* ===== verification/Redis.thy ===== *)
theory Redis
  imports Decimal Encoder Codes
begin

text \<open>
  The session store of the servers: \<open>redis/MyRedis.cpp\<close>. Under \<open>cookie:\<close>\<^emph>\<open>cookie\<close> it keeps the account
  and the server of a session, under \<open>account:\<close>\<^emph>\<open>id\<close> the cookie. The Redis server and its client library
  are a parameter \<open>srv\<close>: it gets a pipeline of commands and the state of the server and gives a reply
  (or \<open>None\<close> when \<open>redisGetReply\<close> fails) for each, the error of the connection and the new state. What is
  relied on is \<open>redis_ok\<close> below: the documented meaning of the nine commands in use. The mutex makes a
  pipeline of this client atomic.
\<close>

section \<open>Replies and the connection\<close>

datatype reply = Reply (r_type: int) (r_integer: int) (r_str: string) (r_elements: "reply list")

abbreviation (input) REDIS_REPLY_STRING :: int where "REDIS_REPLY_STRING \<equiv> 1"
abbreviation (input) REDIS_REPLY_ARRAY :: int where "REDIS_REPLY_ARRAY \<equiv> 2"
abbreviation (input) REDIS_REPLY_INTEGER :: int where "REDIS_REPLY_INTEGER \<equiv> 3"
abbreviation (input) REDIS_REPLY_NIL :: int where "REDIS_REPLY_NIL \<equiv> 4"
abbreviation (input) REDIS_REPLY_STATUS :: int where "REDIS_REPLY_STATUS \<equiv> 5"
abbreviation (input) REDIS_REPLY_ERROR :: int where "REDIS_REPLY_ERROR \<equiv> 6"

text \<open>\<open>rd_ctx\<close> is the error number and text of the context, \<open>None\<close> for a null context.\<close>

record 'r redis =
  rd_ctx :: "(int \<times> string) option"
  rd_timeoutStr :: string
  rd_server :: 'r

type_synonym 'r pipeline = "string list \<Rightarrow> 'r \<Rightarrow> reply option list \<times> (int \<times> string) \<times> 'r"

definition MyRedis :: "int \<Rightarrow> 'r \<Rightarrow> 'r redis" where
  "MyRedis timeout r = \<lparr>rd_ctx = None, rd_timeoutStr = to_string_int timeout, rd_server = r\<rparr>"

definition rd_GetErrorCode :: "int \<Rightarrow> string \<Rightarrow> error_code" where
  "rd_GetErrorCode code msg = SetMessage (''(MyRedis)'' @ msg) (ErrorCode_errno (\<lambda>_. []) code)"

definition rd_ctx_error :: "'r redis \<Rightarrow> error_code" where
  "rd_ctx_error rd = (case rd_ctx rd of Some (e, s) \<Rightarrow> rd_GetErrorCode e s | None \<Rightarrow> rd_GetErrorCode 0 [])"

definition rd_Close :: "'r redis \<Rightarrow> 'r redis" where
  "rd_Close rd = (case rd_ctx rd of None \<Rightarrow> rd | Some _ \<Rightarrow> rd\<lparr>rd_ctx := None\<rparr>)"

text \<open>\<open>ctx\<close> is what \<open>redisConnectWithOptions\<close> returns.\<close>

definition rd_Connect :: "(int \<times> string) option \<Rightarrow> 'r redis \<Rightarrow> error_code \<times> 'r redis" where
  "rd_Connect ctx rd =
     (let rd = rd_Close rd;
          rd = rd\<lparr>rd_ctx := ctx\<rparr>
      in case ctx of
           None \<Rightarrow> (ErrorCode_custom ERR_CONNECTION_CLOSED, rd)
         | Some (e, s) \<Rightarrow> if e \<noteq> 0 then (rd_GetErrorCode e s, rd) else (ErrorCode_custom SUCCESS, rd))"

definition rd_is_open :: "'r redis \<Rightarrow> bool" where
  "rd_is_open rd = (case rd_ctx rd of None \<Rightarrow> False | Some (e, _) \<Rightarrow> e = 0)"

definition Query :: "'r pipeline \<Rightarrow> string list \<Rightarrow> 'r redis \<Rightarrow> reply list \<times> 'r redis" where
  "Query srv queries rd =
     (if \<not> rd_is_open rd \<or> length queries \<le> 0 then ([], rd)
      else
        (let (rs, err, r) = srv queries (rd_server rd);
             rd = rd\<lparr>rd_ctx := Some err, rd_server := r\<rparr>
         in if None \<in> set rs then ([], rd) else (map the rs, rd)))"

section \<open>Sessions\<close>

definition cookieStr :: "Hash_t \<Rightarrow> string" where
  "cookieStr cookie = EncodeBase64 cookie"

definition idstr :: "Account_ID_t \<Rightarrow> string" where
  "idstr i = to_string_nat (unat i)"

text \<open>The command texts that the queries are built from.\<close>

definition c_lrange :: "string \<Rightarrow> string" where
  "c_lrange c = ''LRANGE cookie:'' @ c @ '' 0 1''"

definition c_del_cookie :: "string \<Rightarrow> string" where
  "c_del_cookie c = ''DEL cookie:'' @ c"

definition c_del_account :: "string \<Rightarrow> string" where
  "c_del_account i = ''DEL account:'' @ i"

definition c_get :: "string \<Rightarrow> string" where
  "c_get i = ''GET account:'' @ i"

definition c_watch_cookie :: "string \<Rightarrow> string" where
  "c_watch_cookie c = ''WATCH cookie:'' @ c"

definition c_watch_account :: "string \<Rightarrow> string" where
  "c_watch_account i = ''WATCH account:'' @ i"

definition c_pexpire_cookie :: "string \<Rightarrow> string \<Rightarrow> string" where
  "c_pexpire_cookie c t = ''PEXPIRE cookie:'' @ c @ '' '' @ t"

definition c_pexpire_account :: "string \<Rightarrow> string \<Rightarrow> string" where
  "c_pexpire_account i t = ''PEXPIRE account:'' @ i @ '' '' @ t"

definition c_rpush :: "string \<Rightarrow> string \<Rightarrow> string \<Rightarrow> string" where
  "c_rpush c i n = ''RPUSH cookie:'' @ c @ '' '' @ i @ '' '' @ n"

definition c_set :: "string \<Rightarrow> string \<Rightarrow> string \<Rightarrow> string" where
  "c_set i c t = ''SET account:'' @ i @ '' '' @ c @ '' PX '' @ t"

definition SetInfo :: "'r pipeline \<Rightarrow> Account_ID_t \<Rightarrow> Hash_t \<Rightarrow> string \<Rightarrow> 'r redis \<Rightarrow> error_code \<times> 'r redis" where
  "SetInfo srv i cookie serverName rd =
     (if \<not> rd_is_open rd then (ErrorCode_custom ERR_CONNECTION_CLOSED, rd)
      else
        (let c = cookieStr cookie;
             (replies, rd) = Query srv
               [''MULTI'',
                c_del_cookie c,
                c_rpush c (idstr i) serverName,
                c_pexpire_cookie c (rd_timeoutStr rd),
                c_set (idstr i) c (rd_timeoutStr rd),
                ''EXEC''] rd
         in if length replies \<le> 0 then (rd_ctx_error rd, rd) else (ErrorCode_custom SUCCESS, rd)))"

text \<open>
  \<open>RefreshInfo\<close> and \<open>ClearInfo\<close> first verify the session by one pipeline and then act by another one. The
  verification they share is a definition of its own; between the two the store may change.
\<close>

definition verify_info :: "'r pipeline \<Rightarrow> Account_ID_t \<Rightarrow> Hash_t \<Rightarrow> string \<Rightarrow> 'r redis \<Rightarrow> bool \<times> 'r redis" where
  "verify_info srv i cookie serverName rd =
     (if \<not> rd_is_open rd then (False, rd)
      else
        (let (replies, rd) = Query srv [c_lrange (cookieStr cookie)] rd
         in (if length replies < 1 then False
             else if length (r_elements (replies ! 0)) < 2 then False
             else if r_str (r_elements (replies ! 0) ! 0) \<noteq> idstr i then False
             else if r_str (r_elements (replies ! 0) ! 1) \<noteq> serverName then False
             else True, rd)))"

definition exec_both :: "reply list \<Rightarrow> string list \<Rightarrow> bool" where
  "exec_both replies query =
     (if length replies < length query then False
      else
        (let pos = length query - 1
         in if r_type (replies ! pos) \<noteq> REDIS_REPLY_ARRAY then False
            else if length (r_elements (replies ! pos)) < 2 then False
            else if r_integer (r_elements (replies ! pos) ! 0) < 1 then False
            else if r_integer (r_elements (replies ! pos) ! 1) < 1 then False
            else True))"

definition refresh_query :: "'r redis \<Rightarrow> Account_ID_t \<Rightarrow> Hash_t \<Rightarrow> string list" where
  "refresh_query rd i cookie =
     [c_watch_cookie (cookieStr cookie),
      c_watch_account (idstr i),
      ''MULTI'',
      c_pexpire_cookie (cookieStr cookie) (rd_timeoutStr rd),
      c_pexpire_account (idstr i) (rd_timeoutStr rd),
      ''EXEC'']"

definition RefreshInfo :: "'r pipeline \<Rightarrow> Account_ID_t \<Rightarrow> Hash_t \<Rightarrow> string \<Rightarrow> 'r redis \<Rightarrow> bool \<times> 'r redis" where
  "RefreshInfo srv i cookie serverName rd =
     (let (ok, rd) = verify_info srv i cookie serverName rd
      in if \<not> ok then (False, rd)
         else
           (let query = refresh_query rd i cookie;
                (replies, rd) = Query srv query rd
            in (exec_both replies query, rd)))"

definition clear_query :: "Account_ID_t \<Rightarrow> Hash_t \<Rightarrow> string list" where
  "clear_query i cookie =
     [c_watch_cookie (cookieStr cookie),
      c_watch_account (idstr i),
      ''MULTI'',
      c_del_cookie (cookieStr cookie),
      c_del_account (idstr i),
      ''EXEC'']"

definition clear_delete :: "'r pipeline \<Rightarrow> Account_ID_t \<Rightarrow> Hash_t \<Rightarrow> 'r redis \<Rightarrow> bool \<times> 'r redis" where
  "clear_delete srv i cookie rd =
     (let (replies, rd) = Query srv (clear_query i cookie) rd
      in (exec_both replies (clear_query i cookie), rd))"

definition ClearInfo :: "'r pipeline \<Rightarrow> Account_ID_t \<Rightarrow> Hash_t \<Rightarrow> string \<Rightarrow> 'r redis \<Rightarrow> bool \<times> 'r redis" where
  "ClearInfo srv i cookie serverName rd =
     (let (ok, rd) = verify_info srv i cookie serverName rd
      in if \<not> ok then (False, rd) else clear_delete srv i cookie rd)"

definition touch_query :: "'r redis \<Rightarrow> string \<Rightarrow> string \<Rightarrow> string list" where
  "touch_query rd i c =
     [''MULTI'',
      c_pexpire_account i (rd_timeoutStr rd),
      c_pexpire_cookie c (rd_timeoutStr rd),
      ''EXEC'',
      c_lrange c]"

text \<open>\<open>DecodeBase64\<close> may throw; copying 32 bytes out of a shorter vector is undefined.\<close>

definition GetInfoFromID ::
  "'r pipeline \<Rightarrow> Account_ID_t \<Rightarrow> 'r redis \<Rightarrow> ((error_code + Hash_t \<times> string) \<times> 'r redis) result" where
  "GetInfoFromID srv i rd =
     (if \<not> rd_is_open rd then Inr (Inl (ErrorCode_custom ERR_CONNECTION_CLOSED), rd)
      else
        (let (replies, rd) = Query srv [c_get (idstr i)] rd
         in if length replies < 1 then Inr (Inl (rd_ctx_error rd), rd)
            else if r_type (replies ! 0) \<noteq> REDIS_REPLY_STRING then Inr (Inl (ErrorCode_custom ERR_NO_MATCH_ACCOUNT), rd)
            else
              (let c = r_str (replies ! 0)
               in bind_result (DecodeBase64 c) (\<lambda>vec.
                    if length vec < 32 then Inl (Undefined ''copy_n past the end'')
                    else
                      (let cookie = take 32 vec;
                           query = touch_query rd (idstr i) c;
                           (replies, rd) = Query srv query rd
                       in if length replies < length query then Inr (Inl (rd_ctx_error rd), rd)
                          else
                            (let pos = length query - 1
                             in if length (r_elements (replies ! pos)) < 2
                                then Inr (Inl (ErrorCode_custom ERR_NO_MATCH_ACCOUNT), rd)
                                else Inr (Inr (cookie, r_str (r_elements (replies ! pos) ! 1)), rd)))))))"

definition GetInfoFromCookie ::
  "'r pipeline \<Rightarrow> Hash_t \<Rightarrow> 'r redis \<Rightarrow> ((error_code + Account_ID_t \<times> string) \<times> 'r redis) result" where
  "GetInfoFromCookie srv cookie rd =
     (if \<not> rd_is_open rd then Inr (Inl (ErrorCode_custom ERR_CONNECTION_CLOSED), rd)
      else
        (let c = cookieStr cookie;
             (replies, rd) = Query srv [c_lrange c] rd
         in if length replies < 1 then Inr (Inl (rd_ctx_error rd), rd)
            else if r_type (replies ! 0) \<noteq> REDIS_REPLY_ARRAY \<or> length (r_elements (replies ! 0)) < 2
                 then Inr (Inl (ErrorCode_custom ERR_NO_MATCH_ACCOUNT), rd)
            else
              (let i = r_str (r_elements (replies ! 0) ! 0);
                   query = touch_query rd i c;
                   (replies, rd) = Query srv query rd
               in if length replies < length query then Inr (Inl (rd_ctx_error rd), rd)
                  else
                    (let pos = length query - 1
                     in if r_type (replies ! pos) \<noteq> REDIS_REPLY_ARRAY \<or> length (r_elements (replies ! pos)) < 2
                        then Inr (Inl (ErrorCode_custom ERR_NO_MATCH_ACCOUNT), rd)
                        else bind_result (stoull (r_str (r_elements (replies ! pos) ! 0)))
                               (\<lambda>n. Inr (Inr (n, r_str (r_elements (replies ! pos) ! 1)), rd))))))"

section \<open>What is relied on of the server\<close>

text \<open>
  The documented meaning of the commands in use, on a store from keys to strings and lists: \<open>DEL\<close> and
  \<open>PEXPIRE\<close> answer 1 when the key was there and 0 otherwise, \<open>RPUSH\<close> appends, \<open>SET\<close> overwrites, \<open>LRANGE\<close> \<open>0 1\<close>
  gives up to two elements (none for a missing key), \<open>GET\<close> a string or nil, and the commands between
  \<open>MULTI\<close> and \<open>EXEC\<close> run at once, with the array of their replies as the reply of \<open>EXEC\<close>. Time is not
  part of it: an entry that expires is a change of the store between two pipelines.
\<close>

datatype rvalue = RStr string | RList "string list"

type_synonym rstore = "string \<Rightarrow> rvalue option"

fun words_acc :: "string \<Rightarrow> string \<Rightarrow> string list" where
  "words_acc cur [] = [cur]"
| "words_acc cur (c # s) = (if c = CHR '' '' then cur # words_acc [] s else words_acc (cur @ [c]) s)"

definition words :: "string \<Rightarrow> string list" where
  "words s = words_acc [] s"

definition r_int :: "int \<Rightarrow> reply" where
  "r_int n = Reply REDIS_REPLY_INTEGER n [] []"

definition r_status :: "string \<Rightarrow> reply" where
  "r_status s = Reply REDIS_REPLY_STATUS 0 s []"

definition r_range :: "rvalue option \<Rightarrow> reply" where
  "r_range v = (case v of
       None \<Rightarrow> Reply REDIS_REPLY_ARRAY 0 [] []
     | Some (RList xs) \<Rightarrow> Reply REDIS_REPLY_ARRAY 0 [] (map (\<lambda>x. Reply REDIS_REPLY_STRING 0 x []) (take 2 xs))
     | Some (RStr _) \<Rightarrow> Reply REDIS_REPLY_ERROR 0 ''WRONGTYPE'' [])"

definition rcmd :: "string list \<Rightarrow> rstore \<Rightarrow> reply \<times> rstore" where
  "rcmd ws s = (case ws of
       [c, k] \<Rightarrow>
         if c = ''DEL'' then (r_int (if s k = None then 0 else 1), s(k := None))
         else if c = ''GET'' then
           (case s k of None \<Rightarrow> Reply REDIS_REPLY_NIL 0 [] []
                      | Some (RStr v) \<Rightarrow> Reply REDIS_REPLY_STRING 0 v []
                      | Some (RList _) \<Rightarrow> Reply REDIS_REPLY_ERROR 0 ''WRONGTYPE'' [], s)
         else (Reply REDIS_REPLY_ERROR 0 [] [], s)
     | [c, k, t] \<Rightarrow>
         if c = ''PEXPIRE'' then (r_int (if s k = None then 0 else 1), s)
         else (Reply REDIS_REPLY_ERROR 0 [] [], s)
     | [c, k, a, b] \<Rightarrow>
         if c = ''LRANGE'' \<and> a = ''0'' \<and> b = ''1'' then (r_range (s k), s)
         else if c = ''RPUSH'' then
           (case s k of None \<Rightarrow> (r_int 2, s(k \<mapsto> RList [a, b]))
                      | Some (RList xs) \<Rightarrow> (r_int (int (length xs) + 2), s(k \<mapsto> RList (xs @ [a, b])))
                      | Some (RStr _) \<Rightarrow> (Reply REDIS_REPLY_ERROR 0 ''WRONGTYPE'' [], s))
         else (Reply REDIS_REPLY_ERROR 0 [] [], s)
     | [c, k, v, px, t] \<Rightarrow>
         if c = ''SET'' \<and> px = ''PX'' then (r_status ''OK'', s(k \<mapsto> RStr v))
         else (Reply REDIS_REPLY_ERROR 0 [] [], s)
     | _ \<Rightarrow> (Reply REDIS_REPLY_ERROR 0 [] [], s))"

fun rexec :: "string list list \<Rightarrow> rstore \<Rightarrow> reply list \<times> rstore" where
  "rexec [] s = ([], s)"
| "rexec (c # cs) s = (let (r, s) = rcmd c s; (rs, s) = rexec cs s in (r # rs, s))"

fun rrun :: "string list list \<Rightarrow> string list list option \<Rightarrow> rstore \<Rightarrow> reply list \<times> rstore" where
  "rrun [] q s = ([], s)"
| "rrun (c # cs) q s =
     (if c = [''MULTI''] then (let (rs, s) = rrun cs (Some []) s in (r_status ''OK'' # rs, s))
      else if c = [''EXEC''] then
        (let (es, s) = rexec (case q of None \<Rightarrow> [] | Some w \<Rightarrow> w) s;
             (rs, s) = rrun cs None s
         in (Reply REDIS_REPLY_ARRAY 0 [] es # rs, s))
      else if hd c = ''WATCH'' then (let (rs, s) = rrun cs q s in (r_status ''OK'' # rs, s))
      else (case q of
              Some w \<Rightarrow> (let (rs, s) = rrun cs (Some (w @ [c])) s in (r_status ''QUEUED'' # rs, s))
            | None \<Rightarrow> (let (r, s) = rcmd c s; (rs, s) = rrun cs None s in (r # rs, s))))"

definition redis_ok :: "'r pipeline \<Rightarrow> ('r \<Rightarrow> rstore) \<Rightarrow> bool" where
  "redis_ok srv store \<longleftrightarrow>
     (\<forall>qs r. \<exists>r'. srv qs r = (map Some (fst (rrun (map words qs) None (store r))), (0, []), r')
        \<and> store r' = snd (rrun (map words qs) None (store r)))"

definition ref_redis :: "rstore pipeline" where
  "ref_redis qs s = (map Some (fst (rrun (map words qs) None s)), (0, []), snd (rrun (map words qs) None s))"

lemma redis_ok_ref: "redis_ok ref_redis id"
  by (simp add: redis_ok_def ref_redis_def)

section \<open>Command texts\<close>

definition nospace :: "string \<Rightarrow> bool" where
  "nospace s = (CHR '' '' \<notin> set s)"

lemma words_acc_append [simp]: "nospace a \<Longrightarrow> words_acc cur (a @ s) = words_acc (cur @ a) s"
  by (induction a arbitrary: cur) (auto simp: nospace_def)

lemma words_acc_end [simp]: "nospace a \<Longrightarrow> words_acc cur a = [cur @ a]"
  using words_acc_append [of a cur "[]"] by simp

lemma space_charset: "CHR '' '' \<notin> set charset"
  by code_simp

lemma nospace_cookieStr [simp]: "nospace (cookieStr c)"
  using set_encode3 [of c] space_charset by (auto simp: nospace_def cookieStr_def EncodeBase64_encode3)

lemma nospace_digits: "nospace (digits n)"
proof -
  have "CHR '' '' \<noteq> digit k" if "k < 10" for k
    using digit_props [OF that] by (auto simp: is_space_def)
  then show ?thesis using digits_all [of "CHR '' ''" n] by (auto simp: nospace_def)
qed

lemma nospace_idstr [simp]: "nospace (idstr i)"
  by (simp add: idstr_def to_string_nat_def nospace_digits)

lemma cookieStr_inject [simp]: "cookieStr a = cookieStr b \<longleftrightarrow> a = b"
  by (simp add: cookieStr_def base64.encode_inject)

lemma idstr_inject [simp]: "idstr a = idstr b \<longleftrightarrow> a = b"
  by (simp add: idstr_def to_string_nat_def digits_inject) (metis word_unat_eq_iff)

lemma stoull_idstr [simp]: "stoull (idstr i) = Inr i"
  by (simp add: idstr_def stoull_to_string)

definition cookie_key :: "Hash_t \<Rightarrow> string" where
  "cookie_key c = ''cookie:'' @ cookieStr c"

definition account_key :: "Account_ID_t \<Rightarrow> string" where
  "account_key i = ''account:'' @ idstr i"

lemma keys_simps [simp]:
  "cookie_key a = cookie_key b \<longleftrightarrow> a = b" "account_key i = account_key j \<longleftrightarrow> i = j"
  "cookie_key a \<noteq> account_key i" "account_key i \<noteq> cookie_key a"
  by (simp_all add: cookie_key_def account_key_def)

lemma command_words [simp]:
  "words (c_lrange (cookieStr c)) = [''LRANGE'', cookie_key c, ''0'', ''1'']"
  "words (c_del_cookie (cookieStr c)) = [''DEL'', cookie_key c]"
  "words (c_del_account (idstr i)) = [''DEL'', account_key i]"
  "words (c_get (idstr i)) = [''GET'', account_key i]"
  "words (c_watch_cookie (cookieStr c)) = [''WATCH'', cookie_key c]"
  "words (c_watch_account (idstr i)) = [''WATCH'', account_key i]"
  "nospace t \<Longrightarrow> words (c_pexpire_cookie (cookieStr c) t) = [''PEXPIRE'', cookie_key c, t]"
  "nospace t \<Longrightarrow> words (c_pexpire_account (idstr i) t) = [''PEXPIRE'', account_key i, t]"
  "nospace n \<Longrightarrow> words (c_rpush (cookieStr c) (idstr i) n) = [''RPUSH'', cookie_key c, idstr i, n]"
  "nospace t \<Longrightarrow> words (c_set (idstr i) (cookieStr c) t) = [''SET'', account_key i, cookieStr c, ''PX'', t]"
  "words ''MULTI'' = [''MULTI'']" "words ''EXEC'' = [''EXEC'']"
  by (simp_all add: words_def cookie_key_def account_key_def c_lrange_def c_del_cookie_def c_del_account_def c_get_def
      c_watch_cookie_def c_watch_account_def c_pexpire_cookie_def c_pexpire_account_def c_rpush_def c_set_def)

definition present :: "rvalue option \<Rightarrow> reply" where
  "present v = r_int (if v = None then 0 else 1)"

lemma pipelines:
  "rrun [[''LRANGE'', k, ''0'', ''1'']] None s = ([r_range (s k)], s)"
  "rrun [[''GET'', k]] None s = ([case s k of None \<Rightarrow> Reply REDIS_REPLY_NIL 0 [] []
      | Some (RStr v) \<Rightarrow> Reply REDIS_REPLY_STRING 0 v [] | Some (RList _) \<Rightarrow> Reply REDIS_REPLY_ERROR 0 ''WRONGTYPE'' []], s)"
  "\<exists>rs. length rs = 5 \<and> rrun [[''WATCH'', a], [''WATCH'', b], [''MULTI''], [''PEXPIRE'', a, t], [''PEXPIRE'', b, t], [''EXEC'']] None s
     = (rs @ [Reply REDIS_REPLY_ARRAY 0 [] [present (s a), present (s b)]], s)"
  "\<exists>rs. length rs = 5 \<and> rrun [[''WATCH'', a], [''WATCH'', b], [''MULTI''], [''DEL'', a], [''DEL'', b], [''EXEC'']] None s
     = (rs @ [Reply REDIS_REPLY_ARRAY 0 [] [present (s a), present ((s(a := None)) b)]], s(a := None, b := None))"
  "\<exists>rs. length rs = 4 \<and> rrun [[''MULTI''], [''PEXPIRE'', b, t], [''PEXPIRE'', a, t], [''EXEC''], [''LRANGE'', a, ''0'', ''1'']] None s
     = (rs @ [r_range (s a)], s)"
  "\<exists>rs. length rs = 6 \<and> rrun [[''MULTI''], [''DEL'', a], [''RPUSH'', a, x, y], [''PEXPIRE'', a, t], [''SET'', b, v, ''PX'', t], [''EXEC'']] None s
     = (rs, s(a \<mapsto> RList [x, y], b \<mapsto> RStr v))"
  by (simp_all add: rcmd_def present_def)

section \<open>The operations on a server that is up\<close>

definition redis_up :: "'r pipeline \<Rightarrow> ('r \<Rightarrow> rstore) \<Rightarrow> 'r redis \<Rightarrow> bool" where
  "redis_up srv store rd \<longleftrightarrow> redis_ok srv store \<and> rd_is_open rd \<and> nospace (rd_timeoutStr rd)"

lemma Query_up:
  assumes "redis_up srv store rd" "qs \<noteq> []"
  obtains rd' where "Query srv qs rd = (fst (rrun (map words qs) None (store (rd_server rd))), rd')"
    "store (rd_server rd') = snd (rrun (map words qs) None (store (rd_server rd)))" "redis_up srv store rd'"
    "rd_timeoutStr rd' = rd_timeoutStr rd"
proof -
  obtain r' where r': "srv qs (rd_server rd) = (map Some (fst (rrun (map words qs) None (store (rd_server rd)))), (0, []), r')"
    "store r' = snd (rrun (map words qs) None (store (rd_server rd)))"
    using assms(1) unfolding redis_up_def redis_ok_def by blast
  have "None \<notin> set (map Some xs)" for xs :: "reply list" by auto
  moreover have "map (\<lambda>x. the (Some x)) xs = xs" for xs :: "reply list" by simp
  ultimately show thesis
    using assms r' by (intro that [of "rd\<lparr>rd_ctx := Some (0, []), rd_server := r'\<rparr>"])
      (auto simp: Query_def redis_up_def rd_is_open_def comp_def)
qed

definition has_session :: "rstore \<Rightarrow> Account_ID_t \<Rightarrow> Hash_t \<Rightarrow> string \<Rightarrow> bool" where
  "has_session s i c n \<longleftrightarrow> (\<exists>r. s (cookie_key c) = Some (RList (idstr i # n # r)))"

lemma r_range_elements:
  "r_elements (r_range v) = (case v of Some (RList xs) \<Rightarrow> map (\<lambda>x. Reply REDIS_REPLY_STRING 0 x []) (take 2 xs) | _ \<Rightarrow> [])"
  by (auto simp: r_range_def split: option.splits rvalue.splits)

lemma r_range_two:
  "length (r_elements (r_range v)) < 2 \<or> (\<exists>x y r. v = Some (RList (x # y # r)))"
proof (cases v)
  case (Some w)
  then show ?thesis
  proof (cases w)
    case (RList xs)
    with Some show ?thesis by (cases xs; cases "tl xs") (auto simp: r_range_elements)
  qed (simp add: r_range_elements)
qed (simp add: r_range_elements)

lemma r_range_list:
  "r_range (Some (RList (x # y # r))) =
     Reply REDIS_REPLY_ARRAY 0 [] [Reply REDIS_REPLY_STRING 0 x [], Reply REDIS_REPLY_STRING 0 y []]"
  by (simp add: r_range_def)

text \<open>The two keys of a session as \<open>SetInfo\<close> writes them.\<close>

abbreviation (input) put_session :: "Account_ID_t \<Rightarrow> Hash_t \<Rightarrow> string \<Rightarrow> rstore \<Rightarrow> rstore" where
  "put_session i c n s \<equiv> s(cookie_key c \<mapsto> RList [idstr i, n], account_key i \<mapsto> RStr (cookieStr c))"

lemma SetInfo_up:
  assumes "redis_up srv store rd" "nospace n"
  obtains rd' where "SetInfo srv i c n rd = (ErrorCode_custom SUCCESS, rd')" "redis_up srv store rd'"
    "store (rd_server rd') = (store (rd_server rd))(cookie_key c \<mapsto> RList [idstr i, n], account_key i \<mapsto> RStr (cookieStr c))"
proof -
  let ?q = "[''MULTI'', c_del_cookie (cookieStr c), c_rpush (cookieStr c) (idstr i) n,
    c_pexpire_cookie (cookieStr c) (rd_timeoutStr rd), c_set (idstr i) (cookieStr c) (rd_timeoutStr rd), ''EXEC'']"
  have t: "nospace (rd_timeoutStr rd)" "rd_is_open rd" using assms(1) by (simp_all add: redis_up_def)
  obtain rs where rs: "length rs = 6" "rrun (map words ?q) None (store (rd_server rd)) = (rs,
      (store (rd_server rd))(cookie_key c \<mapsto> RList [idstr i, n], account_key i \<mapsto> RStr (cookieStr c)))"
    using pipelines(6) [of "cookie_key c" "idstr i" n "rd_timeoutStr rd" "account_key i" "cookieStr c" "store (rd_server rd)"] t assms(2)
    by auto
  obtain rd' where q: "Query srv ?q rd = (rs, rd')" "redis_up srv store rd'"
    "store (rd_server rd') = (store (rd_server rd))(cookie_key c \<mapsto> RList [idstr i, n], account_key i \<mapsto> RStr (cookieStr c))"
    using Query_up [OF assms(1), of ?q] rs(2) by (metis fst_conv list.distinct(1) snd_conv)
  have "SetInfo srv i c n rd = (ErrorCode_custom SUCCESS, rd')"
    using rs(1) t(2) q(1) by (auto simp: SetInfo_def Let_def)
  with q show thesis by (intro that)
qed

lemma verify_info_up:
  assumes "redis_up srv store rd"
  obtains rd' where "verify_info srv i c n rd = (has_session (store (rd_server rd)) i c n, rd')"
    "redis_up srv store rd'" "store (rd_server rd') = store (rd_server rd)" "rd_timeoutStr rd' = rd_timeoutStr rd"
proof -
  let ?v = "store (rd_server rd) (cookie_key c)"
  obtain rd' where q: "Query srv [c_lrange (cookieStr c)] rd = ([r_range ?v], rd')" "redis_up srv store rd'"
    "store (rd_server rd') = store (rd_server rd)" "rd_timeoutStr rd' = rd_timeoutStr rd"
    using Query_up [OF assms, of "[c_lrange (cookieStr c)]"] pipelines(1) [of "cookie_key c" "store (rd_server rd)"]
    by (metis command_words(1) fst_conv list.distinct(1) list.simps(8,9) snd_conv)
  have "verify_info srv i c n rd = (has_session (store (rd_server rd)) i c n, rd')"
  proof (cases "\<exists>x y r. ?v = Some (RList (x # y # r))")
    case True
    with assms show ?thesis
      by (auto simp: verify_info_def q(1) redis_up_def has_session_def r_range_list)
  next
    case False
    then have "length (r_elements (r_range ?v)) < 2" "\<not> has_session (store (rd_server rd)) i c n"
      using r_range_two [of ?v] by (auto simp: has_session_def)
    with assms show ?thesis by (simp add: verify_info_def q(1) redis_up_def)
  qed
  with q show thesis by (intro that)
qed

text \<open>What the second pipeline of \<open>RefreshInfo\<close> and of \<open>ClearInfo\<close> answers, and what it does.\<close>

lemma refresh_up:
  assumes "redis_up srv store rd"
  obtains rd' where "Query srv (refresh_query rd i c) rd = (fst (Query srv (refresh_query rd i c) rd), rd')"
    "exec_both (fst (Query srv (refresh_query rd i c) rd)) (refresh_query rd i c) =
       (store (rd_server rd) (cookie_key c) \<noteq> None \<and> store (rd_server rd) (account_key i) \<noteq> None)"
    "redis_up srv store rd'" "store (rd_server rd') = store (rd_server rd)"
proof -
  have t: "nospace (rd_timeoutStr rd)" using assms by (simp add: redis_up_def)
  obtain rs where rs: "length rs = 5" "rrun (map words (refresh_query rd i c)) None (store (rd_server rd)) =
      (rs @ [Reply REDIS_REPLY_ARRAY 0 [] [present (store (rd_server rd) (cookie_key c)),
                present (store (rd_server rd) (account_key i))]], store (rd_server rd))"
    using pipelines(3) [of "cookie_key c" "account_key i" "rd_timeoutStr rd" "store (rd_server rd)"] t
    by (auto simp: refresh_query_def)
  have "refresh_query rd i c \<noteq> []" by (simp add: refresh_query_def)
  from Query_up [OF assms this] rs(2) obtain rd' where
    "Query srv (refresh_query rd i c) rd = (rs @ [Reply REDIS_REPLY_ARRAY 0 []
       [present (store (rd_server rd) (cookie_key c)), present (store (rd_server rd) (account_key i))]], rd')"
    "redis_up srv store rd'" "store (rd_server rd') = store (rd_server rd)"
    by (metis fst_conv snd_conv)
  with rs(1) show thesis
    by (intro that [of rd']) (auto simp: exec_both_def refresh_query_def present_def r_int_def nth_append)
qed

lemma clear_delete_up:
  assumes "redis_up srv store rd"
  obtains rd' where "clear_delete srv i c rd =
      (store (rd_server rd) (cookie_key c) \<noteq> None \<and> store (rd_server rd) (account_key i) \<noteq> None, rd')"
    "redis_up srv store rd'" "store (rd_server rd') = (store (rd_server rd))(cookie_key c := None, account_key i := None)"
proof -
  let ?s = "store (rd_server rd)"
  obtain rs where rs: "length rs = 5" "rrun (map words (clear_query i c)) None ?s =
      (rs @ [Reply REDIS_REPLY_ARRAY 0 [] [present (?s (cookie_key c)), present (?s (account_key i))]],
       ?s(cookie_key c := None, account_key i := None))"
    using pipelines(4) [of "cookie_key c" "account_key i" ?s] by (auto simp: clear_query_def)
  have "clear_query i c \<noteq> []" by (simp add: clear_query_def)
  from Query_up [OF assms this] rs(2) obtain rd' where
    "Query srv (clear_query i c) rd =
       (rs @ [Reply REDIS_REPLY_ARRAY 0 [] [present (?s (cookie_key c)), present (?s (account_key i))]], rd')"
    "redis_up srv store rd'" "store (rd_server rd') = ?s(cookie_key c := None, account_key i := None)"
    by (metis fst_conv snd_conv)
  with rs(1) show thesis
    by (intro that [of rd']) (auto simp: clear_delete_def exec_both_def clear_query_def present_def r_int_def nth_append)
qed

lemma touch_up:
  assumes "redis_up srv store rd"
  obtains rs rd' where "Query srv (touch_query rd (idstr i) (cookieStr c)) rd = (rs @ [r_range (store (rd_server rd) (cookie_key c))], rd')"
    "length rs = 4" "redis_up srv store rd'" "store (rd_server rd') = store (rd_server rd)"
proof -
  let ?s = "store (rd_server rd)"
  have t: "nospace (rd_timeoutStr rd)" using assms by (simp add: redis_up_def)
  obtain rs where rs: "length rs = 4" "rrun (map words (touch_query rd (idstr i) (cookieStr c))) None ?s = (rs @ [r_range (?s (cookie_key c))], ?s)"
    using pipelines(5) [of "account_key i" "rd_timeoutStr rd" "cookie_key c" ?s] t by (auto simp: touch_query_def)
  have "touch_query rd (idstr i) (cookieStr c) \<noteq> []" by (simp add: touch_query_def)
  from Query_up [OF assms this] rs show thesis
    by (metis fst_conv snd_conv that)
qed

section \<open>The interface of the servers\<close>

lemma RefreshInfo_up:
  assumes "redis_up srv store rd"
  obtains rd' where "RefreshInfo srv i c n rd =
      (has_session (store (rd_server rd)) i c n \<and> store (rd_server rd) (account_key i) \<noteq> None, rd')"
    "redis_up srv store rd'" "store (rd_server rd') = store (rd_server rd)"
proof -
  obtain rd1 where v: "verify_info srv i c n rd = (has_session (store (rd_server rd)) i c n, rd1)"
    "redis_up srv store rd1" "store (rd_server rd1) = store (rd_server rd)"
    using verify_info_up [OF assms] by metis
  obtain rd2 where r: "Query srv (refresh_query rd1 i c) rd1 = (fst (Query srv (refresh_query rd1 i c) rd1), rd2)"
    "exec_both (fst (Query srv (refresh_query rd1 i c) rd1)) (refresh_query rd1 i c) =
       (store (rd_server rd) (cookie_key c) \<noteq> None \<and> store (rd_server rd) (account_key i) \<noteq> None)"
    "redis_up srv store rd2" "store (rd_server rd2) = store (rd_server rd)"
    using refresh_up [OF v(2), of i c] v(3) by metis
  show thesis
  proof (cases "has_session (store (rd_server rd)) i c n")
    case True
    then have "RefreshInfo srv i c n rd = (store (rd_server rd) (account_key i) \<noteq> None, rd2)"
      using r(1,2) by (auto simp: RefreshInfo_def v(1) Let_def case_prod_beta has_session_def) (metis snd_conv)+
    with True r show thesis by (intro that [of rd2]) auto
  next
    case False
    with v show thesis by (intro that [of rd1]) (auto simp: RefreshInfo_def)
  qed
qed

lemma ClearInfo_up:
  assumes "redis_up srv store rd"
  obtains rd' where "ClearInfo srv i c n rd =
      (has_session (store (rd_server rd)) i c n \<and> store (rd_server rd) (account_key i) \<noteq> None, rd')"
    "redis_up srv store rd'"
    "store (rd_server rd') = (if has_session (store (rd_server rd)) i c n
       then (store (rd_server rd))(cookie_key c := None, account_key i := None) else store (rd_server rd))"
proof -
  obtain rd1 where v: "verify_info srv i c n rd = (has_session (store (rd_server rd)) i c n, rd1)"
    "redis_up srv store rd1" "store (rd_server rd1) = store (rd_server rd)"
    using verify_info_up [OF assms] by metis
  obtain rd2 where d: "clear_delete srv i c rd1 =
      (store (rd_server rd) (cookie_key c) \<noteq> None \<and> store (rd_server rd) (account_key i) \<noteq> None, rd2)"
    "redis_up srv store rd2" "store (rd_server rd2) = (store (rd_server rd))(cookie_key c := None, account_key i := None)"
    using clear_delete_up [OF v(2), of i c] v(3) by metis
  show thesis
  proof (cases "has_session (store (rd_server rd)) i c n")
    case True
    with d v show thesis by (intro that [of rd2]) (auto simp: ClearInfo_def has_session_def)
  next
    case False
    with v show thesis by (intro that [of rd1]) (auto simp: ClearInfo_def)
  qed
qed

lemma GetInfoFromCookie_up:
  assumes "redis_up srv store rd" "has_session (store (rd_server rd)) i c n"
  obtains rd' where "GetInfoFromCookie srv c rd = Inr (Inr (i, n), rd')" "redis_up srv store rd'"
    "store (rd_server rd') = store (rd_server rd)"
proof -
  let ?v = "store (rd_server rd) (cookie_key c)"
  obtain r where v: "?v = Some (RList (idstr i # n # r))" using assms(2) by (auto simp: has_session_def)
  obtain rd1 where q: "Query srv [c_lrange (cookieStr c)] rd = ([r_range ?v], rd1)" "redis_up srv store rd1"
    "store (rd_server rd1) = store (rd_server rd)"
    using Query_up [OF assms(1), of "[c_lrange (cookieStr c)]"] pipelines(1) [of "cookie_key c" "store (rd_server rd)"]
    by (metis command_words(1) fst_conv list.distinct(1) list.simps(8,9) snd_conv)
  obtain rs rd2 where t: "Query srv (touch_query rd1 (idstr i) (cookieStr c)) rd1 = (rs @ [r_range ?v], rd2)" "length rs = 4"
    "redis_up srv store rd2" "store (rd_server rd2) = store (rd_server rd)"
    using touch_up [OF q(2), of i c] q(3) by metis
  have "length (touch_query rd1 (idstr i) (cookieStr c)) = 5" by (simp add: touch_query_def)
  then have "GetInfoFromCookie srv c rd = Inr (Inr (i, n), rd2)"
    using assms(1) t(1,2) by (simp add: GetInfoFromCookie_def q(1) v r_range_list redis_up_def nth_append Let_def)
  with t show thesis by (intro that)
qed

lemma GetInfoFromCookie_none:
  assumes "redis_up srv store rd" "store (rd_server rd) (cookie_key c) = None"
  obtains rd' where "GetInfoFromCookie srv c rd = Inr (Inl (ErrorCode_custom ERR_NO_MATCH_ACCOUNT), rd')"
    "redis_up srv store rd'" "store (rd_server rd') = store (rd_server rd)"
proof -
  obtain rd1 where q: "Query srv [c_lrange (cookieStr c)] rd = ([r_range None], rd1)" "redis_up srv store rd1"
    "store (rd_server rd1) = store (rd_server rd)"
    using Query_up [OF assms(1), of "[c_lrange (cookieStr c)]"] pipelines(1) [of "cookie_key c" "store (rd_server rd)"] assms(2)
    by (metis command_words(1) fst_conv list.distinct(1) list.simps(8,9) snd_conv)
  with assms show thesis
    by (intro that [of rd1]) (simp_all add: GetInfoFromCookie_def redis_up_def r_range_def)
qed

lemma GetInfoFromID_up:
  assumes "redis_up srv store rd" "store (rd_server rd) (account_key i) = Some (RStr (cookieStr c))"
    "has_session (store (rd_server rd)) j c n" "length c = 32"
  obtains rd' where "GetInfoFromID srv i rd = Inr (Inr (c, n), rd')" "redis_up srv store rd'"
    "store (rd_server rd') = store (rd_server rd)"
proof -
  let ?v = "store (rd_server rd) (cookie_key c)"
  obtain r where v: "?v = Some (RList (idstr j # n # r))" using assms(3) by (auto simp: has_session_def)
  obtain rd1 where q: "Query srv [c_get (idstr i)] rd = ([Reply REDIS_REPLY_STRING 0 (cookieStr c) []], rd1)"
    "redis_up srv store rd1" "store (rd_server rd1) = store (rd_server rd)"
    by (rule Query_up [OF assms(1), of "[c_get (idstr i)]"]) (simp_all add: pipelines(2) assms(2) del: rrun.simps)
  obtain rs rd2 where t: "Query srv (touch_query rd1 (idstr i) (cookieStr c)) rd1 = (rs @ [r_range ?v], rd2)" "length rs = 4"
    "redis_up srv store rd2" "store (rd_server rd2) = store (rd_server rd)"
    using touch_up [OF q(2), of i c] q(3) by metis
  have "length (touch_query rd1 (idstr i) (cookieStr c)) = 5" by (simp add: touch_query_def)
  then have "GetInfoFromID srv i rd = Inr (Inr (c, n), rd2)"
    using assms(1,4) t(1,2)
    by (simp add: GetInfoFromID_def q(1) v r_range_list redis_up_def nth_append Let_def cookieStr_def
        DecodeBase64_EncodeBase64)
  with t show thesis by (intro that)
qed

lemma GetInfoFromID_none:
  assumes "redis_up srv store rd" "store (rd_server rd) (account_key i) = None"
  obtains rd' where "GetInfoFromID srv i rd = Inr (Inl (ErrorCode_custom ERR_NO_MATCH_ACCOUNT), rd')"
    "redis_up srv store rd'" "store (rd_server rd') = store (rd_server rd)"
proof -
  obtain rd1 where q: "Query srv [c_get (idstr i)] rd = ([Reply REDIS_REPLY_NIL 0 [] []], rd1)" "redis_up srv store rd1"
    "store (rd_server rd1) = store (rd_server rd)"
    by (rule Query_up [OF assms(1), of "[c_get (idstr i)]"]) (simp_all add: pipelines(2) assms(2) del: rrun.simps)
  with assms show thesis
    by (intro that [of rd1]) (simp_all add: GetInfoFromID_def redis_up_def)
qed

section \<open>Properties\<close>

text \<open>
  C3. What \<open>SetInfo\<close> writes is what the servers read: with a Redis server that is up and behaves as
  documented, the cookie then gives the account and the server, the account gives the cookie and
  the server, \<open>RefreshInfo\<close> and \<open>ClearInfo\<close> accept exactly this session, and after \<open>ClearInfo\<close> the cookie
  is unknown.
\<close>

theorem session_roundtrip:
  assumes "redis_up srv store rd" "nospace n" "length c = 32"
  shows "\<exists>rd1 rd2 rd3 rd4 rd5 rd6.
     SetInfo srv i c n rd = (ErrorCode_custom SUCCESS, rd1) \<and>
     GetInfoFromCookie srv c rd1 = Inr (Inr (i, n), rd2) \<and>
     GetInfoFromID srv i rd2 = Inr (Inr (c, n), rd3) \<and>
     RefreshInfo srv i c n rd3 = (True, rd4) \<and>
     ClearInfo srv i c n rd4 = (True, rd5) \<and>
     GetInfoFromCookie srv c rd5 = Inr (Inl (ErrorCode_custom ERR_NO_MATCH_ACCOUNT), rd6)"
proof -
  let ?s = "(store (rd_server rd))(cookie_key c \<mapsto> RList [idstr i, n], account_key i \<mapsto> RStr (cookieStr c))"
  have s: "has_session ?s i c n" "?s (account_key i) = Some (RStr (cookieStr c))"
    by (simp_all add: has_session_def)
  obtain rd1 where 1: "SetInfo srv i c n rd = (ErrorCode_custom SUCCESS, rd1)" "redis_up srv store rd1" "store (rd_server rd1) = ?s"
    using SetInfo_up [OF assms(1,2)] by metis
  obtain rd2 where 2: "GetInfoFromCookie srv c rd1 = Inr (Inr (i, n), rd2)" "redis_up srv store rd2" "store (rd_server rd2) = ?s"
    using GetInfoFromCookie_up [OF 1(2)] 1(3) s(1) by metis
  obtain rd3 where 3: "GetInfoFromID srv i rd2 = Inr (Inr (c, n), rd3)" "redis_up srv store rd3" "store (rd_server rd3) = ?s"
    using GetInfoFromID_up [OF 2(2)] 2(3) s assms(3) by metis
  obtain rd4 where 4: "RefreshInfo srv i c n rd3 = (True, rd4)" "redis_up srv store rd4" "store (rd_server rd4) = ?s"
    by (rule RefreshInfo_up [OF 3(2), of i c n]) (simp add: 3(3) s)
  obtain rd5 where 5: "ClearInfo srv i c n rd4 = (True, rd5)" "redis_up srv store rd5"
    "store (rd_server rd5) = ?s(cookie_key c := None, account_key i := None)"
    by (rule ClearInfo_up [OF 4(2), of i c n]) (simp add: 4(3) s)
  obtain rd6 where 6: "GetInfoFromCookie srv c rd5 = Inr (Inl (ErrorCode_custom ERR_NO_MATCH_ACCOUNT), rd6)"
    using GetInfoFromCookie_none [OF 5(2), of c] 5(3) by auto
  from 1 2 3 4 5 6 show ?thesis by blast
qed

abbreviation (input) ref_conn :: "rstore redis" where
  "ref_conn \<equiv> \<lparr>rd_ctx = Some (0, []), rd_timeoutStr = ''60000'', rd_server = (\<lambda>_. None)\<rparr>"

lemma ref_conn_up: "redis_up ref_redis id ref_conn"
  by (simp add: redis_up_def redis_ok_ref rd_is_open_def nospace_def)

theorem session_roundtrip_witness:
  "\<exists>rd1 rd2. SetInfo ref_redis 7 (replicate 32 5) ''match'' ref_conn = (ErrorCode_custom SUCCESS, rd1) \<and>
     GetInfoFromCookie ref_redis (replicate 32 5) rd1 = Inr (Inr (7, ''match''), rd2)"
  using session_roundtrip [OF ref_conn_up, of "''match''" "replicate 32 5" 7] by (auto simp: nospace_def)

text \<open>
  \<open>RefreshInfo\<close> and \<open>ClearInfo\<close> work on precise information only: they answer true exactly when the
  cookie is stored with this account and this server and the account has its entry, \<open>RefreshInfo\<close>
  never changes the data, and \<open>ClearInfo\<close> leaves the store alone unless the session matches.
\<close>

theorem session_precise:
  assumes "redis_up srv store rd"
  shows "\<exists>rd1 rd2. RefreshInfo srv i c n rd =
       (has_session (store (rd_server rd)) i c n \<and> store (rd_server rd) (account_key i) \<noteq> None, rd1)
     \<and> store (rd_server rd1) = store (rd_server rd)
     \<and> ClearInfo srv i c n rd =
       (has_session (store (rd_server rd)) i c n \<and> store (rd_server rd) (account_key i) \<noteq> None, rd2)
     \<and> store (rd_server rd2) = (if has_session (store (rd_server rd)) i c n
          then (store (rd_server rd))(cookie_key c := None, account_key i := None) else store (rd_server rd))"
proof -
  obtain rd1 where "RefreshInfo srv i c n rd =
      (has_session (store (rd_server rd)) i c n \<and> store (rd_server rd) (account_key i) \<noteq> None, rd1)"
    "store (rd_server rd1) = store (rd_server rd)"
    using RefreshInfo_up [OF assms] by metis
  moreover obtain rd2 where "ClearInfo srv i c n rd =
      (has_session (store (rd_server rd)) i c n \<and> store (rd_server rd) (account_key i) \<noteq> None, rd2)"
    "store (rd_server rd2) = (if has_session (store (rd_server rd)) i c n
          then (store (rd_server rd))(cookie_key c := None, account_key i := None) else store (rd_server rd))"
    using ClearInfo_up [OF assms] by metis
  ultimately show ?thesis by blast
qed

theorem session_precise_witness: "\<exists>rd1. RefreshInfo ref_redis 7 (replicate 32 5) ''match'' ref_conn = (False, rd1)"
  using session_precise [OF ref_conn_up, of 7 "replicate 32 5" "''match''"] by (auto simp: has_session_def)

text \<open>
  The verification of \<open>ClearInfo\<close> runs before \<open>WATCH\<close>, so a change in between is not noticed: if another
  server takes the session over after the verification, \<open>ClearInfo\<close> of the old server still deletes
  it and reports success.
\<close>

theorem clear_race:
  assumes "redis_up srv store rd" "has_session (store (rd_server rd)) i c n" "nospace m"
  shows "\<exists>rd1 rd2 rd3. verify_info srv i c n rd = (True, rd1) \<and>
     SetInfo srv i c m rd1 = (ErrorCode_custom SUCCESS, rd2) \<and> has_session (store (rd_server rd2)) i c m \<and>
     clear_delete srv i c rd2 = (True, rd3) \<and> store (rd_server rd3) (cookie_key c) = None"
proof -
  obtain rd1 where 1: "verify_info srv i c n rd = (True, rd1)" "redis_up srv store rd1"
    using verify_info_up [OF assms(1), of i c n] assms(2) by metis
  obtain rd2 where 2: "SetInfo srv i c m rd1 = (ErrorCode_custom SUCCESS, rd2)" "redis_up srv store rd2"
    "store (rd_server rd2) = (store (rd_server rd1))(cookie_key c \<mapsto> RList [idstr i, m], account_key i \<mapsto> RStr (cookieStr c))"
    using SetInfo_up [OF 1(2) assms(3)] by metis
  obtain rd3 where 3: "clear_delete srv i c rd2 = (True, rd3)"
    "store (rd_server rd3) = (store (rd_server rd2))(cookie_key c := None, account_key i := None)"
    using clear_delete_up [OF 2(2), of i c] 2(3) by auto
  from 1 2 3 show ?thesis
    by (intro exI [of _ rd1] exI [of _ rd2] exI [of _ rd3]) (simp add: has_session_def)
qed

theorem clear_race_witness:
  "\<exists>rd1 rd2 rd3. verify_info ref_redis 7 [1] ''match'' (ref_conn\<lparr>rd_server := [cookie_key [1] \<mapsto> RList [idstr 7, ''match'']]\<rparr>) = (True, rd1) \<and>
     SetInfo ref_redis 7 [1] ''battle1'' rd1 = (ErrorCode_custom SUCCESS, rd2) \<and> clear_delete ref_redis 7 [1] rd2 = (True, rd3)"
proof -
  let ?rd = "ref_conn\<lparr>rd_server := [cookie_key [1] \<mapsto> RList [idstr 7, ''match'']]\<rparr>"
  have "redis_up ref_redis id ?rd" by (simp add: redis_up_def redis_ok_ref rd_is_open_def nospace_def)
  moreover have "has_session (id (rd_server ?rd)) 7 [1] ''match''" by (simp add: has_session_def)
  ultimately show ?thesis
    using clear_race [of ref_redis id ?rd 7 "[1]" "''match''" "''battle1''"] by (auto simp: nospace_def)
qed

end
