(* ===== verification/Postgres.thy ===== *)
theory Postgres
  imports ByteQueue Encoder Codes StdMap "HOL-Library.Multiset"
begin

text \<open>
  The database layer: \<open>postgres/MyPostgres.cpp\<close> (accounts, achievements, the battle log) and
  \<open>postgres/MyPostgresPool.cpp\<close> (the pool of connections). PostgreSQL and libpqxx are not code of the
  repository: each SQL statement is a field of the parameter \<open>sql\<close>, a function of the state \<open>'d\<close> of the
  transaction that gives the row, or the exception of libpqxx, and the new state; \<open>sql_end\<close> is the destructor of the
  transaction, and \<open>sql_connect\<close> says what a new connection and a new transaction would give. SHA-256 is the
  parameter \<open>sha\<close>.
\<close>

section \<open>Statements\<close>

datatype pqxx_error =
    Unique_violation | No_data_found | Unexpected_rows | Broken_connection | Usage_error | Sql_error

text \<open>An exception is one of libpqxx or another one.\<close>

datatype db_exn = Pq pqxx_error | Std exn

type_synonym ('d, 'a) stmt = "'d \<Rightarrow> (pqxx_error + 'a) \<times> 'd"

record 'd sql =
  insert_user :: "string \<Rightarrow> string \<Rightarrow> ('d, Account_ID_t \<times> string) stmt"
  update_pwd :: "Account_ID_t \<Rightarrow> string \<Rightarrow> ('d, unit) stmt"
  select_by_email :: "string \<Rightarrow> ('d, Account_ID_t \<times> string \<times> string) stmt"
  select_pwd :: "Account_ID_t \<Rightarrow> ('d, string \<times> string) stmt"
  select_nickname :: "Account_ID_t \<Rightarrow> ('d, Achievement_ID_t) stmt"
  count_battles :: "Account_ID_t \<Rightarrow> ('d, int \<times> int \<times> int) stmt"
  select_achieve :: "Account_ID_t \<Rightarrow> Achievement_ID_t \<Rightarrow> ('d, int \<times> int) stmt"
  select_all_achieve :: "Account_ID_t \<Rightarrow> ('d, (Achievement_ID_t \<times> int) list) stmt"
  update_nickname :: "Account_ID_t \<Rightarrow> Achievement_ID_t \<Rightarrow> ('d, unit) stmt"
  increment_achieve :: "Account_ID_t \<Rightarrow> Achievement_ID_t \<Rightarrow> ('d, unit) stmt"
  set_achieve :: "Account_ID_t \<Rightarrow> Achievement_ID_t \<Rightarrow> int \<Rightarrow> ('d, unit) stmt"
  insert_battle :: "Account_ID_t \<Rightarrow> Account_ID_t \<Rightarrow> int \<Rightarrow> ('d, unit) stmt"
  sql_commit :: "('d, unit) stmt"
  sql_abort :: "('d, unit) stmt"
  sql_end :: "'d \<Rightarrow> 'd"
  sql_connect :: "'d \<Rightarrow> bool option \<times> bool"

type_synonym ('d, 'a) db = "'d \<Rightarrow> (db_exn + 'a) \<times> 'd"

definition db_bind :: "('d, 'a) db \<Rightarrow> ('a \<Rightarrow> ('d, 'b) db) \<Rightarrow> ('d, 'b) db" where
  "db_bind m f d = (case m d of (Inl e, d) \<Rightarrow> (Inl e, d) | (Inr x, d) \<Rightarrow> f x d)"

definition db_return :: "'a \<Rightarrow> ('d, 'a) db" where
  "db_return x d = (Inr x, d)"

definition db_throw :: "db_exn \<Rightarrow> ('d, 'a) db" where
  "db_throw e d = (Inl e, d)"

definition exec :: "('d, 'a) stmt \<Rightarrow> ('d, 'a) db" where
  "exec s d = (case s d of (Inl e, d) \<Rightarrow> (Inl (Pq e), d) | (Inr x, d) \<Rightarrow> (Inr x, d))"

definition db_lift :: "'a result \<Rightarrow> ('d, 'a) db" where
  "db_lift r d = (case r of Inl e \<Rightarrow> (Inl (Std e), d) | Inr x \<Rightarrow> (Inr x, d))"

section \<open>Accounts\<close>

text \<open>
  \<open>GetPwdHash\<close> on a little-endian host: \<open>1 << (id % 17)\<close> rounds of SHA-256 over the digest and the salt,
  with the queue operations of the code.
\<close>

abbreviation (input) MAX_HASH_ITERATION :: nat where "MAX_HASH_ITERATION \<equiv> 17"

definition bytes_of :: "string \<Rightarrow> byte list" where
  "bytes_of s = map of_char s"

definition sha256_queue :: "(byte list \<Rightarrow> byte list) \<Rightarrow> byte_queue \<Rightarrow> byte list" where
  "sha256_queue sha q = sha (take (Size q) (vector q))"

fun hash_rounds :: "(byte list \<Rightarrow> byte list) \<Rightarrow> byte_queue \<Rightarrow> nat \<Rightarrow> byte_queue \<Rightarrow> byte_queue" where
  "hash_rounds sha salt 0 result = result"
| "hash_rounds sha salt (Suc n) result = hash_rounds sha salt n (Create True (sha256_queue sha (bq_add result salt)))"

definition GetPwdHash :: "(byte list \<Rightarrow> byte list) \<Rightarrow> Account_ID_t \<Rightarrow> Hash_t \<Rightarrow> string \<Rightarrow> Hash_t result" where
  "GetPwdHash sha i pwd reg_time =
     (let result = Create True pwd;
          salt = bq_of_buf True (bytes_of reg_time) (length reg_time);
          iterateCount = (2 :: nat) ^ (unat i mod MAX_HASH_ITERATION);
          result = hash_rounds sha salt iterateCount result
      in bind_result (pop_default True SHA256_DIGEST_LENGTH False result) (\<lambda>(h, _). Inr h))"

definition RegisterAccount :: "(byte list \<Rightarrow> byte list) \<Rightarrow> 'd sql \<Rightarrow> string \<Rightarrow> Hash_t \<Rightarrow> ('d, Account_ID_t) db" where
  "RegisterAccount sha sql email pwd =
     db_bind (exec (insert_user sql email ''UnRegistered-temporaryquote'')) (\<lambda>(i, reg_time).
     db_bind (db_lift (GetPwdHash sha i pwd reg_time)) (\<lambda>pwd_hash.
     db_bind (exec (update_pwd sql i (EncodeBase64 pwd_hash))) (\<lambda>_. db_return i)))"

definition decode_hash :: "string \<Rightarrow> ('d, Hash_t) db" where
  "decode_hash encoded =
     db_bind (db_lift (DecodeBase64 encoded)) (\<lambda>decoded.
       if length decoded < 32 then db_throw (Std (StackTraceExcept ''Hash in DB size doesn't match''))
       else db_return (take 32 decoded))"

definition FindAccount :: "(byte list \<Rightarrow> byte list) \<Rightarrow> 'd sql \<Rightarrow> string \<Rightarrow> Hash_t \<Rightarrow> ('d, Account_ID_t) db" where
  "FindAccount sha sql email pwd =
     db_bind (exec (select_by_email sql email)) (\<lambda>(i, encoded, reg_time).
     db_bind (decode_hash encoded) (\<lambda>answer.
     db_bind (db_lift (GetPwdHash sha i pwd reg_time)) (\<lambda>pwd_hash.
       db_return (if pwd_hash = answer then i else 0))))"

definition ChangePwd ::
  "(byte list \<Rightarrow> byte list) \<Rightarrow> 'd sql \<Rightarrow> Account_ID_t \<Rightarrow> Hash_t \<Rightarrow> Hash_t \<Rightarrow> ('d, bool) db" where
  "ChangePwd sha sql i old_pwd new_pwd =
     db_bind (exec (select_pwd sql i)) (\<lambda>(encoded, reg_time).
     db_bind (decode_hash encoded) (\<lambda>answer.
     db_bind (db_lift (GetPwdHash sha i old_pwd reg_time)) (\<lambda>old_pwd_hash.
       if old_pwd_hash \<noteq> answer then db_return False
       else
         db_bind (db_lift (GetPwdHash sha i new_pwd reg_time)) (\<lambda>new_pwd_hash.
         db_bind (exec (update_pwd sql i (EncodeBase64 new_pwd_hash))) (\<lambda>_. db_return True)))))"

section \<open>Statistics and achievements\<close>

definition GetInfo :: "'d sql \<Rightarrow> Account_ID_t \<Rightarrow> ('d, Achievement_ID_t \<times> int \<times> int \<times> int) db" where
  "GetInfo sql i =
     db_bind (exec (select_nickname sql i)) (\<lambda>nick.
     db_bind (exec (count_battles sql i)) (\<lambda>(win, draw, loose). db_return (nick, win, draw, loose)))"

definition GetAchieve :: "'d sql \<Rightarrow> Account_ID_t \<Rightarrow> Achievement_ID_t \<Rightarrow> ('d, int \<times> int) db" where
  "GetAchieve sql i a = exec (select_achieve sql i a)"

definition GetAllAchieve :: "'d sql \<Rightarrow> Account_ID_t \<Rightarrow> ('d, (Achievement_ID_t, int) smap) db" where
  "GetAllAchieve sql i =
     db_bind (exec (select_all_achieve sql i)) (\<lambda>rows. db_return (fold (\<lambda>(a, c) m. smap_insert a c m) rows []))"

definition SetNickName :: "'d sql \<Rightarrow> Account_ID_t \<Rightarrow> Achievement_ID_t \<Rightarrow> ('d, bool) db" where
  "SetNickName sql i a =
     db_bind (GetAchieve sql i a) (\<lambda>(achieve, goal).
       if achieve < goal then db_return False
       else db_bind (exec (update_nickname sql i a)) (\<lambda>_. db_return True))"

definition Achieve :: "'d sql \<Rightarrow> Account_ID_t \<Rightarrow> Achievement_ID_t \<Rightarrow> ('d, bool) db" where
  "Achieve sql i a =
     db_bind (GetAchieve sql i a) (\<lambda>(cnt, require).
       if cnt < require then
         db_bind (exec (increment_achieve sql i a)) (\<lambda>_.
         db_bind (exec (sql_commit sql)) (\<lambda>_. db_return (require - cnt = 1)))
       else db_return False)"

definition db_AchieveProgress :: "'d sql \<Rightarrow> Account_ID_t \<Rightarrow> Achievement_ID_t \<Rightarrow> int \<Rightarrow> ('d, bool) db" where
  "db_AchieveProgress sql i a c =
     db_bind (GetAchieve sql i a) (\<lambda>(cnt, require).
       if cnt < require \<and> cnt < c then
         (let c = min require c
          in db_bind (exec (set_achieve sql i a c)) (\<lambda>_.
             db_bind (exec (sql_commit sql)) (\<lambda>_. db_return (require \<le> c))))
       else db_return False)"

definition ArchiveBattle :: "'d sql \<Rightarrow> Account_ID_t \<Rightarrow> Account_ID_t \<Rightarrow> bool \<Rightarrow> bool \<Rightarrow> ('d, unit) db" where
  "ArchiveBattle sql winner looser draw crashed =
     (let flags = (if draw then 2 else 0) + (if crashed then 1 else 0)
      in exec (insert_battle sql winner looser flags))"

section \<open>The pool\<close>

text \<open>
  A connection is whether it is open, \<open>None\<close> the null pointer. \<open>conn\<close> is what a new connection gives:
  \<open>None\<close> when its constructor throws. \<open>begun\<close> says whether the constructor of the transaction (in that of
  \<open>MyPostgres\<close>) succeeds; if it throws, the \<open>MyPostgres\<close> object never exists and its release function
  never runs. \<open>pl_used\<close> and \<open>pl_lost\<close> are ghosts: the connections handed out and those no object holds.
\<close>

record pool =
  pl_isRunning :: bool
  pl_poolSize :: nat
  pl_connectionPool :: "bool option list"
  pl_waitPool :: "nat list"
  pl_used :: "nat list"
  pl_lost :: "nat list"

definition MyPostgresPool :: "bool option list \<Rightarrow> pool" where
  "MyPostgresPool conns =
     \<lparr>pl_isRunning = True, pl_poolSize = length conns, pl_connectionPool = conns,
      pl_waitPool = [0..<length conns], pl_used = [], pl_lost = []\<rparr>"

datatype pool_out = Pool_blocked | Pool_null | Pool_conn nat | Pool_throws db_exn

definition GetConnection :: "int \<Rightarrow> bool \<Rightarrow> bool option \<Rightarrow> bool \<Rightarrow> pool \<Rightarrow> pool_out \<times> pool" where
  "GetConnection timeout late conn begun pl =
     (let ready = (pl_waitPool pl \<noteq> [] \<or> \<not> pl_isRunning pl)
      in if \<not> ready \<and> timeout \<ge> 0 \<and> late then (Pool_null, pl)
         else if \<not> ready then (Pool_blocked, pl)
         else if \<not> pl_isRunning pl then (Pool_null, pl)
         else
           (let ptr = hd (pl_waitPool pl);
                usable = (pl_connectionPool pl ! ptr = Some True);
                pl = (if usable then pl else pl\<lparr>pl_connectionPool := (pl_connectionPool pl)[ptr := conn]\<rparr>)
            in if \<not> usable \<and> conn \<noteq> Some True then (Pool_null, pl)
               else
                 (let pl = pl\<lparr>pl_waitPool := tl (pl_waitPool pl)\<rparr>
                  in if begun then (Pool_conn ptr, pl\<lparr>pl_used := ptr # pl_used pl\<rparr>)
                     else (Pool_throws (Pq Broken_connection), pl\<lparr>pl_lost := ptr # pl_lost pl\<rparr>))))"

text \<open>The release function that the destructor of \<open>MyPostgres\<close> calls.\<close>

definition release :: "nat \<Rightarrow> pool \<Rightarrow> pool" where
  "release ptr pl = pl\<lparr>pl_waitPool := pl_waitPool pl @ [ptr], pl_used := remove1 ptr (pl_used pl)\<rparr>"

definition GetConnectUsage :: "pool \<Rightarrow> nat" where
  "GetConnectUsage pl = length (filter (\<lambda>c. c = Some True) (pl_connectionPool pl))"

definition GetPoolUsage :: "pool \<Rightarrow> nat" where
  "GetPoolUsage pl = pl_poolSize pl - length (pl_waitPool pl)"

definition pool_stop :: "pool \<Rightarrow> pool" where
  "pool_stop pl = pl\<lparr>pl_isRunning := False\<rparr>"

section \<open>Password hashes\<close>

definition hash_iter :: "(byte list \<Rightarrow> byte list) \<Rightarrow> Account_ID_t \<Rightarrow> Hash_t \<Rightarrow> string \<Rightarrow> Hash_t" where
  "hash_iter sha i pwd reg_time = ((\<lambda>h. sha (h @ bytes_of reg_time)) ^^ (2 ^ (unat i mod MAX_HASH_ITERATION))) pwd"

lemma sha256_queue_bytes: "sha256_queue sha q = sha (bq_bytes q)"
  by (simp add: sha256_queue_def Size_def vector_def)

lemma bq_of_buf_all: "bq_bytes (bq_of_buf g b (length b)) = b"
  by (simp add: bq_of_buf_def fold_snoc_map map_nth)

lemma hash_rounds_bytes:
  "bq_bytes (hash_rounds sha salt n r) = ((\<lambda>h. sha (h @ bq_bytes salt)) ^^ n) (bq_bytes r)"
  by (induction n arbitrary: r) (simp_all add: sha256_queue_bytes funpow_Suc_right del: funpow.simps(2))

lemma hash_rounds_frame:
  assumes "bq_ptr r = 0" "bq_defaultEndian r"
  shows "bq_ptr (hash_rounds sha salt n r) = 0 \<and> bq_defaultEndian (hash_rounds sha salt n r)"
  using assms by (induction n arbitrary: r) simp_all

lemma hash_iter_length:
  assumes "\<And>x. length (sha x) = 32" "length pwd = 32"
  shows "length (hash_iter sha i pwd rt) = 32"
proof -
  have "length ((f ^^ n) pwd) = 32" if "\<And>x. length (f x) = 32" for f :: "byte list \<Rightarrow> byte list" and n
    using that assms(2) by (cases n) simp_all
  then show ?thesis
    using assms(1) by (simp add: hash_iter_def)
qed

lemma GetPwdHash_iter:
  assumes "\<And>x. length (sha x) = 32" "length pwd = 32"
  shows "GetPwdHash sha i pwd rt = Inr (hash_iter sha i pwd rt)"
proof -
  let ?q = "hash_rounds sha (bq_of_buf True (bytes_of rt) (length rt)) (2 ^ (unat i mod MAX_HASH_ITERATION)) (Create True pwd)"
  have b: "bq_bytes ?q = hash_iter sha i pwd rt"
    using bq_of_buf_all [of True "bytes_of rt"] by (simp add: hash_rounds_bytes hash_iter_def bytes_of_def)
  have f: "bq_ptr ?q = 0" "bq_defaultEndian ?q"
    using hash_rounds_frame [of "Create True pwd"] by auto
  have l: "length (hash_iter sha i pwd rt) = 32" using assms by (rule hash_iter_length)
  have wf: "bq_wf ?q" "bq_rest ?q = hash_iter sha i pwd rt"
    using b f l by (simp_all add: bq_wf_def bq_rest_def)
  have "pop_default True 32 False ?q = Inr (hash_iter sha i pwd rt, ?q\<lparr>bq_ptr := bq_ptr ?q + of_nat 32\<rparr>)"
    using pop_read [OF wf(1), of 32 True False True] wf(2) l f(2) by (simp add: pop_default_def ordered_def)
  then show ?thesis by (simp add: GetPwdHash_def Let_def)
qed

lemma decode_hash_encoded: "length h = 32 \<Longrightarrow> decode_hash (EncodeBase64 h) d = (Inr h, d)"
  by (simp add: decode_hash_def db_bind_def db_lift_def DecodeBase64_EncodeBase64 db_return_def)

lemmas db_defs = db_bind_def db_return_def db_throw_def exec_def db_lift_def

lemma FindAccount_row:
  assumes "\<And>x. length (sha x) = 32" "length pwd = 32" "length h = 32"
    and "select_by_email sql email d = (Inr (i, EncodeBase64 h, rt), d')"
  shows "FindAccount sha sql email pwd d = (Inr (if hash_iter sha i pwd rt = h then i else 0), d')"
  using assms(4) decode_hash_encoded [OF assms(3), of d'] GetPwdHash_iter [of sha pwd i rt, OF assms(1,2)]
  by (simp add: FindAccount_def db_defs)

section \<open>The pool\<close>

definition pool_wf :: "pool \<Rightarrow> bool" where
  "pool_wf pl \<longleftrightarrow> mset (pl_waitPool pl) + mset (pl_used pl) + mset (pl_lost pl) = mset [0..<pl_poolSize pl]
     \<and> length (pl_connectionPool pl) = pl_poolSize pl"

inductive pool_reach :: "pool \<Rightarrow> bool" where
  start: "pool_reach (MyPostgresPool conns)"
| get: "pool_reach pl \<Longrightarrow> pool_reach (snd (GetConnection timeout late conn begun pl))"
| release: "pool_reach pl \<Longrightarrow> ptr \<in> set (pl_used pl) \<Longrightarrow> pool_reach (release ptr pl)"
| stop: "pool_reach pl \<Longrightarrow> pool_reach (pool_stop pl)"

lemma pool_wf_get: "pool_wf pl \<Longrightarrow> pool_wf (snd (GetConnection timeout late conn begun pl))"
  by (cases "pl_waitPool pl") (auto simp: pool_wf_def GetConnection_def Let_def)

lemma pool_reach_wf: "pool_reach pl \<Longrightarrow> pool_wf pl"
proof (induction rule: pool_reach.induct)
  case (start conns)
  show ?case by (simp add: pool_wf_def MyPostgresPool_def)
next
  case (get pl timeout late conn begun)
  then show ?case by (simp add: pool_wf_get)
next
  case (release pl ptr)
  then show ?case by (simp add: pool_wf_def release_def)
next
  case (stop pl)
  then show ?case by (simp add: pool_wf_def pool_stop_def)
qed

lemma pool_wf_distinct:
  assumes "pool_wf pl"
  shows "distinct (pl_waitPool pl @ pl_used pl @ pl_lost pl)"
    "set (pl_waitPool pl @ pl_used pl @ pl_lost pl) = {0..<pl_poolSize pl}"
    "length (pl_waitPool pl) + length (pl_used pl) + length (pl_lost pl) = pl_poolSize pl"
proof -
  have m: "mset (pl_waitPool pl @ pl_used pl @ pl_lost pl) = mset [0..<pl_poolSize pl]"
    using assms by (simp add: pool_wf_def add.assoc)
  show "distinct (pl_waitPool pl @ pl_used pl @ pl_lost pl)"
    using m by (metis distinct_upt mset_eq_imp_distinct_iff)
  show "set (pl_waitPool pl @ pl_used pl @ pl_lost pl) = {0..<pl_poolSize pl}"
    using m by (metis mset_eq_setD set_upt)
  show "length (pl_waitPool pl) + length (pl_used pl) + length (pl_lost pl) = pl_poolSize pl"
    using arg_cong [OF m, of size] by simp
qed

section \<open>Properties\<close>

text \<open>
  C19. The password check: an account registered with a password can log in with it, and with
  another password only if both hash to the same value under the account's salt and its
  \<open>2 ^ (id mod 17)\<close> rounds. The statements are assumed to do what their SQL says for this account: the
  insertion gives it an id and a time, the update stores the text, the selection finds it.
\<close>

theorem register_login:
  assumes "\<And>x. length (sha x) = 32" "length pwd = 32" "length pwd' = 32"
    and "insert_user sql email ''UnRegistered-temporaryquote'' d = (Inr (i, rt), d1)"
    and "\<And>e. \<exists>d2. update_pwd sql i e d1 = (Inr (), d2) \<and> (\<exists>d3. select_by_email sql email d2 = (Inr (i, e, rt), d3))"
  shows "\<exists>d2 d3. RegisterAccount sha sql email pwd d = (Inr i, d2) \<and>
    FindAccount sha sql email pwd d2 = (Inr i, d3) \<and>
    FindAccount sha sql email pwd' d2 = (Inr (if hash_iter sha i pwd' rt = hash_iter sha i pwd rt then i else 0), d3)"
proof -
  let ?h = "hash_iter sha i pwd rt"
  have h: "GetPwdHash sha i pwd rt = Inr ?h" "length ?h = 32"
    using GetPwdHash_iter [of sha pwd i rt] hash_iter_length [of sha pwd i rt] assms(1,2) by auto
  obtain d2 d3 where d: "update_pwd sql i (EncodeBase64 ?h) d1 = (Inr (), d2)"
    "select_by_email sql email d2 = (Inr (i, EncodeBase64 ?h, rt), d3)"
    using assms(5) by blast
  have "RegisterAccount sha sql email pwd d = (Inr i, d2)"
    using assms(4) d(1) h(1) by (simp add: RegisterAccount_def db_defs)
  then show ?thesis
    using FindAccount_row [of sha pwd ?h sql email d2 i rt d3] FindAccount_row [of sha pwd' ?h sql email d2 i rt d3]
      assms(1-3) h(2) d(2) by auto
qed

definition one_user_sql :: "(string option) sql" where
  "one_user_sql = \<lparr>insert_user = (\<lambda>email p d. (Inr (3, ''now''), Some p)),
     update_pwd = (\<lambda>i e d. (Inr (), Some e)),
     select_by_email = (\<lambda>email d. (case d of Some e \<Rightarrow> Inr (3, e, ''now'') | None \<Rightarrow> Inl Unexpected_rows, d)),
     select_pwd = (\<lambda>i d. (case d of Some e \<Rightarrow> Inr (e, ''now'') | None \<Rightarrow> Inl Unexpected_rows, d)),
     select_nickname = (\<lambda>i d. (Inr 0, d)), count_battles = (\<lambda>i d. (Inr (0, 0, 0), d)),
     select_achieve = (\<lambda>i a d. (Inr (0, 1), d)), select_all_achieve = (\<lambda>i d. (Inr [], d)),
     update_nickname = (\<lambda>i a d. (Inr (), d)), increment_achieve = (\<lambda>i a d. (Inr (), d)),
     set_achieve = (\<lambda>i a c d. (Inr (), d)), insert_battle = (\<lambda>w l f d. (Inr (), d)),
     sql_commit = (\<lambda>d. (Inr (), d)), sql_abort = (\<lambda>d. (Inr (), d)),
     sql_end = id, sql_connect = (\<lambda>d. (Some True, True))\<rparr>"

theorem register_login_witness:
  "\<exists>d2 d3. RegisterAccount (\<lambda>_. replicate 32 9) one_user_sql ''me'' (replicate 32 1) None = (Inr 3, d2) \<and>
     FindAccount (\<lambda>_. replicate 32 9) one_user_sql ''me'' (replicate 32 1) d2 = (Inr 3, d3)"
proof -
  let ?p = "replicate 32 1 :: byte list"
  have "insert_user one_user_sql ''me'' ''UnRegistered-temporaryquote'' None = (Inr (3, ''now''), Some ''UnRegistered-temporaryquote'')"
    by (simp add: one_user_sql_def)
  from register_login [of "\<lambda>_. replicate 32 9" ?p ?p, OF _ _ _ this] show ?thesis
    by (simp add: one_user_sql_def)
qed

text \<open>
  Progress towards an achievement is only recorded upwards and never past the goal: the count
  written is larger than the stored one and at most the required one, the transaction is
  committed, and true is answered exactly when the goal is reached by this very call.
\<close>

theorem achieve_monotone:
  assumes "select_achieve sql i a d = (Inr (cnt, require), d1)"
    and "\<And>c. \<exists>d2 d3. set_achieve sql i a c d1 = (Inr (), d2) \<and> sql_commit sql d2 = (Inr (), d3)"
  shows "(\<not> (cnt < require \<and> cnt < c) \<longrightarrow> db_AchieveProgress sql i a c d = (Inr False, d1)) \<and>
    (cnt < require \<and> cnt < c \<longrightarrow>
      (\<exists>n d2 d3. cnt < n \<and> n \<le> require \<and> set_achieve sql i a n d1 = (Inr (), d2) \<and> sql_commit sql d2 = (Inr (), d3) \<and>
         db_AchieveProgress sql i a c d = (Inr (n = require), d3)))"
proof (intro conjI impI)
  assume "\<not> (cnt < require \<and> cnt < c)"
  then show "db_AchieveProgress sql i a c d = (Inr False, d1)"
    using assms(1) by (auto simp: db_AchieveProgress_def GetAchieve_def db_defs)
next
  assume g: "cnt < require \<and> cnt < c"
  obtain d2 d3 where d: "set_achieve sql i a (min require c) d1 = (Inr (), d2)" "sql_commit sql d2 = (Inr (), d3)"
    using assms(2) by blast
  then have "db_AchieveProgress sql i a c d = (Inr (min require c = require), d3)"
    using assms(1) g by (simp add: db_AchieveProgress_def GetAchieve_def db_defs Let_def min_def)
  with g d show "\<exists>n d2 d3. cnt < n \<and> n \<le> require \<and> set_achieve sql i a n d1 = (Inr (), d2) \<and> sql_commit sql d2 = (Inr (), d3) \<and>
         db_AchieveProgress sql i a c d = (Inr (n = require), d3)"
    by (intro exI [of _ "min require c"] exI [of _ d2] exI [of _ d3]) simp
qed

theorem achieve_monotone_witness:
  "\<exists>n d2 d3. 0 < n \<and> n \<le> 1 \<and> set_achieve one_user_sql 3 2 n None = (Inr (), d2) \<and> sql_commit one_user_sql d2 = (Inr (), d3) \<and>
     db_AchieveProgress one_user_sql 3 2 5 None = (Inr (n = 1), d3)"
  using achieve_monotone [of one_user_sql 3 2 None 0 1 None 5] by (simp add: one_user_sql_def)



text \<open>
  A connection whose transaction cannot be started is lost: \<open>GetConnection\<close> has already taken it out
  of the queue when the constructor of \<open>MyPostgres\<close> throws, and nothing puts it back. After as many
  such failures as there are connections every further call waits for ever.
\<close>

theorem pool_leak:
  "GetConnection (-1) late conn begun
     (((\<lambda>pl. snd (GetConnection (-1) False None False pl)) ^^ n) (MyPostgresPool (replicate n (Some True))))
   = (Pool_blocked, ((\<lambda>pl. snd (GetConnection (-1) False None False pl)) ^^ n) (MyPostgresPool (replicate n (Some True))))"
proof -
  let ?f = "\<lambda>pl. snd (GetConnection (-1) False None False pl)"
  have step: "pl_waitPool ((?f ^^ k) (MyPostgresPool (replicate n (Some True)))) = [k..<n] \<and>
      pl_connectionPool ((?f ^^ k) (MyPostgresPool (replicate n (Some True)))) = replicate n (Some True) \<and>
      pl_isRunning ((?f ^^ k) (MyPostgresPool (replicate n (Some True))))" if "k \<le> n" for k
    using that
  proof (induction k)
    case (Suc k)
    then show ?case by (simp add: GetConnection_def Let_def upt_rec [of k])
  qed (simp add: MyPostgresPool_def)
  show ?thesis using step [of n] by (simp add: GetConnection_def)
qed

end
