(* ===== verification/Server.thy ===== *)
theory Server
  imports ClientSocket Redis Postgres "HOL-Library.Char_ord"
begin

text \<open>
  What the three game servers share: \<open>templates/MyServer.cpp\<close>, the list of connections of
  \<open>network/MyServerSocket.cpp\<close> and \<open>network/MyTCPServer.cpp\<close>, and the way the handlers of the servers
  reach the socket, the session store and the database.

  A handler is an action of the exception monad of the database layer, on a state that holds the
  socket objects, the connection to Redis, the pool and the database. Sockets are numbered; a
  \<open>weak_ptr\<close> is a number, and it has expired when no object has it. The sockets of the servers are web
  sockets: \<open>sk_open\<close> is \<open>isReadable\<close>, the state of the web socket, and \<open>cl_is_open\<close> is \<open>is_open\<close>, that of the
  TCP socket below it. Timer callbacks and receive handlers are values of data types of the
  servers. Log output is left out.
\<close>

section \<open>Actions\<close>

text \<open>Exceptions can be caught, undefined behaviour and waiting for ever cannot.\<close>

definition catchable :: "db_exn \<Rightarrow> bool" where
  "catchable e = (case e of Std (Undefined _) \<Rightarrow> False | Std (Waits_forever _) \<Rightarrow> False | _ \<Rightarrow> True)"

definition db_catch :: "('w, 'a) db \<Rightarrow> (db_exn \<Rightarrow> ('w, 'a) db) \<Rightarrow> ('w, 'a) db" where
  "db_catch m h w = (case m w of
       (Inl e, w) \<Rightarrow> if catchable e then h e w else (Inl e, w)
     | (Inr x, w) \<Rightarrow> (Inr x, w))"

definition modify :: "('w \<Rightarrow> 'w) \<Rightarrow> ('w, unit) db" where
  "modify f w = (Inr (), f w)"

definition gets :: "('w \<Rightarrow> 'a) \<Rightarrow> ('w, 'a) db" where
  "gets f w = (Inr (f w), w)"

text \<open>Statements one after the other.\<close>

primrec acts :: "('w, unit) db list \<Rightarrow> ('w, unit) db" where
  "acts [] = db_return ()"
| "acts (a # as) = db_bind a (\<lambda>_. acts as)"

section \<open>The state of a server\<close>

record ('cb, 'h) client = "'cb sock" +
  cl_is_open :: bool
  cl_handler :: "'h option"

record ('cb, 'h, 'r, 'd) server =
  sv_isRunning :: bool
  sv_accepting :: bool
  sv_objects :: "nat \<Rightarrow> ('cb, 'h) client option"
  sv_clients :: "nat list"
  sv_redis :: "'r redis"
  sv_pool :: pool
  sv_db :: 'd
  sv_thrown :: "db_exn list"
  sv_graceful :: bool

definition upd_client ::
  "nat \<Rightarrow> (('cb, 'h) client \<Rightarrow> ('cb, 'h) client) \<Rightarrow> ('cb, 'h, 'r, 'd, 'x) server_scheme \<Rightarrow> ('cb, 'h, 'r, 'd, 'x) server_scheme" where
  "upd_client c f w = w\<lparr>sv_objects := (sv_objects w)(c := map_option f (sv_objects w c))\<rparr>"

definition AddClient :: "nat \<Rightarrow> ('cb, 'h, 'r, 'd, 'x) server_scheme \<Rightarrow> ('cb, 'h, 'r, 'd, 'x) server_scheme" where
  "AddClient c w = w\<lparr>sv_clients := sv_clients w @ [c]\<rparr>"

text \<open>The loop erases the first entry with this pointer.\<close>

definition RemoveClient :: "nat \<Rightarrow> ('cb, 'h, 'r, 'd, 'x) server_scheme \<Rightarrow> ('cb, 'h, 'r, 'd, 'x) server_scheme" where
  "RemoveClient c w = w\<lparr>sv_clients := remove1 c (sv_clients w)\<rparr>"

text \<open>
  \<open>Close\<close> on a socket of the server: the clean-up handler is \<open>RemoveClient\<close>, called at once when the web
  socket is not open any more, and by the completion of the closing handshake (\<open>ws_closed\<close>) otherwise.
\<close>

definition close_client :: "nat \<Rightarrow> ('cb, 'h, 'r, 'd, 'x) server_scheme \<Rightarrow> ('cb, 'h, 'r, 'd, 'x) server_scheme" where
  "close_client c w = (case sv_objects w c of
       None \<Rightarrow> w
     | Some s \<Rightarrow>
         if sk_closing s then w
         else (let w = upd_client c sk_Close w in if sk_open s then w else RemoveClient c w))"

definition ws_closed :: "nat \<Rightarrow> ('cb, 'h, 'r, 'd, 'x) server_scheme \<Rightarrow> ('cb, 'h, 'r, 'd, 'x) server_scheme" where
  "ws_closed c w = RemoveClient c (upd_client c (\<lambda>s. s\<lparr>sk_open := False, cl_is_open := False, cl_handler := None\<rparr>) w)"

definition safe_loop ::
  "(nat \<Rightarrow> ('cb, 'h, 'r, 'd, 'x) server_scheme \<Rightarrow> ('cb, 'h, 'r, 'd, 'x) server_scheme) \<Rightarrow>
   ('cb, 'h, 'r, 'd, 'x) server_scheme \<Rightarrow> ('cb, 'h, 'r, 'd, 'x) server_scheme" where
  "safe_loop process w = fold process (sv_clients w) w"

definition GetConnected :: "('cb, 'h, 'r, 'd, 'x) server_scheme \<Rightarrow> nat" where
  "GetConnected w = length (sv_clients w)"

text \<open>
  \<open>CloseSocket\<close> calls \<open>Close\<close> on every client while \<open>safe_loop\<close> holds \<open>mtx_client\<close>. A client whose web socket is
  not open calls \<open>RemoveClient\<close> from there, which locks the same \<open>std::mutex\<close> again: undefined.
\<close>

definition relocks :: "('cb, 'h, 'r, 'd, 'x) server_scheme \<Rightarrow> nat \<Rightarrow> bool" where
  "relocks w c = (case sv_objects w c of None \<Rightarrow> False | Some s \<Rightarrow> \<not> sk_closing s \<and> \<not> sk_open s)"

definition CloseSocket :: "(('cb, 'h, 'r, 'd, 'x) server_scheme, unit) db" where
  "CloseSocket w =
     (let w = w\<lparr>sv_accepting := False\<rparr>
      in if \<exists>c\<in>set (sv_clients w). relocks w c
         then (Inl (Std (Undefined ''mutex locked twice by one thread'')), w)
         else (Inr (), safe_loop close_client w))"

text \<open>\<open>MyServerSocket::Close\<close>; the thread pool is joined when the pending operations are done.\<close>

definition ss_Close :: "(('cb, 'h, 'r, 'd, 'x) server_scheme, unit) db" where
  "ss_Close w = (if \<not> sv_accepting w then (Inr (), w) else CloseSocket w)"

section \<open>Actions of the handlers\<close>

definition c_Send :: "nat \<Rightarrow> byte_queue \<Rightarrow> (('cb, 'h, 'r, 'd, 'x) server_scheme, unit) db" where
  "c_Send c q = modify (upd_client c (sk_Send (vector q)))"

definition c_Close :: "nat \<Rightarrow> (('cb, 'h, 'r, 'd, 'x) server_scheme, unit) db" where
  "c_Close c = modify (close_client c)"

definition c_FillTTL :: "nat \<Rightarrow> int \<Rightarrow> (('cb, 'h, 'r, 'd, 'x) server_scheme, unit) db" where
  "c_FillTTL c n = modify (upd_client c (sk_FillTTL n))"

definition c_CountTTL :: "nat \<Rightarrow> (('cb, 'h, 'r, 'd, 'x) server_scheme, bool) db" where
  "c_CountTTL c w =
     (Inr (case sv_objects w c of None \<Rightarrow> False | Some s \<Rightarrow> fst (sk_CountTTL s)),
      upd_client c (\<lambda>s. snd (sk_CountTTL s)) w)"

definition c_SetTimeout :: "nat \<Rightarrow> 'cb \<Rightarrow> (('cb, 'h, 'r, 'd, 'x) server_scheme, unit) db" where
  "c_SetTimeout c cb = modify (upd_client c (sk_SetTimeout cb))"

definition c_CancelTimeout :: "nat \<Rightarrow> (('cb, 'h, 'r, 'd, 'x) server_scheme, unit) db" where
  "c_CancelTimeout c = modify (upd_client c sk_CancelTimeout)"

definition is_open :: "nat \<Rightarrow> ('cb, 'h, 'r, 'd, 'x) server_scheme \<Rightarrow> bool" where
  "is_open c w = (case sv_objects w c of None \<Rightarrow> False | Some s \<Rightarrow> cl_is_open s)"

text \<open>
  \<open>StartRecv\<close>: nothing on a socket that is not readable or is closing. A message that is already in
  the buffer is handled at once, before \<open>StartRecv\<close> returns (\<open>now\<close>); else a read with the handler is
  pending. \<open>first\<close> is that message.
\<close>

definition can_recv :: "nat \<Rightarrow> ('cb, 'h, 'r, 'd, 'x) server_scheme \<Rightarrow> bool" where
  "can_recv c w = (case sv_objects w c of None \<Rightarrow> False | Some s \<Rightarrow> sk_open s \<and> \<not> sk_closing s)"

definition c_StartRecv ::
  "nat \<Rightarrow> 'h \<Rightarrow> (('cb, 'h, 'r, 'd, 'x) server_scheme, unit) db option \<Rightarrow> (('cb, 'h, 'r, 'd, 'x) server_scheme, unit) db" where
  "c_StartRecv c h now w =
     (if \<not> can_recv c w then (Inr (), w)
      else case now of
             Some a \<Rightarrow> a w
           | None \<Rightarrow> (Inr (), upd_client c (\<lambda>s. s\<lparr>cl_handler := Some h\<rparr>) w))"

text \<open>Session store.\<close>

definition on_redis :: "('r redis \<Rightarrow> 'a \<times> 'r redis) \<Rightarrow> (('cb, 'h, 'r, 'd, 'x) server_scheme, 'a) db" where
  "on_redis f w = (let (x, rd) = f (sv_redis w) in (Inr x, w\<lparr>sv_redis := rd\<rparr>))"

text \<open>When an operation of the store throws, what it has sent is not visible to the caller: the client is left as it was.\<close>

definition on_redis_throw :: "('r redis \<Rightarrow> ('a \<times> 'r redis) result) \<Rightarrow> (('cb, 'h, 'r, 'd, 'x) server_scheme, 'a) db" where
  "on_redis_throw f w = (case f (sv_redis w) of
       Inl e \<Rightarrow> (Inl (Std e), w)
     | Inr (x, rd) \<Rightarrow> (Inr x, w\<lparr>sv_redis := rd\<rparr>))"

text \<open>
  \<open>auto db = dbpool.GetConnection()\<close> in a scope: the destructor at its end, also when an exception
  leaves it, ends the transaction and gives the connection back.
\<close>

definition get_connection :: "'d sql \<Rightarrow> (('cb, 'h, 'r, 'd, 'x) server_scheme, nat option) db" where
  "get_connection sql w =
     (let (conn, begun) = sql_connect sql (sv_db w);
          (out, pl) = GetConnection (- 1) False conn begun (sv_pool w);
          w = w\<lparr>sv_pool := pl\<rparr>
      in case out of
           Pool_blocked \<Rightarrow> (Inl (Std (Waits_forever ''GetConnection'')), w)
         | Pool_null \<Rightarrow> (Inr None, w)
         | Pool_conn ptr \<Rightarrow> (Inr (Some ptr), w)
         | Pool_throws e \<Rightarrow> (Inl e, w))"

definition end_connection :: "'d sql \<Rightarrow> nat option \<Rightarrow> ('cb, 'h, 'r, 'd, 'x) server_scheme \<Rightarrow> ('cb, 'h, 'r, 'd, 'x) server_scheme" where
  "end_connection sql db w = (case db of
       None \<Rightarrow> w
     | Some ptr \<Rightarrow> w\<lparr>sv_db := sql_end sql (sv_db w), sv_pool := release ptr (sv_pool w)\<rparr>)"

definition with_connection ::
  "'d sql \<Rightarrow> (nat option \<Rightarrow> (('cb, 'h, 'r, 'd, 'x) server_scheme, 'a) db) \<Rightarrow> (('cb, 'h, 'r, 'd, 'x) server_scheme, 'a) db" where
  "with_connection sql body =
     db_bind (get_connection sql) (\<lambda>db w. (let (r, w) = body db w in (r, end_connection sql db w)))"

text \<open>A statement through the pointer \<open>db\<close>, and the check \<open>if(!db) throw\<close>.\<close>

definition use_db :: "nat option \<Rightarrow> ('d, 'a) db \<Rightarrow> (('cb, 'h, 'r, 'd, 'x) server_scheme, 'a) db" where
  "use_db db m w = (case db of
       None \<Rightarrow> (Inl (Std (Undefined ''null database pointer'')), w)
     | Some _ \<Rightarrow> (let (r, d) = m (sv_db w) in (r, w\<lparr>sv_db := d\<rparr>)))"

definition require_db :: "nat option \<Rightarrow> db_exn \<Rightarrow> (('cb, 'h, 'r, 'd, 'x) server_scheme, unit) db" where
  "require_db db e = (if db = None then db_throw e else db_return ())"

text \<open>Fields of a packet, on a little-endian host.\<close>

definition pop_byte :: "byte_queue \<Rightarrow> (byte \<times> byte_queue) result" where
  "pop_byte q = bind_result (pop_default True 1 False q) (\<lambda>(b, q). Inr (of_obj True b, q))"

definition pop_hash :: "byte_queue \<Rightarrow> (Hash_t \<times> byte_queue) result" where
  "pop_hash q = pop_default True SHA256_DIGEST_LENGTH False q"

definition pop_int :: "byte_queue \<Rightarrow> (32 word \<times> byte_queue) result" where
  "pop_int q = bind_result (pop_default True 4 False q) (\<lambda>(b, q). Inr (of_obj True b, q))"

definition pop_achieve :: "byte_queue \<Rightarrow> (Achievement_ID_t \<times> byte_queue) result" where
  "pop_achieve q = bind_result (pop_default True 8 False q) (\<lambda>(b, q). Inr (of_obj True b, q))"

definition string_of :: "byte list \<Rightarrow> string" where
  "string_of bs = map (\<lambda>b. char_of (unat b)) bs"

abbreviation (input) code :: "byte \<Rightarrow> byte_queue" where
  "code b \<equiv> Create True (obj True b)"

definition push_word :: "'a::len word \<Rightarrow> byte_queue \<Rightarrow> byte_queue" where
  "push_word x q = push_default True (obj True x) q"

text \<open>An \<open>int\<close> is pushed as its 32-bit representation.\<close>

definition push_int :: "int \<Rightarrow> byte_queue \<Rightarrow> byte_queue" where
  "push_int i q = push_word (word_of_int i :: 32 word) q"

section \<open>Thread exceptions, start and stop\<close>

definition ThrowThreadException :: "db_exn \<Rightarrow> ('cb, 'h, 'r, 'd, 'x) server_scheme \<Rightarrow> ('cb, 'h, 'r, 'd, 'x) server_scheme" where
  "ThrowThreadException e w = w\<lparr>sv_thrown := sv_thrown w @ [e]\<rparr>"

text \<open>\<open>WaitForThreadException\<close>, at the moment its wait ends: \<open>None\<close> when it has to go on waiting.\<close>

definition WaitForThreadException ::
  "('cb, 'h, 'r, 'd, 'x) server_scheme \<Rightarrow> (db_exn option \<times> ('cb, 'h, 'r, 'd, 'x) server_scheme) option" where
  "WaitForThreadException w = (case sv_thrown w of
       e # es \<Rightarrow> Some (Some e, w\<lparr>sv_thrown := es\<rparr>)
     | [] \<Rightarrow> if sv_graceful w then Some (None, w) else None)"

definition GracefulWakeUp :: "('cb, 'h, 'r, 'd, 'x) server_scheme \<Rightarrow> ('cb, 'h, 'r, 'd, 'x) server_scheme" where
  "GracefulWakeUp w = w\<lparr>sv_graceful := True\<rparr>"

abbreviation (input) TIME_AUTHENTICATE :: int where "TIME_AUTHENTICATE \<equiv> 2000"
abbreviation (input) SESSION_TIMEOUT :: int where "SESSION_TIMEOUT \<equiv> 60000"
abbreviation (input) SESSION_TTL :: int where "SESSION_TTL \<equiv> 4"

text \<open>\<open>ctx\<close> is what the connection to Redis gives; \<open>opn\<close> and \<open>close\<close> are \<open>Open\<close> and \<open>Close\<close> of the derived server.\<close>

definition Start ::
  "(int \<times> string) option \<Rightarrow> (('cb, 'h, 'r, 'd, 'x) server_scheme \<Rightarrow> ('cb, 'h, 'r, 'd, 'x) server_scheme) \<Rightarrow>
   ('cb, 'h, 'r, 'd, 'x) server_scheme \<Rightarrow> ('cb, 'h, 'r, 'd, 'x) server_scheme" where
  "Start ctx opn w =
     (if sv_isRunning w then w
      else opn (w\<lparr>sv_isRunning := True, sv_redis := snd (rd_Connect ctx (sv_redis w))\<rparr>))"

definition Stop ::
  "(('cb, 'h, 'r, 'd, 'x) server_scheme \<Rightarrow> ('cb, 'h, 'r, 'd, 'x) server_scheme) \<Rightarrow>
   (('cb, 'h, 'r, 'd, 'x) server_scheme, unit) db" where
  "Stop close w =
     (if \<not> sv_isRunning w then (Inr (), w)
      else
        db_bind ss_Close (\<lambda>_. modify (\<lambda>w. GracefulWakeUp (close (w\<lparr>sv_redis := rd_Close (sv_redis w)\<rparr>))))
          (w\<lparr>sv_isRunning := False\<rparr>))"

definition server_ConnectUsage :: "('cb, 'h, 'r, 'd, 'x) server_scheme \<Rightarrow> (string, nat) smap" where
  "server_ConnectUsage w =
     smap_insert ''PostgresPool'' (GetPoolUsage (sv_pool w))
       (smap_insert ''Postgres'' (GetConnectUsage (sv_pool w))
         (smap_insert ''Redis'' (if rd_is_open (sv_redis w) then 1 else 0) []))"

definition GetClientUsage :: "('cb, 'h, 'r, 'd, 'x) server_scheme \<Rightarrow> nat" where
  "GetClientUsage w = GetConnected w"

section \<open>Reasoning about handlers\<close>

text \<open>
  \<open>calm m\<close>: no exception leaves \<open>m\<close>. \<open>keeps I m\<close>: the action \<open>m\<close> keeps the invariant \<open>I\<close>, however it ends.
\<close>

named_theorems calm_intros "actions that no exception leaves"
named_theorems keeps_intros "actions that keep an invariant"

definition calm :: "('w, 'a) db \<Rightarrow> bool" where
  "calm m \<longleftrightarrow> (\<forall>w e w'. m w = (Inl e, w') \<longrightarrow> \<not> catchable e)"

definition keeps :: "('w \<Rightarrow> bool) \<Rightarrow> ('w, 'a) db \<Rightarrow> bool" where
  "keeps I m \<longleftrightarrow> (\<forall>w. I w \<longrightarrow> I (snd (m w)))"

lemma calmD: "calm m \<Longrightarrow> m w = (Inl e, w') \<Longrightarrow> \<not> catchable e"
  unfolding calm_def by blast

lemma keepsD: "keeps I m \<Longrightarrow> I w \<Longrightarrow> m w = (r, w') \<Longrightarrow> I w'"
  unfolding keeps_def by (metis snd_conv)

lemma keeps_snd: "keeps I m \<Longrightarrow> I w \<Longrightarrow> I (snd (m w))"
  by (simp add: keeps_def)

lemma calm_basic [calm_intros]:
  "calm (db_return x)" "calm (modify f)" "calm (gets g)"
  by (simp_all add: calm_def db_return_def modify_def gets_def)

lemma calm_bind [calm_intros]: "calm m \<Longrightarrow> (\<And>x. calm (f x)) \<Longrightarrow> calm (db_bind m f)"
  unfolding calm_def db_bind_def by (auto split: prod.splits sum.splits)

lemma calm_catch [calm_intros]: "(\<And>e. calm (h e)) \<Longrightarrow> calm (db_catch m h)"
  unfolding calm_def db_catch_def by (auto split: prod.splits sum.splits if_splits)

lemma calm_if [calm_intros]: "(b \<Longrightarrow> calm m) \<Longrightarrow> (\<not> b \<Longrightarrow> calm n) \<Longrightarrow> calm (if b then m else n)"
  by simp

lemma calm_acts [calm_intros]: "(\<And>a. a \<in> set as \<Longrightarrow> calm a) \<Longrightarrow> calm (acts as)"
  by (induction as) (auto intro!: calm_intros)

lemma calm_client [calm_intros]:
  "calm (c_Send c q)" "calm (c_Close c)" "calm (c_FillTTL c n)" "calm (c_CountTTL c)"
  "calm (c_SetTimeout c cb)" "calm (c_CancelTimeout c)" "calm (on_redis f)"
  unfolding c_Send_def c_Close_def c_FillTTL_def c_SetTimeout_def c_CancelTimeout_def
  by (auto intro: calm_basic) (auto simp: calm_def c_CountTTL_def on_redis_def split: prod.splits)

lemma calm_StartRecv [calm_intros]:
  "(\<And>a. now = Some a \<Longrightarrow> calm a) \<Longrightarrow> calm (c_StartRecv c h now)"
  unfolding calm_def c_StartRecv_def by (auto split: option.splits if_splits)

lemma keeps_basic [keeps_intros]:
  "keeps I (db_return x)" "keeps I (db_throw e)" "keeps I (gets g)" "keeps I (db_lift r)"
  by (auto simp: keeps_def db_return_def db_throw_def gets_def db_lift_def split: sum.splits)

lemma keeps_require_db [keeps_intros]: "keeps I (require_db db e)"
  by (auto simp: require_db_def intro: keeps_basic)

lemma keeps_bind [keeps_intros]: "keeps I m \<Longrightarrow> (\<And>x. keeps I (f x)) \<Longrightarrow> keeps I (db_bind m f)"
  unfolding keeps_def db_bind_def by (fastforce split: prod.splits sum.splits)

lemma keeps_catch [keeps_intros]: "keeps I m \<Longrightarrow> (\<And>e. keeps I (h e)) \<Longrightarrow> keeps I (db_catch m h)"
  unfolding keeps_def db_catch_def by (fastforce split: prod.splits sum.splits)

lemma keeps_if [keeps_intros]: "(b \<Longrightarrow> keeps I m) \<Longrightarrow> (\<not> b \<Longrightarrow> keeps I n) \<Longrightarrow> keeps I (if b then m else n)"
  by simp

lemma keeps_cases [keeps_intros]:
  "(\<And>a b. keeps I (f a b)) \<Longrightarrow> keeps I (case p of (a, b) \<Rightarrow> f a b)"
  "(\<And>a. keeps I (g a)) \<Longrightarrow> (\<And>b. keeps I (h b)) \<Longrightarrow> keeps I (case s of Inl a \<Rightarrow> g a | Inr b \<Rightarrow> h b)"
  "keeps I m \<Longrightarrow> (\<And>a. keeps I (k a)) \<Longrightarrow> keeps I (case z of None \<Rightarrow> m | Some a \<Rightarrow> k a)"
  by (auto split: prod.splits sum.splits option.splits)

lemma keeps_acts [keeps_intros]: "(\<And>a. a \<in> set as \<Longrightarrow> keeps I a) \<Longrightarrow> keeps I (acts as)"
  by (induction as) (auto intro!: keeps_intros)

lemma keeps_modify: "(\<And>w. I w \<Longrightarrow> I (f w)) \<Longrightarrow> keeps I (modify f)"
  by (simp add: keeps_def modify_def)

text \<open>
  Symbolic execution: the actions as equations on a state. A socket that is there and is neither
  closed nor closing is \<open>live\<close>.
\<close>

definition live :: "nat \<Rightarrow> ('cb, 'h, 'r, 'd, 'x) server_scheme \<Rightarrow> ('cb, 'h) client \<Rightarrow> bool" where
  "live c w s \<longleftrightarrow> sv_objects w c = Some s \<and> sk_open s \<and> \<not> sk_closing s"

lemma db_bind_run: "m w = (Inr x, w') \<Longrightarrow> db_bind m f w = f x w'"
  by (simp add: db_bind_def)

lemma db_bind_fail: "m w = (Inl e, w') \<Longrightarrow> db_bind m f w = (Inl e, w')"
  by (simp add: db_bind_def)

text \<open>The pool has a free connection that works, and \<open>ptr\<close> is the one it gives.\<close>

definition pool_ready :: "'d sql \<Rightarrow> nat \<Rightarrow> nat list \<Rightarrow> ('cb, 'h, 'r, 'd, 'x) server_scheme \<Rightarrow> bool" where
  "pool_ready sql ptr ptrs w \<longleftrightarrow> pl_isRunning (sv_pool w) \<and> pl_waitPool (sv_pool w) = ptr # ptrs \<and>
     pl_connectionPool (sv_pool w) ! ptr = Some True \<and> snd (sql_connect sql (sv_db w))"

lemma with_connection_run:
  assumes "pool_ready sql ptr ptrs w"
  shows "with_connection sql body w =
    (let (r, w') = body (Some ptr) (w\<lparr>sv_pool := (sv_pool w)\<lparr>pl_waitPool := ptrs, pl_used := ptr # pl_used (sv_pool w)\<rparr>\<rparr>)
     in (r, end_connection sql (Some ptr) w'))"
proof -
  obtain cn where "sql_connect sql (sv_db w) = (cn, True)"
    using assms by (cases "sql_connect sql (sv_db w)") (simp add: pool_ready_def)
  then have "get_connection sql w = (Inr (Some ptr),
      w\<lparr>sv_pool := (sv_pool w)\<lparr>pl_waitPool := ptrs, pl_used := ptr # pl_used (sv_pool w)\<rparr>\<rparr>)"
    using assms by (simp add: pool_ready_def get_connection_def GetConnection_def Let_def)
  then show ?thesis by (simp add: with_connection_def db_bind_def)
qed

lemmas run_defs = db_bind_def db_return_def db_throw_def db_lift_def exec_def db_catch_def modify_def gets_def
  c_Send_def c_Close_def c_FillTTL_def c_SetTimeout_def c_CancelTimeout_def c_CountTTL_def c_StartRecv_def
  on_redis_def on_redis_throw_def use_db_def require_db_def

section \<open>Reading packets\<close>

lemma bq_wf_packet: "length v < 2 ^ 31 \<Longrightarrow> bq_wf (bq_of_vector True v)"
  by (simp add: bq_wf_def)

lemma bq_rest_packet [simp]: "bq_rest (bq_of_vector True v) = v"
  by (simp add: bq_rest_def)

lemma pop_byte_packet:
  assumes "length v < 2 ^ 31"
  shows "pop_byte (bq_of_vector True v) = (case v of [] \<Rightarrow> Inl (Out_of_range ''ByteQueue : Byte Out of Range'')
      | b # _ \<Rightarrow> Inr (b, (bq_of_vector True v)\<lparr>bq_ptr := 1\<rparr>))"
proof (cases v)
  case Nil
  then show ?thesis
    using pop_short [OF bq_wf_packet [OF assms], of 1] by (simp add: pop_byte_def pop_default_def)
next
  case (Cons b bs)
  have "of_obj True [b] = b" using of_obj_obj_8 [of True b] by simp
  with Cons show ?thesis
    using pop_read [OF bq_wf_packet [OF assms], of 1] by (simp add: pop_byte_def pop_default_def ordered_def)
qed

lemma pop_hash_packet:
  assumes "length v < 2 ^ 31" "unat (bq_ptr q) \<le> length v" "bq_bytes q = v" "bq_defaultEndian q"
  shows "pop_hash q = (if 32 \<le> length (drop (unat (bq_ptr q)) v)
     then Inr (take 32 (drop (unat (bq_ptr q)) v), q\<lparr>bq_ptr := bq_ptr q + 32\<rparr>)
     else Inl (Out_of_range ''ByteQueue : Byte Out of Range''))"
proof -
  have wf: "bq_wf q" "bq_rest q = drop (unat (bq_ptr q)) v" using assms by (simp_all add: bq_wf_def bq_rest_def)
  then show ?thesis
    using pop_read [OF wf(1), of 32 True False True] pop_short [OF wf(1), of 32 True False True] assms(4)
    by (auto simp: pop_hash_def pop_default_def ordered_def)
qed

section \<open>Invariants of what a server adds\<close>

text \<open>
  An invariant of the fields that a server adds does not depend on the common ones. Then the common
  actions keep it, and a handler keeps it if its own actions do. \<open>gives m P\<close>: what \<open>m\<close> returns satisfies \<open>P\<close>.
\<close>

definition gives :: "('w, 'a) db \<Rightarrow> ('a \<Rightarrow> bool) \<Rightarrow> bool" where
  "gives m P \<longleftrightarrow> (\<forall>w x w'. m w = (Inr x, w') \<longrightarrow> P x)"

lemma givesI: "(\<And>w x w'. m w = (Inr x, w') \<Longrightarrow> P x) \<Longrightarrow> gives m P"
  by (simp add: gives_def)

lemma keeps_bind_gives: "keeps I m \<Longrightarrow> gives m P \<Longrightarrow> (\<And>x. P x \<Longrightarrow> keeps I (f x)) \<Longrightarrow> keeps I (db_bind m f)"
  unfolding keeps_def gives_def db_bind_def by (fastforce split: prod.splits sum.splits)

lemma keeps_bind_gets: "(\<And>w. I w \<Longrightarrow> P (g w)) \<Longrightarrow> (\<And>x. P x \<Longrightarrow> keeps I (f x)) \<Longrightarrow> keeps I (db_bind (gets g) f)"
  unfolding keeps_def gets_def db_bind_def by auto

locale server_invariant =
  fixes I :: "('cb, 'h, 'r, 'd, 'x) server_scheme \<Rightarrow> bool"
  assumes I_objects: "I w \<Longrightarrow> I (w\<lparr>sv_objects := ob\<rparr>)"
    and I_clients: "I w \<Longrightarrow> I (w\<lparr>sv_clients := cs\<rparr>)"
    and I_redis: "I w \<Longrightarrow> I (w\<lparr>sv_redis := rd\<rparr>)"
    and I_pool: "I w \<Longrightarrow> I (w\<lparr>sv_pool := pl\<rparr>)"
    and I_db: "I w \<Longrightarrow> I (w\<lparr>sv_db := d\<rparr>)"
    and I_thrown: "I w \<Longrightarrow> I (w\<lparr>sv_thrown := es\<rparr>)"
begin

lemma upd_client_inv: "I w \<Longrightarrow> I (upd_client c f w)"
  by (simp add: upd_client_def I_objects)

lemma RemoveClient_inv: "I w \<Longrightarrow> I (RemoveClient c w)"
  by (simp add: RemoveClient_def I_clients)

lemma AddClient_inv: "I w \<Longrightarrow> I (AddClient c w)"
  by (simp add: AddClient_def I_clients)

lemma close_client_inv: "I w \<Longrightarrow> I (close_client c w)"
  by (auto simp: close_client_def Let_def upd_client_inv RemoveClient_inv split: option.splits)

lemma ws_closed_inv: "I w \<Longrightarrow> I (ws_closed c w)"
  by (simp add: ws_closed_def upd_client_inv RemoveClient_inv)

lemma keeps_upd_client [keeps_intros]: "keeps I (modify (upd_client c f))"
  by (rule keeps_modify) (rule upd_client_inv)

lemma keeps_throw_thread [keeps_intros]: "keeps I (modify (ThrowThreadException e))"
  by (rule keeps_modify) (simp add: ThrowThreadException_def I_thrown)

lemma keeps_client [keeps_intros]:
  "keeps I (c_Send c q)" "keeps I (c_Close c)" "keeps I (c_FillTTL c n)" "keeps I (c_CountTTL c)"
  "keeps I (c_SetTimeout c cb)" "keeps I (c_CancelTimeout c)"
  unfolding c_Send_def c_Close_def c_FillTTL_def c_SetTimeout_def c_CancelTimeout_def
  by (auto simp: keeps_def modify_def c_CountTTL_def upd_client_inv close_client_inv)

lemma keeps_StartRecv [keeps_intros]:
  "(\<And>a. now = Some a \<Longrightarrow> keeps I a) \<Longrightarrow> keeps I (c_StartRecv c h now)"
  by (auto simp: keeps_def c_StartRecv_def upd_client_inv split: option.splits)

lemma keeps_redis [keeps_intros]: "keeps I (on_redis f)" "keeps I (on_redis_throw g)"
  by (auto simp: keeps_def on_redis_def on_redis_throw_def I_redis split: prod.splits sum.splits)

lemma keeps_use_db [keeps_intros]: "keeps I (use_db db m)"
  by (auto simp: keeps_def use_db_def I_db split: option.splits prod.splits)

lemma keeps_with_connection [keeps_intros]:
  assumes "\<And>db. keeps I (body db)"
  shows "keeps I (with_connection sql body)"
  unfolding with_connection_def
proof (rule keeps_bind)
  show "keeps I (get_connection sql)"
    by (auto simp: keeps_def get_connection_def I_pool Let_def split: prod.splits pool_out.splits)
  show "keeps I (\<lambda>w. let (r, w) = body db w in (r, end_connection sql db w))" for db
    using assms [of db] by (auto simp: keeps_def end_connection_def case_prod_beta I_db I_pool split: option.splits)
qed

end

section \<open>Properties\<close>

lemma close_client_other: "c \<noteq> c' \<Longrightarrow> sv_objects (close_client c' w) c = sv_objects w c"
  by (simp add: close_client_def upd_client_def RemoveClient_def Let_def split: option.splits)

lemma close_client_closing:
  "sv_objects w c = Some s \<Longrightarrow> \<exists>s'. sv_objects (close_client c w) c = Some s' \<and> sk_closing s'"
  by (auto simp: close_client_def upd_client_def RemoveClient_def sk_Close_def Let_def)

lemma close_all_closing:
  "sv_objects w c = Some s \<Longrightarrow> c \<in> set cs \<or> sk_closing s \<Longrightarrow>
    \<exists>s'. sv_objects (fold close_client cs w) c = Some s' \<and> sk_closing s'"
proof (induction cs arbitrary: w s)
  case (Cons c' cs)
  show ?case
  proof (cases "c = c'")
    case True
    then obtain s' where "sv_objects (close_client c' w) c = Some s'" "sk_closing s'"
      using close_client_closing [OF Cons.prems(1)] by blast
    with Cons.IH show ?thesis by auto
  next
    case False
    with Cons.prems have "sv_objects (close_client c' w) c = Some s" "c \<in> set cs \<or> sk_closing s"
      by (simp_all add: close_client_other)
    with Cons.IH show ?thesis by auto
  qed
qed simp

lemma fold_close_frame:
  "sv_isRunning (fold close_client cs w) = sv_isRunning w \<and> sv_accepting (fold close_client cs w) = sv_accepting w"
  by (induction cs arbitrary: w)
    (simp_all add: close_client_def upd_client_def RemoveClient_def Let_def split: option.splits)


definition stop_example :: "bool \<Rightarrow> (unit, unit, unit, unit) server" where
  "stop_example shaken = \<lparr>sv_isRunning = True, sv_accepting = True,
     sv_objects = [0 \<mapsto> \<lparr>sk_open = shaken, sk_closing = False, sk_out = [], sk_ttl = 0, sk_timer = None, cl_is_open = True, cl_handler = None\<rparr>],
     sv_clients = [0], sv_redis = MyRedis 0 (), sv_pool = MyPostgresPool [], sv_db = (), sv_thrown = [], sv_graceful = False\<rparr>"


end
