(* ===== verification/Accept.thy ===== *)
theory Accept
  imports Streams Server
begin

text \<open>
  Accepting clients: \<open>StartAccept\<close> of \<open>network/MyTCPServer.cpp\<close>, \<open>GetClient\<close> of the four classes of servers, and the handler that \<open>Start\<close> of
  \<open>templates/MyServer.cpp\<close> gives them. The state is that of a server, with the class of its sockets, whether an accept is
  pending, the operations of \<open>Prepare\<close> that are pending, and the clients whose key exchange has been started.
\<close>

section \<open>State and operations\<close>

record ('cb, 'h, 'r, 'd) acceptor = "('cb, 'h, 'r, 'd) server" +
  ac_kind :: stream_kind
  ac_waiting :: bool
  ac_preparing :: "nat \<Rightarrow> prep_op option"
  ac_exchanging :: "nat list"

text \<open>The socket object that a class makes of an accepted TCP socket: a web socket is not open before its handshake.\<close>

definition accepted_socket :: "stream_kind \<Rightarrow> ('cb, 'h) client" where
  "accepted_socket K =
     \<lparr>sk_open = K \<in> {TCPClient, TCPTLSClient}, sk_closing = False, sk_out = [], sk_ttl = 0, sk_timer = None, cl_is_open = True, cl_handler = None\<rparr>"

text \<open>\<open>accept_handle\<close>, with the code \<open>ec\<close> that \<open>Prepare\<close> gives it: a client that failed is left as it is.\<close>

definition accept_handle :: "nat \<Rightarrow> error_code \<Rightarrow> ('cb, 'h, 'r, 'd, 'x) acceptor_scheme \<Rightarrow> ('cb, 'h, 'r, 'd, 'x) acceptor_scheme" where
  "accept_handle c ec w = (if \<not> ec_isSuccessed ec then w else w\<lparr>ac_exchanging := ac_exchanging w @ [c]\<rparr>)"

definition apply_prep :: "nat \<Rightarrow> prep \<Rightarrow> ('cb, 'h, 'r, 'd, 'x) acceptor_scheme \<Rightarrow> ('cb, 'h, 'r, 'd, 'x) acceptor_scheme" where
  "apply_prep c p w = (case p of
       Preparing op \<Rightarrow> w\<lparr>ac_preparing := (ac_preparing w)(c \<mapsto> op)\<rparr>
     | Prepared ec \<Rightarrow>
         accept_handle c ec
           (upd_client c (\<lambda>s. s\<lparr>sk_open := sk_open s \<or> ec_isSuccessed ec\<rparr>) (w\<lparr>ac_preparing := (ac_preparing w)(c := None)\<rparr>)))"

text \<open>\<open>GetClient\<close>: the new object, numbered \<open>c\<close>, and its preparation.\<close>

definition GetClient :: "nat \<Rightarrow> ('cb, 'h, 'r, 'd, 'x) acceptor_scheme \<Rightarrow> ('cb, 'h, 'r, 'd, 'x) acceptor_scheme" where
  "GetClient c w = apply_prep c (Prepare (ac_kind w)) (w\<lparr>sv_objects := (sv_objects w)(c \<mapsto> accepted_socket (ac_kind w))\<rparr>)"

definition StartAccept :: "('cb, 'h, 'r, 'd, 'x) acceptor_scheme \<Rightarrow> ('cb, 'h, 'r, 'd, 'x) acceptor_scheme" where
  "StartAccept w = w\<lparr>ac_waiting := True\<rparr>"

text \<open>
  The handler of an accept. \<open>made\<close> is an exception of \<open>GetClient\<close> or \<open>AddClient\<close>, if there is one; it is thrown on only after the next accept
  has been started. The codes of an error that is a normal close are arguments of \<open>isNormalClose\<close>.
\<close>

definition accept_done :: "(error_code \<Rightarrow> bool) \<Rightarrow> nat \<Rightarrow> boost_code \<Rightarrow> exn option \<Rightarrow> (('cb, 'h, 'r, 'd, 'x) acceptor_scheme, unit) db" where
  "accept_done normal c ec made =
     db_bind (modify (\<lambda>w. w\<lparr>ac_waiting := False\<rparr>)) (\<lambda>_.
       if failed ec then
         (if normal (ErrorCode_boost ec) then db_return () else db_throw (Std (StackTraceExcept (snd ec))))
       else
         db_bind (case made of None \<Rightarrow> modify (\<lambda>w. AddClient c (GetClient c w)) | Some _ \<Rightarrow> db_return ()) (\<lambda>_.
         db_bind (modify (\<lambda>w. if sv_accepting w then StartAccept w else w)) (\<lambda>_.
           case made of None \<Rightarrow> db_return () | Some e \<Rightarrow> db_throw (Std e))))"

text \<open>The completion of an operation of \<open>Prepare\<close>.\<close>

definition prepare_done :: "nat \<Rightarrow> boost_code \<Rightarrow> (('cb, 'h, 'r, 'd, 'x) acceptor_scheme, unit) db" where
  "prepare_done c ec = modify (\<lambda>w. case ac_preparing w c of None \<Rightarrow> w | Some op \<Rightarrow> apply_prep c (prepared (ac_kind w) op ec) w)"

lemmas accept_defs = accept_done_def prepare_done_def GetClient_def apply_prep_def accept_handle_def StartAccept_def AddClient_def
  accepted_socket_def upd_client_def run_defs

section \<open>Runs\<close>

text \<open>
  The runs of an acceptor: accepts and preparations complete in any order and with any result, except for an accept that fails. The numbers of
  the clients are fresh.
\<close>

inductive accept_run :: "(error_code \<Rightarrow> bool) \<Rightarrow> ('cb, 'h, 'r, 'd) acceptor \<Rightarrow> ('cb, 'h, 'r, 'd) acceptor \<Rightarrow> bool" for normal w where
  start: "accept_run normal w w"
| accepted: "accept_run normal w v \<Longrightarrow> ac_waiting v \<Longrightarrow> sv_objects v c = None \<Longrightarrow> \<not> failed ec \<Longrightarrow>
    accept_run normal w (snd (accept_done normal c ec made v))"
| prepared: "accept_run normal w v \<Longrightarrow> accept_run normal w (snd (prepare_done c ec v))"

text \<open>
  Every client on the list has an object that is not being closed; it is in preparation, or its key exchange was started
  and its stream is open, or it has failed.
\<close>

definition accept_inv :: "('cb, 'h, 'r, 'd, 'x) acceptor_scheme \<Rightarrow> bool" where
  "accept_inv w \<longleftrightarrow> ac_waiting w = sv_accepting w \<and> distinct (ac_exchanging w) \<and>
     (\<forall>c. ac_preparing w c \<noteq> None \<longrightarrow> sv_objects w c \<noteq> None \<and> c \<notin> set (ac_exchanging w)) \<and>
     (\<forall>c\<in>set (ac_exchanging w). \<exists>s. sv_objects w c = Some s \<and> sk_open s)"

lemma accept_inv_accepted:
  assumes "accept_inv v" "ac_waiting v" "sv_objects v c = None" "\<not> failed ec"
  shows "accept_inv (snd (accept_done normal c ec made v))"
proof -
  have n: "c \<notin> set (ac_exchanging v)" using assms(1,3) by (force simp: accept_inv_def)
  show ?thesis
  proof (cases made)
    case None
    with assms n show ?thesis
      by (cases "ac_kind v") (auto simp: accept_inv_def accept_defs prepare_defs)
  qed (use assms in \<open>auto simp: accept_inv_def accept_defs\<close>)
qed

lemma accept_inv_prepared:
  assumes "accept_inv v"
  shows "accept_inv (snd (prepare_done c ec v))"
proof (cases "ac_preparing v c")
  case None
  with assms show ?thesis by (simp add: prepare_done_def run_defs)
next
  case (Some op)
  then obtain s where s: "sv_objects v c = Some s" "c \<notin> set (ac_exchanging v)" using assms by (force simp: accept_inv_def)
  have "accept_inv (apply_prep c p v)" for p
    using assms Some s by (cases p) (auto simp: accept_inv_def accept_defs)
  then show ?thesis using Some by (simp add: prepare_done_def run_defs)
qed


definition accept_example :: "(unit, unit, unit, unit) acceptor" where
  "accept_example = \<lparr>sv_isRunning = True, sv_accepting = True, sv_objects = Map.empty, sv_clients = [], sv_redis = MyRedis 0 (), sv_pool = MyPostgresPool [],
     sv_db = (), sv_thrown = [], sv_graceful = False, ac_kind = WebsocketClient, ac_waiting = True, ac_preparing = Map.empty, ac_exchanging = []\<rparr>"


section \<open>A handshake that fails\<close>

lemma Stop_relocks:
  assumes "sv_isRunning w" "sv_accepting w" "c \<in> set (sv_clients w)" "sv_objects w c = Some s" "\<not> sk_open s" "\<not> sk_closing s"
  shows "fst (Stop close w) = Inl (Std (Undefined ''mutex locked twice by one thread''))"
proof -
  have "\<exists>c\<in>set (sv_clients w). relocks (w\<lparr>sv_isRunning := False, sv_accepting := False\<rparr>) c"
    using assms(3-6) by (intro bexI [of _ c]) (simp_all add: relocks_def)
  then show ?thesis using assms(1,2) by (simp add: Stop_def ss_Close_def CloseSocket_def db_bind_def)
qed



end
