(* ===== verification/MainThread.thy ===== *)
theory MainThread
  imports Server
begin

text \<open>
  The main thread of a server: \<open>Join\<close> of \<open>templates/MyServer.cpp\<close> on the queue of exceptions of \<open>threads/ThreadExceptHandler.cpp\<close>, step by step, with
  the threads that throw into the queue and the one that stops the server. A step is what is done between two points
  where another thread can come in; what is under the mutex is told apart from what is not, because a wait on the condition
  variable tests its predicate under the mutex and gives it up only when it sleeps.
\<close>

section \<open>State and steps\<close>

text \<open>
  Where the main thread is: at the test of the loop, before taking the mutex, at the test of the predicate, between a failed
  test and the sleep, asleep, behind the wait, or returned. It holds the mutex at \<open>Testing\<close>, \<open>Falling\<close> and \<open>Taking\<close>.
\<close>

datatype join_at = Looping | Locking | Testing | Falling | Asleep | Taking | Returned

text \<open>
  \<open>jn_notifies\<close> are the calls of \<open>notify_all\<close> that are still to come: each thrower and the stop make theirs after their change. \<open>jn_thrown\<close> is a
  ghost, all exceptions thrown so far. \<open>jn_stopping\<close> says how far \<open>Stop\<close> is: 0 not begun, 1 with \<open>isRunning\<close> reset, 2 with \<open>GracefulWakeUp\<close> done.
\<close>

record 'e join_state =
  jn_at :: join_at
  jn_isRunning :: bool
  jn_isGracefullyStop :: bool
  jn_Exception_Exps :: "'e list"
  jn_logged :: "'e list"
  jn_notifies :: nat
  jn_stopping :: nat
  jn_thrown :: "'e list"

definition join_start :: "'e join_state" where
  "join_start = \<lparr>jn_at = Looping, jn_isRunning = True, jn_isGracefullyStop = False, jn_Exception_Exps = [], jn_logged = [], jn_notifies = 0,
     jn_stopping = 0, jn_thrown = []\<rparr>"

definition mutex_held :: "'e join_state \<Rightarrow> bool" where
  "mutex_held j \<longleftrightarrow> jn_at j \<in> {Testing, Falling, Taking}"

text \<open>The main thread; \<open>None\<close> when it is asleep or has returned.\<close>

definition main_step :: "'e join_state \<Rightarrow> 'e join_state option" where
  "main_step j = (case jn_at j of
       Looping \<Rightarrow> Some (j\<lparr>jn_at := if jn_isRunning j then Locking else Returned\<rparr>)
     | Locking \<Rightarrow> Some (j\<lparr>jn_at := Testing\<rparr>)
     | Testing \<Rightarrow> Some (j\<lparr>jn_at := if jn_Exception_Exps j \<noteq> [] \<or> jn_isGracefullyStop j then Taking else Falling\<rparr>)
     | Falling \<Rightarrow> Some (j\<lparr>jn_at := Asleep\<rparr>)
     | Taking \<Rightarrow>
         (case jn_Exception_Exps j of
            [] \<Rightarrow> Some (j\<lparr>jn_at := Looping\<rparr>)
          | e # es \<Rightarrow> Some (j\<lparr>jn_at := Looping, jn_Exception_Exps := es, jn_logged := jn_logged j @ [e]\<rparr>))
     | Asleep \<Rightarrow> None
     | Returned \<Rightarrow> None)"

text \<open>\<open>ThrowThreadException\<close> up to its unlock, and \<open>notify_all\<close>.\<close>

definition throw_step :: "'e \<Rightarrow> 'e join_state \<Rightarrow> 'e join_state" where
  "throw_step e j = j\<lparr>jn_Exception_Exps := jn_Exception_Exps j @ [e], jn_thrown := jn_thrown j @ [e], jn_notifies := jn_notifies j + 1\<rparr>"

definition notify_step :: "'e join_state \<Rightarrow> 'e join_state" where
  "notify_step j = j\<lparr>jn_notifies := jn_notifies j - 1, jn_at := if jn_at j = Asleep then Locking else jn_at j\<rparr>"

text \<open>\<open>Stop\<close>: \<open>isRunning\<close>, and after closing the server \<open>GracefulWakeUp\<close>, which sets its flag without the mutex.\<close>

definition stop_step :: "'e join_state \<Rightarrow> 'e join_state" where
  "stop_step j = j\<lparr>jn_isRunning := False, jn_stopping := 1\<rparr>"

definition wake_step :: "'e join_state \<Rightarrow> 'e join_state" where
  "wake_step j = j\<lparr>jn_isGracefullyStop := True, jn_notifies := jn_notifies j + 1, jn_stopping := 2\<rparr>"

inductive join_step :: "'e join_state \<Rightarrow> 'e join_state \<Rightarrow> bool" where
  main: "main_step j = Some j' \<Longrightarrow> join_step j j'"
| throw: "\<not> mutex_held j \<Longrightarrow> join_step j (throw_step e j)"
| notify: "jn_notifies j > 0 \<Longrightarrow> join_step j (notify_step j)"
| spurious: "jn_at j = Asleep \<Longrightarrow> join_step j (j\<lparr>jn_at := Locking\<rparr>)"
| stop: "jn_stopping j = 0 \<Longrightarrow> join_step j (stop_step j)"
| wake: "jn_stopping j = 1 \<Longrightarrow> join_step j (wake_step j)"

abbreviation join_reach :: "'e join_state \<Rightarrow> bool" where
  "join_reach j \<equiv> join_step\<^sup>*\<^sup>* join_start j"

lemmas join_defs = main_step_def throw_step_def notify_step_def stop_step_def wake_step_def mutex_held_def join_start_def

section \<open>Exceptions are logged\<close>

text \<open>
  Nothing is lost from the queue, and the main thread is not asleep, or about to fall asleep, on an exception that nobody will tell it about.
\<close>

definition join_inv :: "'e join_state \<Rightarrow> bool" where
  "join_inv j \<longleftrightarrow> jn_thrown j = jn_logged j @ jn_Exception_Exps j \<and>
     (jn_at j = Falling \<longrightarrow> jn_Exception_Exps j = []) \<and>
     (jn_at j = Asleep \<and> jn_Exception_Exps j \<noteq> [] \<longrightarrow> jn_notifies j > 0) \<and>
     (jn_at j = Returned \<longrightarrow> \<not> jn_isRunning j)"

lemma join_inv_step: "join_step j j' \<Longrightarrow> join_inv j \<Longrightarrow> join_inv j'"
proof (induction rule: join_step.induct)
  case (main j j')
  then show ?case by (auto simp: join_inv_def main_step_def split: join_at.splits list.splits if_splits)
qed (auto simp: join_inv_def join_defs)

lemma join_inv_reach: "join_reach j \<Longrightarrow> join_inv j"
proof (induction rule: rtranclp_induct)
  case base
  show ?case by (simp add: join_inv_def join_start_def)
next
  case (step j j')
  then show ?case by (auto intro: join_inv_step)
qed

text \<open>A step that needs no other thread to do anything new: one of the main thread, or a call of \<open>notify_all\<close> that is due.\<close>

definition helped :: "'e join_state \<Rightarrow> 'e join_state \<Rightarrow> bool" where
  "helped j j' \<longleftrightarrow> main_step j = Some j' \<or> jn_notifies j > 0 \<and> j' = notify_step j"

definition logs_next :: "'e join_state \<Rightarrow> bool" where
  "logs_next j \<longleftrightarrow> (\<exists>j'. helped\<^sup>*\<^sup>* j j' \<and> join_inv j' \<and> jn_isRunning j' \<and> jn_thrown j' = jn_thrown j \<and>
     jn_Exception_Exps j' = tl (jn_Exception_Exps j))"

lemma logs_nextI: "helped j j1 \<Longrightarrow> logs_next j1 \<Longrightarrow> jn_thrown j1 = jn_thrown j \<Longrightarrow> jn_Exception_Exps j1 = jn_Exception_Exps j \<Longrightarrow> logs_next j"
  unfolding logs_next_def by (metis converse_rtranclp_into_rtranclp)

lemma logs_taking:
  assumes "join_inv j" "jn_isRunning j" "jn_Exception_Exps j = e # es" "jn_at j = Taking"
  shows "logs_next j"
proof -
  let ?j = "j\<lparr>jn_at := Looping, jn_Exception_Exps := es, jn_logged := jn_logged j @ [e]\<rparr>"
  have "helped j ?j" using assms(3,4) by (simp add: helped_def main_step_def)
  moreover have "join_inv ?j" using assms(1,3) by (simp add: join_inv_def)
  ultimately show ?thesis using assms(2,3) unfolding logs_next_def by (intro exI [of _ ?j]) auto
qed

lemma logs_locking:
  assumes "join_inv j" "jn_isRunning j" "jn_Exception_Exps j = e # es" "jn_at j \<in> {Locking, Testing}"
  shows "logs_next j"
proof -
  have t: "logs_next i" if "join_inv i" "jn_isRunning i" "jn_Exception_Exps i = e # es" "jn_at i = Testing" for i
  proof (rule logs_nextI)
    show "helped i (i\<lparr>jn_at := Taking\<rparr>)" using that by (simp add: helped_def main_step_def)
    show "logs_next (i\<lparr>jn_at := Taking\<rparr>)" using that by (intro logs_taking) (auto simp: join_inv_def)
  qed simp_all
  show ?thesis
  proof (cases "jn_at j = Testing")
    case False
    have "helped j (j\<lparr>jn_at := Testing\<rparr>)" using False assms(4) by (simp add: helped_def main_step_def)
    moreover have "logs_next (j\<lparr>jn_at := Testing\<rparr>)" using assms(1-3) by (intro t) (auto simp: join_inv_def)
    ultimately show ?thesis by (rule logs_nextI) simp_all
  qed (use assms t in blast)
qed

lemma logs_any:
  assumes "join_inv j" "jn_isRunning j" "jn_Exception_Exps j = e # es"
  shows "logs_next j"
proof -
  have l: "logs_next j" if "helped j j1" "jn_at j1 = Locking" "j1 = j\<lparr>jn_at := Locking, jn_notifies := n\<rparr>" for j1 n
    using that assms by (intro logs_nextI [OF that(1)] logs_locking) (auto simp: join_inv_def)
  show ?thesis
  proof (cases "jn_at j")
    case Looping
    then have "helped j (j\<lparr>jn_at := Locking, jn_notifies := jn_notifies j\<rparr>)" using assms(2) by (simp add: helped_def main_step_def)
    then show ?thesis by (rule l [where n = "jn_notifies j"]) simp_all
  next
    case Asleep
    then have "helped j (j\<lparr>jn_at := Locking, jn_notifies := jn_notifies j - 1\<rparr>)"
      using assms(1,3) by (simp add: helped_def notify_step_def join_inv_def)
    then show ?thesis by (rule l) simp_all
  next
    case Taking
    with assms show ?thesis by (rule logs_taking)
  next
    case Falling
    with assms show ?thesis by (simp add: join_inv_def)
  next
    case Returned
    with assms show ?thesis by (simp add: join_inv_def)
  qed (use assms in \<open>simp_all add: logs_locking\<close>)
qed

text \<open>
  C24. As long as the server runs, no exception of another thread is lost: the logged ones are those thrown first, in their order, and
  from every reachable state the steps of the main thread and the notifications that are already due lead to a state
  where all exceptions thrown so far have been logged.
\<close>

theorem thrown_logged:
  assumes "join_reach j" "jn_isRunning j"
  shows "jn_thrown j = jn_logged j @ jn_Exception_Exps j \<and> (\<exists>j'. helped\<^sup>*\<^sup>* j j' \<and> jn_thrown j' = jn_thrown j \<and> jn_logged j' = jn_thrown j)"
proof
  have i: "join_inv j" using assms(1) by (rule join_inv_reach)
  then show "jn_thrown j = jn_logged j @ jn_Exception_Exps j" by (simp add: join_inv_def)
  have "\<exists>j'. helped\<^sup>*\<^sup>* j j' \<and> jn_thrown j' = jn_thrown j \<and> join_inv j' \<and> jn_Exception_Exps j' = []"
    using i assms(2)
  proof (induction "jn_Exception_Exps j" arbitrary: j)
    case Nil
    then show ?case by auto
  next
    case (Cons e es)
    from logs_any [OF Cons.prems Cons.hyps(2) [symmetric]] obtain j1 where
      "helped\<^sup>*\<^sup>* j j1" "join_inv j1" "jn_isRunning j1" "jn_thrown j1 = jn_thrown j" "jn_Exception_Exps j1 = es"
      by (auto simp: logs_next_def Cons.hyps(2) [symmetric])
    with Cons.hyps(1) [of j1] show ?case by (metis rtranclp_trans)
  qed
  then show "\<exists>j'. helped\<^sup>*\<^sup>* j j' \<and> jn_thrown j' = jn_thrown j \<and> jn_logged j' = jn_thrown j"
    by (auto simp: join_inv_def)
qed

theorem thrown_logged_witness: "\<exists>j'. helped\<^sup>*\<^sup>* (throw_step ''lost'' join_start) j' \<and> jn_logged j' = [''lost'']"
proof -
  have "join_reach (throw_step ''lost'' join_start)"
    by (rule r_into_rtranclp) (rule join_step.throw, simp add: join_defs)
  from thrown_logged [OF this] show ?thesis by (auto simp: join_defs)
qed

section \<open>A wake-up that is lost\<close>

text \<open>
  C39. Stopping may not end the main thread. \<open>GracefulWakeUp\<close> sets its flag and notifies without the mutex; between the test of the predicate and the
  sleep of the main thread both have no effect. The server is then stopped, the main thread sleeps, and nothing that is due
  wakes it: \<open>Join\<close> returns only after a spurious wake-up or a further exception.
\<close>

theorem stop_wakeup_lost:
  "\<exists>j :: 'e join_state. join_reach j \<and> jn_stopping j = 2 \<and> jn_isGracefullyStop j \<and> \<not> jn_isRunning j \<and> jn_at j = Asleep \<and> \<not> (\<exists>j'. helped j j')"
proof -
  let ?s = "join_start :: 'e join_state"
  let ?j0 = "?s\<lparr>jn_at := Falling\<rparr>"
  let ?j1 = "notify_step (wake_step (stop_step ?j0))"
  have "join_step ?s (?s\<lparr>jn_at := Locking\<rparr>)" "join_step (?s\<lparr>jn_at := Locking\<rparr>) (?s\<lparr>jn_at := Testing\<rparr>)"
    "join_step (?s\<lparr>jn_at := Testing\<rparr>) ?j0"
    by (rule join_step.main, simp add: join_defs)+
  then have 0: "join_reach ?j0" by (meson rtranclp.rtrancl_refl rtranclp.rtrancl_into_rtrancl)
  have 1: "join_step ?j0 (stop_step ?j0)" "join_step (stop_step ?j0) (wake_step (stop_step ?j0))" "join_step (wake_step (stop_step ?j0)) ?j1"
    by (rule join_step.stop join_step.wake join_step.notify, simp add: join_defs)+
  have 2: "join_step ?j1 (?j1\<lparr>jn_at := Asleep\<rparr>)" by (rule join_step.main) (simp add: join_defs)
  from 0 1 2 have "join_reach (?j1\<lparr>jn_at := Asleep\<rparr>)" by (meson rtranclp.rtrancl_into_rtrancl)
  then show ?thesis
    by (rule_tac exI [of _ "?j1\<lparr>jn_at := Asleep\<rparr>"]) (simp add: helped_def join_defs)
qed

end
