(* ===== verification/Auth.thy ===== *)
theory Auth
  imports Server
begin

text \<open>
  The authentication server, \<open>auth/MyAuth.cpp\<close>: it checks an account against the database, creates a
  session in Redis and sends the client away with the cookie, or tells it where its session is.
\<close>

section \<open>What is outside\<close>

text \<open>
  The parameters of a server: Redis, the SQL statements, SHA-256, the clock (a function of the state
  of the outside world, which \<open>sv_db\<close> is) and the number of times the search for an unused cookie is
  followed. The search of the code has no bound; \<open>fresh_cookie_found\<close> below says which bound is enough.
\<close>

record ('r, 'd) env =
  en_srv :: "'r pipeline"
  en_sql :: "'d sql"
  en_sha :: "byte list \<Rightarrow> byte list"
  en_clock :: "'d \<Rightarrow> 64 word"
  en_fuel :: nat

datatype auth_recv = Auth_Client
datatype auth_timer = Auth_Session

type_synonym ('r, 'd) auth = "(auth_timer, auth_recv, 'r, 'd) server"

definition keyword_match :: string where
  "keyword_match = ''match''"

section \<open>Login\<close>

definition auth_header :: "nat \<Rightarrow> byte_queue \<Rightarrow> (('r, 'd) auth, byte \<times> Hash_t \<times> byte list) db" where
  "auth_header c packet =
     db_bind (db_lift (pop_byte packet)) (\<lambda>(header, packet).
       if header = ANS_HEARTBEAT then
         db_bind (c_FillTTL c SESSION_TTL) (\<lambda>_. db_return (header, [], []))
       else if header = REQ_REGISTER \<or> header = REQ_LOGIN then
         db_bind (db_lift (pop_hash packet)) (\<lambda>(pwd_hash, packet).
         db_bind (db_lift (popstr False packet)) (\<lambda>(email, packet).
           db_return (header, pwd_hash, email)))
       else db_throw (Std (StackTraceExcept ''Unknown Header'')))"

definition auth_account ::
  "('r, 'd) env \<Rightarrow> nat \<Rightarrow> byte \<Rightarrow> Hash_t \<Rightarrow> byte list \<Rightarrow> (('r, 'd) auth, Account_ID_t) db" where
  "auth_account E c header pwd_hash email =
     (if email = [] then db_return 0
      else
        with_connection (en_sql E) (\<lambda>db.
          db_bind
            (if header = REQ_REGISTER
             then use_db db (RegisterAccount (en_sha E) (en_sql E) (string_of email) pwd_hash)
             else use_db db (FindAccount (en_sha E) (en_sql E) (string_of email) pwd_hash))
            (\<lambda>account_id.
               if account_id = 0 then
                 db_bind (acts [c_Send c (code ERR_NO_MATCH_ACCOUNT), use_db db (exec (sql_abort (en_sql E)))])
                   (\<lambda>_. db_return 0)
               else
                 db_bind (use_db db (exec (sql_commit (en_sql E)))) (\<lambda>_. db_return account_id))))"

section \<open>Sessions\<close>

text \<open>The loop that hashes the cookie again while it is in use.\<close>

primrec fresh_cookie :: "('r, 'd) env \<Rightarrow> nat \<Rightarrow> Hash_t \<Rightarrow> (('r, 'd) auth, Hash_t) db" where
  "fresh_cookie E 0 cookie = db_throw (Std (Waits_forever ''search for a cookie''))"
| "fresh_cookie E (Suc n) cookie =
     db_bind (on_redis_throw (GetInfoFromCookie (en_srv E) cookie)) (\<lambda>info. case info of
         Inr _ \<Rightarrow> fresh_cookie E n (en_sha E cookie)
       | Inl _ \<Rightarrow> db_return cookie)"

definition cookie_seed :: "('r, 'd) env \<Rightarrow> Account_ID_t \<Rightarrow> 'd \<Rightarrow> Hash_t" where
  "cookie_seed E account_id d =
     sha256_queue (en_sha E) (bq_add (Create True (obj True account_id)) (Create True (obj True (en_clock E d))))"

definition auth_new_session :: "('r, 'd) env \<Rightarrow> nat \<Rightarrow> Account_ID_t \<Rightarrow> (('r, 'd) auth, unit) db" where
  "auth_new_session E c account_id =
     db_bind (gets (\<lambda>w. cookie_seed E account_id (sv_db w))) (\<lambda>seed.
     db_bind (fresh_cookie E (en_fuel E) seed) (\<lambda>cookie.
     db_bind (on_redis (SetInfo (en_srv E) account_id cookie keyword_match)) (\<lambda>result.
       if \<not> ec_isSuccessed result then c_Send c (code ERR_DB_FAILED)
       else acts [c_Send c (bq_add (code SUCCESS) (Create True cookie)), c_Close c])))"

text \<open>
  \<open>std::regex_search\<close> with \<open>\d+$\<close>: the leftmost match is the longest run of digits at the end; its
  prefix is what stands before it.
\<close>

definition regex_number :: "string \<Rightarrow> (string \<times> string) option" where
  "regex_number s =
     (let ds = rev (takeWhile is_digit (rev s))
      in if ds = [] then None else Some (take (length s - length ds) s, ds))"

definition battle_server_id :: "string \<Rightarrow> int" where
  "battle_server_id serverName = (case regex_number serverName of
       None \<Rightarrow> - 1
     | Some (prefix, ds) \<Rightarrow>
         if prefix \<noteq> ''battle'' then - 1
         else (case stoi ds of Inl _ \<Rightarrow> - 1 | Inr n \<Rightarrow> n))"

definition auth_old_session :: "nat \<Rightarrow> Hash_t \<Rightarrow> string \<Rightarrow> (('r, 'd) auth, unit) db" where
  "auth_old_session c cookie serverName =
     acts
       [if serverName = keyword_match then c_Send c (bq_add (code ERR_EXIST_ACCOUNT_MATCH) (Create True cookie))
        else
          (let server_id = battle_server_id serverName
           in if server_id > 0
              then c_Send c (bq_add (bq_add (code ERR_EXIST_ACCOUNT_BATTLE) (Create True cookie))
                     (Create True (obj True (word_of_int server_id :: 32 word))))
              else c_Send c (code ERR_DB_FAILED)),
        c_Close c]"

definition auth_session :: "('r, 'd) env \<Rightarrow> nat \<Rightarrow> Account_ID_t \<Rightarrow> (('r, 'd) auth, unit) db" where
  "auth_session E c account_id =
     db_bind (on_redis_throw (GetInfoFromID (en_srv E) account_id)) (\<lambda>info. case info of
         Inl err \<Rightarrow>
           acts
             [if m_code err = uint ERR_CONNECTION_CLOSED then c_Send c (code ERR_DB_FAILED) else db_return (),
              auth_new_session E c account_id]
       | Inr (cookie, serverName) \<Rightarrow> auth_old_session c cookie serverName)"

section \<open>The handlers\<close>

definition auth_packet :: "('r, 'd) env \<Rightarrow> nat \<Rightarrow> byte_queue \<Rightarrow> (('r, 'd) auth, unit) db" where
  "auth_packet E c packet =
     db_bind (auth_header c packet) (\<lambda>(header, pwd_hash, email).
     db_bind (auth_account E c header pwd_hash email) (\<lambda>account_id.
       if account_id > 0 then auth_session E c account_id else db_return ()))"

definition auth_caught :: "nat \<Rightarrow> db_exn \<Rightarrow> (('r, 'd) auth, unit) db" where
  "auth_caught c e = (case e of
       Pq Unique_violation \<Rightarrow> c_Send c (code ERR_EXIST_ACCOUNT)
     | Pq No_data_found \<Rightarrow> c_Send c (code ERR_NO_MATCH_ACCOUNT)
     | Pq Unexpected_rows \<Rightarrow> c_Send c (code ERR_NO_MATCH_ACCOUNT)
     | Pq _ \<Rightarrow> c_Send c (code ERR_DB_FAILED)
     | Std _ \<Rightarrow> c_Send c (code ERR_PROTOCOL_VIOLATION))"

definition auth_handler ::
  "('r, 'd) env \<Rightarrow> nat \<Rightarrow> byte_queue \<Rightarrow> error_code \<Rightarrow> (('r, 'd) auth, unit) db \<Rightarrow> (('r, 'd) auth, unit) db" where
  "auth_handler E c packet recv_ec again =
     (if \<not> ec_isSuccessed recv_ec then c_Close c
      else acts [db_catch (auth_packet E c packet) (auth_caught c), again])"

text \<open>\<open>ClientProcess\<close>, with the messages that are in the receive buffer of the socket.\<close>

primrec auth_ClientProcess :: "('r, 'd) env \<Rightarrow> nat \<Rightarrow> byte list list \<Rightarrow> (('r, 'd) auth, unit) db" where
  "auth_ClientProcess E c [] = c_StartRecv c Auth_Client None"
| "auth_ClientProcess E c (m # ms) =
     c_StartRecv c Auth_Client
       (Some (auth_handler E c (bq_of_vector True m) (ErrorCode_custom SUCCESS) (auth_ClientProcess E c ms)))"

definition auth_SessionProcess :: "nat \<Rightarrow> (('r, 'd) auth, unit) db" where
  "auth_SessionProcess c = c_SetTimeout c Auth_Session"

text \<open>The callback of the timer.\<close>

definition auth_session_timer :: "nat \<Rightarrow> (('r, 'd) auth, unit) db" where
  "auth_session_timer c =
     db_bind (gets (is_open c)) (\<lambda>opened.
       if \<not> opened then db_return ()
       else
         db_bind (c_CountTTL c) (\<lambda>alive.
           if alive then acts [c_Send c (code ANS_HEARTBEAT), auth_SessionProcess c]
           else c_Close c))"

definition auth_AcceptProcess :: "('r, 'd) env \<Rightarrow> nat \<Rightarrow> error_code \<Rightarrow> byte list list \<Rightarrow> (('r, 'd) auth, unit) db" where
  "auth_AcceptProcess E c ec ms =
     db_bind (gets (is_open c)) (\<lambda>opened.
       if \<not> ec_isSuccessed ec \<or> \<not> opened then c_Close c
       else acts [c_FillTTL c SESSION_TTL, auth_ClientProcess E c ms, auth_SessionProcess c])"

text \<open>A read completes (\<open>Recv_Handle\<close>): with an error, or with the messages it makes available.\<close>

definition auth_received :: "('r, 'd) env \<Rightarrow> nat \<Rightarrow> error_code option \<Rightarrow> byte list list \<Rightarrow> (('r, 'd) auth, unit) db" where
  "auth_received E c err ms =
     acts
       [modify (upd_client c (\<lambda>s. s\<lparr>cl_handler := None\<rparr>)),
        case err of
          Some ec \<Rightarrow> acts [auth_handler E c (bq_new True) ec (db_return ()), c_Close c]
        | None \<Rightarrow>
            (case ms of
               [] \<Rightarrow> auth_ClientProcess E c []
             | m # ms \<Rightarrow>
                 auth_handler E c (bq_of_vector True m) (ErrorCode_custom SUCCESS) (auth_ClientProcess E c ms))]"

section \<open>No exception leaves the handlers\<close>

lemma calm_caught [calm_intros]: "calm (auth_caught c e)"
  unfolding auth_caught_def by (auto split: db_exn.splits pqxx_error.splits intro: calm_intros)

lemma calm_handler [calm_intros]: "calm again \<Longrightarrow> calm (auth_handler E c packet ec again)"
  unfolding auth_handler_def by (auto intro!: calm_intros)

lemma calm_ClientProcess [calm_intros]: "calm (auth_ClientProcess E c ms)"
  by (induction ms) (auto intro!: calm_intros)

lemma calm_received: "calm (auth_received E c err ms)"
  unfolding auth_received_def by (auto intro!: calm_intros split: option.splits list.splits)

lemma calm_AcceptProcess: "calm (auth_AcceptProcess E c ec ms)"
  unfolding auth_AcceptProcess_def auth_SessionProcess_def by (auto intro!: calm_intros)

lemma calm_session_timer: "calm (auth_session_timer c)"
  unfolding auth_session_timer_def auth_SessionProcess_def by (auto intro!: calm_intros)

section \<open>Cookies\<close>

lemma fresh_cookie_found:
  assumes "redis_up (en_srv E) store (sv_redis w)" "k < n"
    and "\<And>j. j < k \<Longrightarrow> \<exists>a m. has_session (store (rd_server (sv_redis w))) a ((en_sha E ^^ j) cookie) m"
    and "store (rd_server (sv_redis w)) (cookie_key ((en_sha E ^^ k) cookie)) = None"
  shows "\<exists>rd'. fresh_cookie E n cookie w = (Inr ((en_sha E ^^ k) cookie), w\<lparr>sv_redis := rd'\<rparr>) \<and>
     redis_up (en_srv E) store rd' \<and> store (rd_server rd') = store (rd_server (sv_redis w))"
  using assms
proof (induction n arbitrary: k cookie w)
  case (Suc n)
  show ?case
  proof (cases k)
    case 0
    obtain rd1 where "GetInfoFromCookie (en_srv E) cookie (sv_redis w) = Inr (Inl (ErrorCode_custom ERR_NO_MATCH_ACCOUNT), rd1)"
      "redis_up (en_srv E) store rd1" "store (rd_server rd1) = store (rd_server (sv_redis w))"
      using GetInfoFromCookie_none [OF Suc.prems(1), of cookie] Suc.prems(4) 0 by auto
    then show ?thesis by (auto simp: 0 run_defs)
  next
    case (Suc k')
    obtain a m where "has_session (store (rd_server (sv_redis w))) a cookie m"
      using Suc.prems(3) [of 0] Suc by auto
    then obtain rd1 where r: "GetInfoFromCookie (en_srv E) cookie (sv_redis w) = Inr (Inr (a, m), rd1)"
      "redis_up (en_srv E) store rd1" "store (rd_server rd1) = store (rd_server (sv_redis w))"
      using GetInfoFromCookie_up [OF Suc.prems(1)] by metis
    have "\<exists>rd'. fresh_cookie E n (en_sha E cookie) (w\<lparr>sv_redis := rd1\<rparr>) =
        (Inr ((en_sha E ^^ k') (en_sha E cookie)), w\<lparr>sv_redis := rd1\<rparr>\<lparr>sv_redis := rd'\<rparr>) \<and>
        redis_up (en_srv E) store rd' \<and> store (rd_server rd') = store (rd_server (sv_redis (w\<lparr>sv_redis := rd1\<rparr>)))"
      using Suc.prems(2-4) Suc r(2,3) Suc.prems(3) [of "Suc j" for j]
      by (intro Suc.IH) (auto simp: funpow_swap1)
    then show ?thesis using r Suc by (auto simp: run_defs funpow_swap1)
  qed
qed simp

section \<open>Login, step by step\<close>

lemma auth_header_login:
  assumes "length pwd = 32" "length email < 2 ^ 30"
  shows "auth_header c (bq_of_vector True (REQ_LOGIN # pwd @ email)) w = (Inr (REQ_LOGIN, pwd, email), w)"
proof -
  let ?v = "REQ_LOGIN # pwd @ email" and ?q = "bq_of_vector True (REQ_LOGIN # pwd @ email)"
  have l: "length ?v < 2 ^ 31" using assms by simp
  have h: "pop_hash (?q\<lparr>bq_ptr := 1\<rparr>) = Inr (pwd, ?q\<lparr>bq_ptr := 33\<rparr>)"
    using pop_hash_packet [OF l, of "?q\<lparr>bq_ptr := 1\<rparr>"] assms by simp
  have "bq_wf (?q\<lparr>bq_ptr := 33\<rparr>)" "bq_rest (?q\<lparr>bq_ptr := 33\<rparr>) = email"
    using assms by (simp_all add: bq_wf_def bq_rest_def)
  then have "popstr False (?q\<lparr>bq_ptr := 33\<rparr>) = Inr (email, ?q\<lparr>bq_ptr := 33, bq_ptr := 33 + Remain (?q\<lparr>bq_ptr := 33\<rparr>)\<rparr>)"
    using popstr_read [of "?q\<lparr>bq_ptr := 33\<rparr>" False] by simp
  then show ?thesis
    using pop_byte_packet [OF l] h by (simp add: auth_header_def run_defs)
qed

lemma auth_account_login:
  assumes "pool_ready (en_sql E) ptr ptrs w" "email \<noteq> []" "i \<noteq> 0"
    and "FindAccount (en_sha E) (en_sql E) (string_of email) pwd (sv_db w) = (Inr i, d1)"
    and "sql_commit (en_sql E) d1 = (Inr (), d2)"
  shows "auth_account E c REQ_LOGIN pwd email w =
    (Inr i, w\<lparr>sv_db := sql_end (en_sql E) d2, sv_pool := (sv_pool w)\<lparr>pl_waitPool := ptrs @ [ptr]\<rparr>\<rparr>)"
  using assms(2-5)
  by (simp add: auth_account_def with_connection_run [OF assms(1)] run_defs end_connection_def release_def)

lemma auth_new_session_ok:
  assumes "redis_up (en_srv E) store (sv_redis w)" "live c w s" "k < en_fuel E"
    and "\<And>j. j < k \<Longrightarrow> \<exists>a m. has_session (store (rd_server (sv_redis w))) a ((en_sha E ^^ j) (cookie_seed E i (sv_db w))) m"
    and "store (rd_server (sv_redis w)) (cookie_key ((en_sha E ^^ k) (cookie_seed E i (sv_db w)))) = None"
  shows "\<exists>rd'. auth_new_session E c i w = (Inr (), (close_client c
        (upd_client c (sk_Send (0 # (en_sha E ^^ k) (cookie_seed E i (sv_db w)))) w))\<lparr>sv_redis := rd'\<rparr>) \<and>
     redis_up (en_srv E) store rd' \<and>
     store (rd_server rd') = (store (rd_server (sv_redis w)))
       (cookie_key ((en_sha E ^^ k) (cookie_seed E i (sv_db w))) \<mapsto> RList [idstr i, keyword_match],
        account_key i \<mapsto> RStr (cookieStr ((en_sha E ^^ k) (cookie_seed E i (sv_db w)))))"
proof -
  let ?c = "(en_sha E ^^ k) (cookie_seed E i (sv_db w))"
  obtain rd1 where 1: "fresh_cookie E (en_fuel E) (cookie_seed E i (sv_db w)) w = (Inr ?c, w\<lparr>sv_redis := rd1\<rparr>)"
    "redis_up (en_srv E) store rd1" "store (rd_server rd1) = store (rd_server (sv_redis w))"
    using fresh_cookie_found [OF assms(1,3,4,5)] by blast
  have "nospace keyword_match" by (simp add: nospace_def keyword_match_def)
  then obtain rd2 where 2: "SetInfo (en_srv E) i ?c keyword_match rd1 = (ErrorCode_custom SUCCESS, rd2)"
    "redis_up (en_srv E) store rd2"
    "store (rd_server rd2) = (store (rd_server rd1))(cookie_key ?c \<mapsto> RList [idstr i, keyword_match], account_key i \<mapsto> RStr (cookieStr ?c))"
    using SetInfo_up [OF 1(2)] by metis
  have "auth_new_session E c i w = (Inr (), close_client c
      (upd_client c (sk_Send (0 # ?c)) (w\<lparr>sv_redis := rd2\<rparr>)))"
    by (simp add: auth_new_session_def run_defs 1(1) 2(1) ec_isSuccessed_def ErrorCode_custom_def vector_def)
  also have "\<dots> = (Inr (), (close_client c (upd_client c (sk_Send (0 # ?c)) w))\<lparr>sv_redis := rd2\<rparr>)"
    by (simp add: close_client_def upd_client_def RemoveClient_def Let_def split: option.splits)
  finally show ?thesis using 2(2,3) 1(3) by auto
qed

section \<open>Names of the battle servers\<close>

lemma takeWhile_digits: "takeWhile is_digit (rev (digits n) @ rest) = rev (digits n) @ takeWhile is_digit rest"
proof (rule takeWhile_append2)
  fix x
  assume "x \<in> set (rev (digits n))"
  then obtain k where "k < 10" "x = digit k" using digits_all [of x n] by auto
  then show "is_digit x" using digit_props by blast
qed

lemma regex_battle: "regex_number (''battle'' @ digits n) = Some (''battle'', digits n)"
proof -
  have "takeWhile is_digit (rev ''battle'') = []" by code_simp
  then have "takeWhile is_digit (rev (''battle'' @ digits n)) = rev (digits n)"
    using takeWhile_digits [of n "rev ''battle''"] by simp
  then show ?thesis by (simp add: regex_number_def Let_def)
qed

lemma battle_server_id_name:
  assumes "0 < n" "n < 2 ^ 31"
  shows "battle_server_id (''battle'' @ to_string_int n) = n"
  using assms regex_battle [of "nat n"] stoi_to_string [of n]
  by (simp add: battle_server_id_def to_string_int_def)

lemma battle_name_not_match: "''battle'' @ s \<noteq> keyword_match"
  by (simp add: keyword_match_def)

section \<open>Properties\<close>

text \<open>
  C6. A login with the right password creates a session: if the database is reachable and accepts the
  password for account \<open>i\<close>, and the account has no session, then with Redis up the server stores the
  account, with the first unused cookie of the chain of hashes, as a session of the match server,
  answers \<open>SUCCESS\<close> and the cookie, closes the connection, and gives the database connection back.
  The number of rounds of the search is enough as soon as it exceeds the number of cookies in use on
  the chain.
\<close>

theorem auth_login:
  assumes "redis_up (en_srv E) store (sv_redis w)" "pool_ready (en_sql E) ptr ptrs w" "live c w s"
    and "length pwd = 32" "email \<noteq> []" "length email < 2 ^ 30" "i \<noteq> 0"
    and "FindAccount (en_sha E) (en_sql E) (string_of email) pwd (sv_db w) = (Inr i, d1)"
    and "sql_commit (en_sql E) d1 = (Inr (), d2)"
    and "store (rd_server (sv_redis w)) (account_key i) = None"
    and "seed = cookie_seed E i (sql_end (en_sql E) d2)" "k < en_fuel E"
    and "\<And>j. j < k \<Longrightarrow> \<exists>a m. has_session (store (rd_server (sv_redis w))) a ((en_sha E ^^ j) seed) m"
    and "store (rd_server (sv_redis w)) (cookie_key ((en_sha E ^^ k) seed)) = None"
  shows "\<exists>w' s'. auth_received E c None [REQ_LOGIN # pwd @ email] w = (Inr (), w') \<and>
     redis_up (en_srv E) store (sv_redis w') \<and>
     has_session (store (rd_server (sv_redis w'))) i ((en_sha E ^^ k) seed) keyword_match \<and>
     store (rd_server (sv_redis w')) (account_key i) = Some (RStr (cookieStr ((en_sha E ^^ k) seed))) \<and>
     sv_objects w' c = Some s' \<and> sk_out s' = sk_out s @ [0 # (en_sha E ^^ k) seed] \<and> sk_closing s' \<and>
     pl_used (sv_pool w') = pl_used (sv_pool w) \<and> set (pl_waitPool (sv_pool w')) = set (pl_waitPool (sv_pool w))"
proof -
  let ?w1 = "upd_client c (\<lambda>s. s\<lparr>cl_handler := None\<rparr>) w"
  let ?w2 = "?w1\<lparr>sv_db := sql_end (en_sql E) d2, sv_pool := (sv_pool w)\<lparr>pl_waitPool := ptrs @ [ptr]\<rparr>\<rparr>"
  let ?ck = "(en_sha E ^^ k) seed"
  have frame: "sv_redis ?w1 = sv_redis w" "sv_pool ?w1 = sv_pool w" "sv_db ?w1 = sv_db w"
    by (simp_all add: upd_client_def)
  have p: "pool_ready (en_sql E) ptr ptrs ?w1" using assms(2) by (simp add: pool_ready_def frame)
  have acc: "auth_account E c REQ_LOGIN pwd email ?w1 = (Inr i, ?w2)"
    using auth_account_login [OF p assms(5,7)] assms(8,9) frame by simp
  obtain rd1 where g: "GetInfoFromID (en_srv E) i (sv_redis w) = Inr (Inl (ErrorCode_custom ERR_NO_MATCH_ACCOUNT), rd1)"
    "redis_up (en_srv E) store rd1" "store (rd_server rd1) = store (rd_server (sv_redis w))"
    using GetInfoFromID_none [OF assms(1,10)] by metis
  let ?w3 = "?w2\<lparr>sv_redis := rd1\<rparr>"
  have lv: "live c ?w3 (s\<lparr>cl_handler := None\<rparr>)" using assms(3) by (simp add: live_def upd_client_def)
  obtain rd2 where n: "auth_new_session E c i ?w3 = (Inr (), (close_client c (upd_client c (sk_Send (0 # ?ck)) ?w3))\<lparr>sv_redis := rd2\<rparr>)"
    "redis_up (en_srv E) store rd2"
    "store (rd_server rd2) = (store (rd_server (sv_redis w)))(cookie_key ?ck \<mapsto> RList [idstr i, keyword_match],
        account_key i \<mapsto> RStr (cookieStr ?ck))"
    using auth_new_session_ok [of E store ?w3 c "s\<lparr>cl_handler := None\<rparr>" k i] g(2,3) lv assms(11-14) by auto
  let ?w4 = "(close_client c (upd_client c (sk_Send (0 # ?ck)) ?w3))\<lparr>sv_redis := rd2\<rparr>"
  have "auth_packet E c (bq_of_vector True (REQ_LOGIN # pwd @ email)) ?w1 = (Inr (), ?w4)"
    using auth_header_login [OF assms(4,6), of c ?w1] acc g(1) n(1) assms(7) frame(1)
    by (simp add: auth_packet_def auth_session_def run_defs ErrorCode_custom_def word_neq_0_conv)
  moreover have o: "sv_objects ?w4 c = Some (sk_Close (sk_Send (0 # ?ck) (s\<lparr>cl_handler := None\<rparr>)))"
    "sv_pool ?w4 = (sv_pool w)\<lparr>pl_waitPool := ptrs @ [ptr]\<rparr>"
    using lv by (auto simp: live_def close_client_def upd_client_def sk_Send_def Let_def)
  moreover have "\<not> can_recv c ?w4" using o(1) lv by (simp add: can_recv_def sk_Close_def)
  ultimately have "auth_received E c None [REQ_LOGIN # pwd @ email] w = (Inr (), ?w4)"
    by (simp add: auth_received_def auth_handler_def run_defs ec_isSuccessed_def ErrorCode_custom_def)
  then show ?thesis
    using o n(2,3) lv assms(2) by (auto simp: has_session_def sk_Close_def sk_Send_def live_def pool_ready_def)
qed

definition auth_example_env :: "(rstore, string option) env" where
  "auth_example_env = \<lparr>en_srv = ref_redis, en_sql = one_user_sql, en_sha = (\<lambda>_. replicate 32 9), en_clock = (\<lambda>_. 0), en_fuel = 1\<rparr>"

definition auth_example :: "(rstore, string option) auth" where
  "auth_example = \<lparr>sv_isRunning = True, sv_accepting = True,
     sv_objects = [0 \<mapsto> \<lparr>sk_open = True, sk_closing = False, sk_out = [], sk_ttl = 4, sk_timer = None,
                        cl_is_open = True, cl_handler = Some Auth_Client\<rparr>],
     sv_clients = [0], sv_redis = ref_conn, sv_pool = MyPostgresPool [Some True],
     sv_db = Some (EncodeBase64 (replicate 32 9)), sv_thrown = [], sv_graceful = False\<rparr>"

lemma auth_example_hash: "hash_iter (\<lambda>_. replicate 32 9) i pwd rt = replicate 32 9"
proof -
  have "0 < n \<Longrightarrow> ((\<lambda>_. replicate 32 9) ^^ n) pwd = (replicate 32 9 :: byte list)" for n :: nat
    by (cases n) simp_all
  then show ?thesis by (simp add: hash_iter_def)
qed

theorem auth_login_witness:
  "\<exists>w' s'. auth_received auth_example_env 0 None [REQ_LOGIN # replicate 32 1 @ [109]] auth_example = (Inr (), w') \<and>
     sv_objects w' 0 = Some s' \<and> sk_out s' = [0 # replicate 32 9]"
proof -
  let ?E = auth_example_env and ?w = auth_example
  have r: "redis_up (en_srv ?E) id (sv_redis ?w)"
    using ref_conn_up by (simp add: auth_example_env_def auth_example_def)
  have p: "pool_ready (en_sql ?E) 0 [] ?w"
    by (simp add: pool_ready_def auth_example_def auth_example_env_def MyPostgresPool_def one_user_sql_def)
  obtain s where s: "live 0 ?w s" "sk_out s = []"
    by (simp add: live_def auth_example_def)
  have "select_by_email one_user_sql (string_of [109]) (sv_db ?w) = (Inr (3, EncodeBase64 (replicate 32 9), ''now''), sv_db ?w)"
    by (simp add: one_user_sql_def auth_example_def)
  then have f: "FindAccount (en_sha ?E) (en_sql ?E) (string_of [109]) (replicate 32 1) (sv_db ?w) = (Inr 3, sv_db ?w)"
    using FindAccount_row [of "en_sha ?E" "replicate 32 1" "replicate 32 9" one_user_sql "string_of [109]" "sv_db ?w" 3 "''now''" "sv_db ?w"]
    by (simp add: auth_example_env_def auth_example_hash)
  have c: "sql_commit (en_sql ?E) (sv_db ?w) = (Inr (), sv_db ?w)" by (simp add: auth_example_env_def one_user_sql_def)
  have k: "cookie_seed ?E 3 d = replicate 32 9" for d by (simp add: cookie_seed_def sha256_queue_def auth_example_env_def)
  have n: "id (rd_server (sv_redis ?w)) x = None" for x by (simp add: auth_example_def)
  have "\<exists>w' s'. auth_received ?E 0 None [REQ_LOGIN # replicate 32 1 @ [109]] ?w = (Inr (), w') \<and>
      sv_objects w' 0 = Some s' \<and> sk_out s' = sk_out s @ [0 # (en_sha ?E ^^ 0) (replicate 32 9)]"
    using auth_login [OF r p s(1) _ _ _ _ f c, where k = 0 and seed = "replicate 32 9"] n k
    by (simp add: auth_example_env_def del: funpow.simps id_apply) blast
  then show ?thesis using s(2) by simp
qed

text \<open>
  An account that has a session is sent to it: with Redis up, a login of an account whose session is
  with the match server or with the battle server \<open>n\<close>, under the name \<open>battle\<close>\<^emph>\<open>n\<close> that the match server
  writes, gets the cookie and, for a battle server, exactly this number; the connection is closed
  and the stored session is not touched.
\<close>

theorem auth_existing_session:
  assumes "redis_up (en_srv E) store (sv_redis w)" "live c w s" "length ck = 32"
    and "store (rd_server (sv_redis w)) (account_key i) = Some (RStr (cookieStr ck))"
    and "has_session (store (rd_server (sv_redis w))) i ck name"
    and "name = keyword_match \<and> answer = 13 # ck \<or>
      (\<exists>n. 0 < n \<and> n < 2 ^ 31 \<and> name = ''battle'' @ to_string_int n \<and> answer = 14 # ck @ obj True (word_of_int n :: 32 word))"
  shows "\<exists>w' s'. auth_session E c i w = (Inr (), w') \<and>
     store (rd_server (sv_redis w')) = store (rd_server (sv_redis w)) \<and>
     sv_objects w' c = Some s' \<and> sk_out s' = sk_out s @ [answer] \<and> sk_closing s'"
proof -
  obtain rd1 where g: "GetInfoFromID (en_srv E) i (sv_redis w) = Inr (Inr (ck, name), rd1)"
    "store (rd_server rd1) = store (rd_server (sv_redis w))"
    using GetInfoFromID_up [OF assms(1,4,5,3)] by metis
  have "auth_session E c i w = (Inr (), close_client c (upd_client c (sk_Send answer) (w\<lparr>sv_redis := rd1\<rparr>)))"
    using assms(6) battle_server_id_name battle_name_not_match
    by (auto simp: auth_session_def auth_old_session_def run_defs g(1) vector_def keyword_match_def)
  then show ?thesis
    using assms(2) g(2) by (auto simp: live_def close_client_def upd_client_def sk_Send_def sk_Close_def Let_def)
qed

theorem auth_existing_session_witness:
  "\<exists>w' s'. auth_session auth_example_env 0 3 (auth_example\<lparr>sv_redis := ref_conn\<lparr>rd_server :=
       [cookie_key (replicate 32 5) \<mapsto> RList [idstr 3, ''battle'' @ to_string_int 12],
        account_key 3 \<mapsto> RStr (cookieStr (replicate 32 5))]\<rparr>\<rparr>) = (Inr (), w') \<and>
     sv_objects w' 0 = Some s' \<and> sk_out s' = [14 # replicate 32 5 @ obj True (12 :: 32 word)]"
proof -
  let ?w = "auth_example\<lparr>sv_redis := ref_conn\<lparr>rd_server :=
       [cookie_key (replicate 32 5) \<mapsto> RList [idstr 3, ''battle'' @ to_string_int 12],
        account_key 3 \<mapsto> RStr (cookieStr (replicate 32 5))]\<rparr>\<rparr>"
  have r: "redis_up (en_srv auth_example_env) id (sv_redis ?w)"
    by (simp add: redis_up_def redis_ok_ref rd_is_open_def nospace_def auth_example_env_def)
  obtain s where s: "live 0 ?w s" "sk_out s = []" by (simp add: live_def auth_example_def)
  show ?thesis
    using auth_existing_session [OF r s(1), of "replicate 32 5" 3 "''battle'' @ to_string_int 12" "14 # replicate 32 5 @ obj True (12 :: 32 word)"] s(2)
    by (fastforce simp: has_session_def)
qed

text \<open>
  No exception leaves a handler of the authentication server: whatever a client sends and whatever
  the database or Redis do, the read handler, the handler of a new connection and the timer return,
  unless they run into undefined behaviour (the null database pointer is used unchecked) or wait
  for ever.
\<close>

theorem auth_no_exception:
  "(case fst (auth_received E c err ms w) of Inl e \<Rightarrow> \<not> catchable e | Inr _ \<Rightarrow> True) \<and>
   (case fst (auth_AcceptProcess E c ec ms w) of Inl e \<Rightarrow> \<not> catchable e | Inr _ \<Rightarrow> True) \<and>
   (case fst (auth_session_timer c w) of Inl e \<Rightarrow> \<not> catchable e | Inr _ \<Rightarrow> True)"
proof -
  have "case fst (m w) of Inl e \<Rightarrow> \<not> catchable e | Inr _ \<Rightarrow> True" if "calm m" for m :: "(('a, 'b) auth, unit) db"
    using calmD [OF that] by (cases "m w") (auto split: sum.splits)
  then show ?thesis
    using calm_received calm_AcceptProcess calm_session_timer by blast
qed

end
