(* ===== verification/MatchService.thy ===== *)
theory MatchService
  imports DeMap Codes "HOL-Library.Multiset"
begin

text \<open>
  The gRPC service of the match server, \<open>match/MatchServiceServer.cpp\<close>: the battle servers keep a
  stream open, report their usage on it and are given matches, the least loaded one first.

  gRPC is not code of the repository: a stream is a number (its pointer), the messages it delivers
  are arguments (the \<open>uint32\<close> of a \<open>Usage\<close>), and \<open>peer\<close> says for a stream whether \<open>Write\<close> succeeded and
  what the service looks like after the wait for the answer, in which the handlers of the streams
  run. A \<open>Seed_t\<close> is the signed value of an \<open>int\<close>.
\<close>

section \<open>State\<close>

record match_service =
  ms_streams :: "(int, nat, nat) demap"
  ms_Recent_Success :: int

definition MatchServiceServer :: match_service where
  "MatchServiceServer = \<lparr>ms_streams = dm_empty, ms_Recent_Success = - 1\<rparr>"

datatype grpc_status = St_OK | St_CANCELLED | St_RESOURCE_EXHAUSTED | St_ALREADY_EXISTS

section \<open>The handler of a stream\<close>

text \<open>Up to the loop: \<open>first\<close> is the message with the id of the machine; \<open>None\<close> when the handler goes on.\<close>

definition SessionStream_begin :: "nat \<Rightarrow> 32 word option \<Rightarrow> match_service \<Rightarrow> grpc_status option \<times> match_service" where
  "SessionStream_begin stream first ms =
     (if dm_Size (ms_streams ms) \<ge> 2 ^ 31 - 2 then (Some St_RESOURCE_EXHAUSTED, ms)
      else case first of
             None \<Rightarrow> (Some St_CANCELLED, ms)
           | Some usage \<Rightarrow>
               (let stream_id = sint usage;
                    (found, streams) = FindLKey 0 stream_id (ms_streams ms)
                in if found \<noteq> None then (Some St_ALREADY_EXISTS, ms\<lparr>ms_streams := streams\<rparr>)
                   else (None, ms\<lparr>ms_streams := snd (Insert stream_id stream 0 streams)\<rparr>)))"

text \<open>One round of the loop, with the message that was read and the second one; whether it goes on.\<close>

definition SessionStream_read :: "int \<Rightarrow> 32 word \<Rightarrow> 32 word option \<Rightarrow> match_service \<Rightarrow> bool \<times> match_service" where
  "SessionStream_read stream_id msg second ms =
     (let ms = ms\<lparr>ms_Recent_Success := sint msg\<rparr>
      in case second of
           Some usage \<Rightarrow> (True, ms\<lparr>ms_streams := snd (InsertLKeyValue stream_id (unat usage) (ms_streams ms))\<rparr>)
         | None \<Rightarrow> (False, ms\<lparr>ms_Recent_Success := 0\<rparr>))"

definition SessionStream_end :: "int \<Rightarrow> match_service \<Rightarrow> grpc_status \<times> match_service" where
  "SessionStream_end stream_id ms = (St_OK, ms\<lparr>ms_streams := snd (EraseLKey 0 stream_id (ms_streams ms))\<rparr>)"

section \<open>Handing out a match\<close>

text \<open>\<open>std::min_element\<close> on a vector that is not empty: the position of the first smallest element.\<close>

definition min_element :: "('a \<Rightarrow> nat) \<Rightarrow> 'a list \<Rightarrow> nat" where
  "min_element key xs = fold (\<lambda>i best. if key (xs ! i) < key (xs ! best) then i else best) [1..<length xs] 0"

definition erase_at :: "nat \<Rightarrow> 'a list \<Rightarrow> 'a list" where
  "erase_at i xs = take i xs @ drop (Suc i) xs"

type_synonym stream = "int \<times> nat \<times> nat"

type_synonym peers = "stream \<Rightarrow> match_service \<Rightarrow> bool \<times> match_service"

abbreviation (input) stream_usage :: "stream \<Rightarrow> nat" where
  "stream_usage s \<equiv> snd (snd s)"

definition attempt :: "peers \<Rightarrow> stream \<Rightarrow> match_service \<Rightarrow> bool \<times> match_service" where
  "attempt peer s ms =
     (let (written, ms) = peer s (ms\<lparr>ms_Recent_Success := - 1\<rparr>)
      in (written \<and> ms_Recent_Success ms \<ge> 1, ms))"

lemma fold_min_bound:
  "best < n \<Longrightarrow> \<forall>i\<in>set is. i < n \<Longrightarrow> fold (\<lambda>i best. if key (xs ! i) < key (xs ! best) then i else best) is best < n"
  by (induction "is" arbitrary: best) auto

lemma min_element_less [simp]: "xs \<noteq> [] \<Longrightarrow> min_element key xs < length xs"
  unfolding min_element_def by (rule fold_min_bound) auto

lemma length_erase_at [simp]: "i < length xs \<Longrightarrow> length (erase_at i xs) = length xs - 1"
  by (simp add: erase_at_def)

function transfer_loop :: "peers \<Rightarrow> stream list \<Rightarrow> match_service \<Rightarrow> int \<times> match_service" where
  "transfer_loop peer vec ms =
     (if vec = [] then (- 1, ms)
      else
        (let i = min_element stream_usage vec;
             (accepted, ms) = attempt peer (vec ! i) ms
         in if accepted then (fst (vec ! i), ms)
            else transfer_loop peer (erase_at i vec) ms))"
  by pat_completeness auto
termination
  by (relation "measure (\<lambda>(peer, vec, ms). length vec)") auto

declare transfer_loop.simps [simp del]

definition TransferMatch :: "peers \<Rightarrow> match_service \<Rightarrow> int \<times> match_service" where
  "TransferMatch peer ms =
     (let (vec, streams) = GetAll 0 (ms_streams ms)
      in transfer_loop peer vec (ms\<lparr>ms_streams := streams\<rparr>))"

definition GetStreams :: "match_service \<Rightarrow> int list \<times> match_service" where
  "GetStreams ms =
     (let (vec, streams) = GetAll 0 (ms_streams ms)
      in (map fst vec, ms\<lparr>ms_streams := streams\<rparr>))"

definition ms_GetUsage :: "match_service \<Rightarrow> nat" where
  "ms_GetUsage ms = dm_Size (ms_streams ms)"

section \<open>Repeated selection is a stable sort\<close>

text \<open>What the loop amounts to: the streams in the order of their usage, each tried once.\<close>

fun try_each :: "peers \<Rightarrow> stream list \<Rightarrow> match_service \<Rightarrow> int \<times> match_service" where
  "try_each peer [] ms = (- 1, ms)"
| "try_each peer (s # ss) ms =
     (let (accepted, ms) = attempt peer s ms in if accepted then (fst s, ms) else try_each peer ss ms)"

lemma fold_min:
  fixes key :: "'a \<Rightarrow> nat"
  assumes "n \<le> length xs" "0 < n" "m = fold (\<lambda>i best. if key (xs ! i) < key (xs ! best) then i else best) [1..<n] 0"
  shows "m < n \<and> (\<forall>j<n. key (xs ! m) \<le> key (xs ! j)) \<and> (\<forall>j<m. key (xs ! m) < key (xs ! j))"
  using assms(1,2) unfolding assms(3)
proof (induction n)
  case (Suc n)
  show ?case
  proof (cases "n = 0")
    case False
    with Suc show ?thesis by (auto simp: less_Suc_eq)
  qed simp
qed simp

lemma min_element_first:
  assumes "xs \<noteq> []"
  shows "\<forall>j<length xs. key (xs ! min_element key xs) \<le> key (xs ! j)"
    "\<forall>j<min_element key xs. key (xs ! min_element key xs) < key (xs ! j)"
  using fold_min [OF order.refl _ refl, of xs key] assms by (simp_all add: min_element_def)

lemma mset_erase_at: "i < length xs \<Longrightarrow> add_mset (xs ! i) (mset (erase_at i xs)) = mset xs"
proof -
  assume "i < length xs"
  then have "xs = take i xs @ xs ! i # drop (Suc i) xs" by (rule id_take_nth_drop)
  then have "mset xs = mset (take i xs @ xs ! i # drop (Suc i) xs)" by simp
  then show ?thesis by (simp add: erase_at_def)
qed

lemma sort_key_min:
  assumes "xs \<noteq> []"
  shows "sort_key key xs = xs ! min_element key xs # sort_key key (erase_at (min_element key xs) xs)"
proof -
  let ?m = "min_element key xs" and ?ys = "erase_at (min_element key xs) xs"
  note m = min_element_less [OF assms, of key] min_element_first [OF assms, of key]
  have low: "key (xs ! ?m) \<le> key y" if "y \<in> set xs" for y
    using that m(2) by (auto simp: in_set_conv_nth)
  have ys: "set ?ys \<subseteq> set xs" by (auto simp: erase_at_def dest: in_set_takeD in_set_dropD)
  have early: "key y \<noteq> key (xs ! ?m)" if "y \<in> set (take ?m xs)" for y
    using that m(1,3) by (auto simp: in_set_conv_nth)
  have stable: "filter (\<lambda>x. key k = key x) (xs ! ?m # ?ys) = filter (\<lambda>x. key k = key x) xs" for k
  proof -
    have "xs = take ?m xs @ xs ! ?m # drop (Suc ?m) xs" using m(1) by (rule id_take_nth_drop)
    then have "filter (\<lambda>x. key k = key x) xs =
        filter (\<lambda>x. key k = key x) (take ?m xs) @ filter (\<lambda>x. key k = key x) (xs ! ?m # drop (Suc ?m) xs)"
      by (metis filter_append)
    moreover have "filter (\<lambda>x. key k = key x) (take ?m xs) = []" if "key k = key (xs ! ?m)"
      unfolding filter_empty_conv using early that by metis
    ultimately show ?thesis by (auto simp: erase_at_def)
  qed
  show ?thesis
  proof (rule properties_for_sort_key)
    show "mset (xs ! ?m # sort_key key ?ys) = mset xs" using mset_erase_at [OF m(1)] by simp
    show "filter (\<lambda>x. key k = key x) (xs ! ?m # sort_key key ?ys) = filter (\<lambda>x. key k = key x) xs" for k
      using stable [of k] sort_key_stable [of key "key k" ?ys] by (auto simp: eq_commute [of "key k"] split: if_splits)
    show "sorted (map key (xs ! ?m # sort_key key ?ys))" using low ys by auto
  qed
qed

lemma transfer_loop_sorted: "transfer_loop peer vec ms = try_each peer (sort_key stream_usage vec) ms"
proof (induction "length vec" arbitrary: vec ms)
  case 0
  then show ?case by (simp add: transfer_loop.simps)
next
  case (Suc n)
  then have "vec \<noteq> []" by auto
  moreover have "n = length (erase_at (min_element stream_usage vec) vec)"
    using Suc(2) \<open>vec \<noteq> []\<close> by simp
  ultimately show ?case
    using Suc(1) by (subst transfer_loop.simps) (simp add: sort_key_min case_prod_beta Let_def del: sort_key_simps)
qed

lemma try_each_cases:
  assumes "try_each peer ss ms = (r, ms')"
  shows "(r = - 1 \<or> (\<exists>s\<in>set ss. r = fst s)) \<and> (r \<noteq> - 1 \<longrightarrow> ms_Recent_Success ms' \<ge> 1)"
  using assms
  by (induction ss arbitrary: ms) (auto simp: attempt_def case_prod_beta Let_def split: if_splits)

section \<open>Properties\<close>

text \<open>
  C21. A match goes to the least loaded battle server that takes it: \<open>TransferMatch\<close> tries every stream
  once, in the order of the reported usage and among equals in the order of their ids, and returns
  the first one that accepts, or -1. The streams stay as they are unless the peers change them.
\<close>

theorem transfer_least_loaded:
  assumes "dm_wf (ms_streams ms)"
  shows "TransferMatch peer ms = try_each peer (sort_key stream_usage (fst (GetAll 0 (ms_streams ms)))) ms \<and>
    set (fst (GetAll 0 (ms_streams ms))) = dm_rel (ms_streams ms) \<and>
    (fst (TransferMatch peer ms) \<noteq> - 1 \<longrightarrow>
       (\<exists>stream usage. (fst (TransferMatch peer ms), stream, usage) \<in> dm_rel (ms_streams ms)) \<and>
       ms_Recent_Success (snd (TransferMatch peer ms)) \<ge> 1)"
proof -
  let ?l = "sort_key stream_usage (fst (GetAll 0 (ms_streams ms)))"
  have t: "TransferMatch peer ms = try_each peer ?l ms"
    using assms by (simp add: TransferMatch_def GetAll_wf transfer_loop_sorted)
  moreover have "set ?l = dm_rel (ms_streams ms)" using GetAll_rel [OF assms] by simp
  ultimately show ?thesis
    using try_each_cases [of peer ?l ms] GetAll_rel [OF assms] by (metis prod.collapse)
qed

theorem transfer_least_loaded_witness:
  "fst (TransferMatch (\<lambda>s ms. (True, ms\<lparr>ms_Recent_Success := (if fst s = 2 then 1 else 0)\<rparr>))
     (snd (SessionStream_begin 8 (Some 2) (snd (SessionStream_begin 7 (Some 1) MatchServiceServer))))) = 2"
proof -
  let ?ms = "snd (SessionStream_begin 8 (Some 2) (snd (SessionStream_begin 7 (Some 1) MatchServiceServer)))"
  let ?peer = "\<lambda>s ms. (True, ms\<lparr>ms_Recent_Success := (if fst s = 2 then 1 else 0)\<rparr>)"
  have s: "ms_streams ?ms = snd (Insert 2 8 0 (snd (Insert 1 7 0 dm_empty)))"
    by (simp add: MatchServiceServer_def SessionStream_begin_def dm_Size_def FindLKey_def dm_empty_def Insert_def smap_insert_def)
  have "dm_wf (ms_streams ?ms)" unfolding s by (intro wf_intros)
  moreover have "fst (GetAll 0 (ms_streams ?ms)) = [(1, 7, 0), (2, 8, 0)]"
    unfolding s by (simp add: GetAll_def dm_empty_def Insert_def smap_insert_def smap_at_def)
  ultimately show ?thesis using transfer_least_loaded [of ?ms ?peer] by (simp add: attempt_def)
qed

end
