(* ===== verification/MatchServer.thy ===== *)
theory MatchServer
  imports Auth MatchMaker MatchService
begin

text \<open>
  The match server, \<open>match/MyMatch.cpp\<close>: it accepts clients by the cookie of their session, answers their
  requests, lets the match maker pair them and hands each pair to a battle server.
\<close>

section \<open>State\<close>

datatype match_recv = Match_Authenticate | Match_Client Account_ID_t
datatype match_timer = Match_Close | Match_Session Account_ID_t Hash_t

record ('r, 'd) match = "(match_timer, match_recv, 'r, 'd) server" +
  mt_sessions :: "(Account_ID_t, Hash_t, nat option) demap"
  mt_matchmaker :: match_maker
  mt_service :: match_service

definition self_keyword :: string where
  "self_keyword = ''match''"

definition on_sessions ::
  "((Account_ID_t, Hash_t, nat option) demap \<Rightarrow> 'a \<times> (Account_ID_t, Hash_t, nat option) demap) \<Rightarrow> (('r, 'd) match, 'a) db" where
  "on_sessions f w = (let (x, dm) = f (mt_sessions w) in (Inr x, w\<lparr>mt_sessions := dm\<rparr>))"

definition drop_result :: "('w, 'a) db \<Rightarrow> ('w, unit) db" where
  "drop_result m = db_bind m (\<lambda>_. db_return ())"

definition on_matchmaker :: "(match_maker \<Rightarrow> match_maker) \<Rightarrow> (('r, 'd) match, unit) db" where
  "on_matchmaker f = modify (\<lambda>w. w\<lparr>mt_matchmaker := f (mt_matchmaker w)\<rparr>)"

text \<open>\<open>weak_ptr::lock\<close>: \<open>None\<close> is the null pointer.\<close>

definition lock :: "nat option \<Rightarrow> ('cb, 'h, 'r, 'd, 'x) server_scheme \<Rightarrow> nat option" where
  "lock p w = (case p of None \<Rightarrow> None | Some c \<Rightarrow> if sv_objects w c = None then None else Some c)"

section \<open>Requests of a client\<close>

definition player_info :: "Achievement_ID_t \<times> int \<times> int \<times> int \<Rightarrow> byte_queue \<Rightarrow> byte_queue" where
  "player_info info q = (case info of (nickname, win, draw, loose) \<Rightarrow>
     push_int loose (push_int draw (push_int win (push_word nickname q))))"

definition match_chpwd :: "('r, 'd) env \<Rightarrow> nat \<Rightarrow> Account_ID_t \<Rightarrow> byte_queue \<Rightarrow> (('r, 'd) match, unit) db" where
  "match_chpwd E c account_id packet =
     db_catch
       (db_bind (db_lift (pop_hash packet)) (\<lambda>(old_pwd, packet).
        db_bind (db_lift (pop_hash packet)) (\<lambda>(new_pwd, packet).
        with_connection (en_sql E) (\<lambda>db.
          db_bind (require_db db (Pq Broken_connection)) (\<lambda>_.
          db_bind (use_db db (ChangePwd (en_sha E) (en_sql E) account_id old_pwd new_pwd)) (\<lambda>changed.
            if changed then acts [use_db db (exec (sql_commit (en_sql E))), c_Send c (code SUCCESS)]
            else c_Send c (code ERR_NO_MATCH_ACCOUNT)))))))
       (\<lambda>e. case e of Pq _ \<Rightarrow> c_Send c (code ERR_DB_FAILED) | _ \<Rightarrow> db_throw e)"

definition match_start :: "('r, 'd) env \<Rightarrow> Account_ID_t \<Rightarrow> (('r, 'd) match, unit) db" where
  "match_start E account_id =
     with_connection (en_sql E) (\<lambda>db.
       db_bind (require_db db (Pq Broken_connection)) (\<lambda>_.
       db_bind (use_db db (GetInfo (en_sql E) account_id)) (\<lambda>(nick, win, draw, loose).
         on_matchmaker (Enter account_id win draw loose))))"

definition match_chname :: "('r, 'd) env \<Rightarrow> nat \<Rightarrow> Account_ID_t \<Rightarrow> byte_queue \<Rightarrow> (('r, 'd) match, unit) db" where
  "match_chname E c account_id packet =
     db_bind (db_lift (pop_achieve packet)) (\<lambda>(nameindex, packet).
     with_connection (en_sql E) (\<lambda>db.
       db_bind (require_db db (Pq Broken_connection)) (\<lambda>_.
       db_bind (use_db db (SetNickName (en_sql E) account_id nameindex)) (\<lambda>_.
       db_bind (use_db db (GetInfo (en_sql E) account_id)) (\<lambda>info.
         acts [use_db db (exec (sql_commit (en_sql E))), c_Send c (player_info info (code GAME_PLAYER_INFO))])))))"

definition match_packet :: "('r, 'd) env \<Rightarrow> nat \<Rightarrow> Account_ID_t \<Rightarrow> byte_queue \<Rightarrow> (('r, 'd) match, unit) db" where
  "match_packet E c account_id packet =
     db_bind (db_lift (pop_byte packet)) (\<lambda>(header, packet).
       if header = ANS_HEARTBEAT then c_FillTTL c SESSION_TTL
       else if header = REQ_CHPWD then match_chpwd E c account_id packet
       else if header = REQ_STARTMATCH then match_start E account_id
       else if header = REQ_PAUSEMATCH then on_matchmaker (Exit account_id)
       else if header = REQ_CHNAME then match_chname E c account_id packet
       else c_Send c (code ERR_PROTOCOL_VIOLATION))"

definition match_caught :: "nat \<Rightarrow> db_exn \<Rightarrow> (('r, 'd) match, unit) db" where
  "match_caught c e = (case e of
       Pq _ \<Rightarrow> acts [c_Send c (code ERR_DB_FAILED), c_Close c]
     | Std _ \<Rightarrow> acts [c_Send c (code ERR_PROTOCOL_VIOLATION), modify (ThrowThreadException e)])"

text \<open>The branch of the handler for a failed read: the session is left, unless another socket has taken it over.\<close>

definition match_logout :: "nat \<Rightarrow> Account_ID_t \<Rightarrow> (('r, 'd) match, unit) db" where
  "match_logout c account_id =
     db_bind (on_matchmaker (Exit account_id)) (\<lambda>_.
     db_bind (on_sessions (FindLKey None account_id)) (\<lambda>session. case session of
         None \<Rightarrow> db_return ()
       | Some (cookie, p) \<Rightarrow>
           db_bind (gets (lock p)) (\<lambda>owner.
             acts
               [if owner = Some c then drop_result (on_sessions (EraseLKey None account_id)) else db_return (),
                c_Close c])))"

definition match_handler ::
  "('r, 'd) env \<Rightarrow> nat \<Rightarrow> Account_ID_t \<Rightarrow> byte_queue \<Rightarrow> error_code \<Rightarrow> (('r, 'd) match, unit) db \<Rightarrow> (('r, 'd) match, unit) db" where
  "match_handler E c account_id packet recv_ec again =
     (if \<not> ec_isSuccessed recv_ec then match_logout c account_id
      else acts [db_catch (match_packet E c account_id packet) (match_caught c), again])"

primrec match_ClientProcess :: "('r, 'd) env \<Rightarrow> nat \<Rightarrow> Account_ID_t \<Rightarrow> byte list list \<Rightarrow> (('r, 'd) match, unit) db" where
  "match_ClientProcess E c account_id [] = c_StartRecv c (Match_Client account_id) None"
| "match_ClientProcess E c account_id (m # ms) =
     c_StartRecv c (Match_Client account_id)
       (Some (match_handler E c account_id (bq_of_vector True m) (ErrorCode_custom SUCCESS) (match_ClientProcess E c account_id ms)))"

definition match_SessionProcess :: "nat \<Rightarrow> Account_ID_t \<Rightarrow> Hash_t \<Rightarrow> (('r, 'd) match, unit) db" where
  "match_SessionProcess c account_id cookie = c_SetTimeout c (Match_Session account_id cookie)"

definition match_session_timer :: "('r, 'd) env \<Rightarrow> nat \<Rightarrow> Account_ID_t \<Rightarrow> Hash_t \<Rightarrow> (('r, 'd) match, unit) db" where
  "match_session_timer E c account_id cookie =
     db_bind (gets (is_open c)) (\<lambda>opened.
       if \<not> opened then db_return ()
       else
         db_bind (on_redis (RefreshInfo (en_srv E) account_id cookie self_keyword)) (\<lambda>refreshed.
           if \<not> refreshed then c_Close c
           else
             db_bind (c_CountTTL c) (\<lambda>alive.
               if alive then acts [c_Send c (code ANS_HEARTBEAT), match_SessionProcess c account_id cookie]
               else c_Close c)))"

section \<open>Accepting a client\<close>

definition match_register :: "nat \<Rightarrow> Account_ID_t \<Rightarrow> Hash_t \<Rightarrow> (('r, 'd) match, unit) db" where
  "match_register c account_id cookie =
     db_bind (on_sessions (FindRKey None cookie)) (\<lambda>session. case session of
         Some (_, origin) \<Rightarrow>
           db_bind (gets (lock origin)) (\<lambda>origin_ptr.
             acts
               [case origin_ptr of
                  Some ptr \<Rightarrow>
                    acts [on_matchmaker (Exit account_id), c_Send ptr (code ERR_DUPLICATED_ACCESS), c_Close ptr]
                | None \<Rightarrow> db_return (),
                drop_result (on_sessions (InsertLKeyValue account_id (Some c)))])
       | None \<Rightarrow> drop_result (on_sessions (Insert account_id cookie (Some c))))"

definition match_info :: "('r, 'd) env \<Rightarrow> nat \<Rightarrow> Account_ID_t \<Rightarrow> (('r, 'd) match, unit) db" where
  "match_info E c account_id =
     db_catch
       (with_connection (en_sql E) (\<lambda>db.
          db_bind (require_db db (Std (StackTraceExcept ''DB Connection Failed''))) (\<lambda>_.
          db_bind (use_db db (GetInfo (en_sql E) account_id)) (\<lambda>info.
          db_bind (use_db db (GetAllAchieve (en_sql E) account_id)) (\<lambda>result.
            c_Send c (fold (\<lambda>(achieve, cnt) q. push_int cnt (push_word achieve q)) result
              (player_info info (code GAME_PLAYER_INFO))))))))
       (\<lambda>e. db_bind (acts [c_Send c (code ERR_DB_FAILED), c_Close c])
              (\<lambda>_. db_throw (Std (StackTraceExcept ''DB Failed''))))"

definition match_reject :: "nat \<Rightarrow> (('r, 'd) match, unit) db" where
  "match_reject c = acts [c_Send c (code ERR_NO_MATCH_ACCOUNT), c_Close c]"

definition match_AuthenticateProcess ::
  "('r, 'd) env \<Rightarrow> nat \<Rightarrow> byte_queue \<Rightarrow> error_code \<Rightarrow> byte list list \<Rightarrow> (('r, 'd) match, unit) db" where
  "match_AuthenticateProcess E c packet ec ms =
     db_bind (c_CancelTimeout c) (\<lambda>_.
       if \<not> ec_isSuccessed ec then c_Close c
       else
         db_bind (db_lift (pop_hash packet)) (\<lambda>(cookie, packet).
         db_bind (on_redis_throw (GetInfoFromCookie (en_srv E) cookie)) (\<lambda>info. case info of
             Inl _ \<Rightarrow> match_reject c
           | Inr (account_id, server) \<Rightarrow>
               if server \<noteq> self_keyword then match_reject c
               else
                 acts
                   [match_register c account_id cookie,
                    match_info E c account_id,
                    c_FillTTL c SESSION_TTL,
                    match_ClientProcess E c account_id ms,
                    match_SessionProcess c account_id cookie])))"

definition match_AcceptProcess :: "('r, 'd) env \<Rightarrow> nat \<Rightarrow> error_code \<Rightarrow> byte list list \<Rightarrow> (('r, 'd) match, unit) db" where
  "match_AcceptProcess E c ec ms =
     (if \<not> ec_isSuccessed ec then c_Close c
      else
        acts
          [c_StartRecv c Match_Authenticate (case ms of
               [] \<Rightarrow> None
             | m # ms \<Rightarrow> Some (match_AuthenticateProcess E c (bq_of_vector True m) (ErrorCode_custom SUCCESS) ms)),
           c_SetTimeout c Match_Close])"

text \<open>A read completes, with an error or with messages; a timer fires.\<close>

definition match_received :: "('r, 'd) env \<Rightarrow> nat \<Rightarrow> match_recv \<Rightarrow> error_code option \<Rightarrow> byte list list \<Rightarrow> (('r, 'd) match, unit) db" where
  "match_received E c h err ms =
     acts
       [modify (upd_client c (\<lambda>s. s\<lparr>cl_handler := None\<rparr>)),
        case err of
          Some ec \<Rightarrow>
            acts [case h of Match_Authenticate \<Rightarrow> match_AuthenticateProcess E c (bq_new True) ec []
                          | Match_Client i \<Rightarrow> match_handler E c i (bq_new True) ec (db_return ()),
                  c_Close c]
        | None \<Rightarrow>
            (case ms of
               [] \<Rightarrow> c_StartRecv c h None
             | m # ms \<Rightarrow>
                 (case h of Match_Authenticate \<Rightarrow> match_AuthenticateProcess E c (bq_of_vector True m) (ErrorCode_custom SUCCESS) ms
                          | Match_Client i \<Rightarrow>
                              match_handler E c i (bq_of_vector True m) (ErrorCode_custom SUCCESS) (match_ClientProcess E c i ms)))]"

definition match_timer_fires :: "('r, 'd) env \<Rightarrow> nat \<Rightarrow> match_timer \<Rightarrow> (('r, 'd) match, unit) db" where
  "match_timer_fires E c t =
     acts
       [modify (upd_client c (\<lambda>s. s\<lparr>sk_timer := None\<rparr>)),
        case t of Match_Close \<Rightarrow> c_Close c | Match_Session i cookie \<Rightarrow> match_session_timer E c i cookie]"

section \<open>Match making\<close>

text \<open>
  One of the two players of a match: its cookie and its socket, if it is still there. The socket
  pointer is used before it is checked.
\<close>

definition match_probe :: "('r, 'd) env \<Rightarrow> Account_ID_t \<Rightarrow> (('r, 'd) match, Hash_t \<times> nat option) db" where
  "match_probe E i =
     db_bind (on_sessions (FindLKey None i)) (\<lambda>result. case result of
         None \<Rightarrow> db_return ([], None)
       | Some (cookie, p) \<Rightarrow>
           db_bind (gets (lock p)) (\<lambda>socket. case socket of
               None \<Rightarrow> db_throw (Std (Undefined ''null socket pointer''))
             | Some s \<Rightarrow>
                 db_bind (c_Send s (code ANS_HEARTBEAT)) (\<lambda>_.
                 db_bind (on_redis (RefreshInfo (en_srv E) i cookie self_keyword)) (\<lambda>refreshed.
                 db_bind (gets (is_open s)) (\<lambda>opened.
                   if \<not> refreshed \<or> \<not> opened
                   then db_bind (c_Close s) (\<lambda>_. db_return (cookie, None))
                   else db_return (cookie, Some s))))))"

definition battle_name :: "int \<Rightarrow> string" where
  "battle_name n = ''battle'' @ to_string_int n"

definition match_send_player :: "int \<Rightarrow> Account_ID_t \<Rightarrow> nat \<Rightarrow> (('r, 'd) match, unit) db" where
  "match_send_player battle_server i s =
     acts
       [c_Send s (push_int battle_server (code ANS_MATCHMADE)),
        drop_result (on_sessions (EraseLKey None i)),
        c_Close s]"

definition match_transfer :: "peers \<Rightarrow> (('r, 'd) match, int) db" where
  "match_transfer peer w = (let (n, ms) = TransferMatch peer (mt_service w) in (Inr n, w\<lparr>mt_service := ms\<rparr>))"

text \<open>Both players are there: whether the loop goes on.\<close>

definition match_hand_over ::
  "('r, 'd) env \<Rightarrow> peers \<Rightarrow> Account_ID_t \<times> Hash_t \<times> nat \<Rightarrow> Account_ID_t \<times> Hash_t \<times> nat \<Rightarrow> (('r, 'd) match, bool) db" where
  "match_hand_over E peer lp rp = (case (lp, rp) of ((i0, c0, s0), (i1, c1, s1)) \<Rightarrow>
     db_bind (match_transfer peer) (\<lambda>battle_server.
       if battle_server \<le> 0 then db_return False
       else
         db_bind
           (acts
             [drop_result (on_redis (SetInfo (en_srv E) i0 c0 (battle_name battle_server))),
              drop_result (on_redis (SetInfo (en_srv E) i1 c1 (battle_name battle_server))),
              match_send_player battle_server i0 s0,
              match_send_player battle_server i1 s1,
              on_matchmaker PopMatch])
           (\<lambda>_. db_return True)))"

definition match_put_back :: "queue_element \<Rightarrow> nat option \<Rightarrow> (('r, 'd) match, unit) db" where
  "match_put_back qe socket =
     (if socket \<noteq> None then on_matchmaker (Enter_elem qe)
      else drop_result (on_sessions (EraseLKey None (whoami qe))))"

definition match_one :: "('r, 'd) env \<Rightarrow> peers \<Rightarrow> (('r, 'd) match, bool) db" where
  "match_one E peer =
     db_bind (gets (\<lambda>w. GetMatch (mt_matchmaker w))) (\<lambda>(lp, rp).
     db_bind (match_probe E (whoami lp)) (\<lambda>(c0, s0).
     db_bind (match_probe E (whoami rp)) (\<lambda>(c1, s1).
       case (s0, s1) of
         (Some x0, Some x1) \<Rightarrow> match_hand_over E peer (whoami lp, c0, x0) (whoami rp, c1, x1)
       | _ \<Rightarrow>
           db_bind (acts [match_put_back lp s0, match_put_back rp s1, on_matchmaker PopMatch]) (\<lambda>_. db_return True))))"

text \<open>
  The inner loop: every round but the last takes a match off the queue, and no round adds one, so
  the length of the queue bounds the number of rounds.
\<close>

primrec match_loop :: "('r, 'd) env \<Rightarrow> peers \<Rightarrow> nat \<Rightarrow> (('r, 'd) match, unit) db" where
  "match_loop E peer 0 = db_return ()"
| "match_loop E peer (Suc n) =
     db_bind (gets (\<lambda>w. isThereMatch (mt_matchmaker w))) (\<lambda>more.
       if \<not> more then db_return ()
       else db_bind (match_one E peer) (\<lambda>go_on. if go_on then match_loop E peer n else db_return ()))"

text \<open>The body of \<open>MatchMake\<close> once its wait is over.\<close>

definition MatchMake :: "('r, 'd) env \<Rightarrow> peers \<Rightarrow> (('r, 'd) match, unit) db" where
  "MatchMake E peer =
     db_catch
       (db_bind (on_matchmaker Process) (\<lambda>_.
        db_bind (gets (\<lambda>w. length (match_queue (mt_matchmaker w)))) (\<lambda>n. match_loop E peer n)))
       (\<lambda>e. modify (ThrowThreadException e))"

definition match_CheckAccount :: "Account_ID_t \<Rightarrow> (('r, 'd) match, bool) db" where
  "match_CheckAccount i = db_bind (on_sessions (FindLKey None i)) (\<lambda>r. db_return (r \<noteq> None))"

definition match_GetConnectUsage :: "('r, 'd) match \<Rightarrow> (string, nat) smap \<times> ('r, 'd) match" where
  "match_GetConnectUsage w =
     (let (streams, ms) = GetStreams (mt_service w)
      in (fold (\<lambda>seed m. smap_insert (battle_name seed) 1 m) streams (server_ConnectUsage w), w\<lparr>mt_service := ms\<rparr>))"

section \<open>The invariant\<close>

text \<open>
  The session table is consistent and the match maker well formed. The only thing relied on is that
  the counts of the database are not negative.
\<close>

definition match_inv :: "('r, 'd) match \<Rightarrow> bool" where
  "match_inv w \<longleftrightarrow> dm_wf (mt_sessions w) \<and> wf_mm (mt_matchmaker w)"

definition counts_ok :: "'d sql \<Rightarrow> bool" where
  "counts_ok sql \<longleftrightarrow>
     (\<forall>i d win draw loose d'. count_battles sql i d = (Inr (win, draw, loose), d') \<longrightarrow> 0 \<le> win \<and> 0 \<le> draw \<and> 0 \<le> loose)"

interpretation match: server_invariant match_inv
  by unfold_locales (simp_all add: match_inv_def)

lemma keeps_matchmaker: "(\<And>mm. wf_mm mm \<Longrightarrow> wf_mm (f mm)) \<Longrightarrow> keeps match_inv (on_matchmaker f)"
  unfolding on_matchmaker_def by (rule keeps_modify) (simp add: match_inv_def)

lemma keeps_sessions: "(\<And>dm. dm_wf dm \<Longrightarrow> dm_wf (snd (f dm))) \<Longrightarrow> keeps match_inv (on_sessions f)"
  by (auto simp: keeps_def on_sessions_def match_inv_def case_prod_beta)

lemma keeps_drop_result [keeps_intros]: "keeps I m \<Longrightarrow> keeps I (drop_result m)"
  unfolding drop_result_def by (intro keeps_intros)

lemma keeps_session_ops [keeps_intros]:
  "keeps match_inv (on_sessions (FindLKey d i))" "keeps match_inv (on_sessions (FindRKey d ck))"
  "keeps match_inv (on_sessions (Insert i ck v))" "keeps match_inv (on_sessions (InsertLKeyValue i v))"
  "keeps match_inv (on_sessions (EraseLKey d i))"
  by (auto intro!: keeps_sessions simp: snd_FindLKey snd_FindRKey wf_intros)

lemma keeps_maker_ops [keeps_intros]:
  "keeps match_inv (on_matchmaker (Exit i))" "keeps match_inv (on_matchmaker PopMatch)" "keeps match_inv (on_matchmaker Process)"
  by (auto intro!: keeps_matchmaker wf_intros)

lemma GetInfo_counts:
  assumes "counts_ok sql" "GetInfo sql i d = (Inr (nick, win, draw, loose), d')"
  shows "0 \<le> win \<and> 0 \<le> draw \<and> 0 \<le> loose"
proof -
  obtain d1 where "count_battles sql i d1 = (Inr (win, draw, loose), d')"
    using assms(2) by (auto simp: GetInfo_def db_defs split: prod.splits sum.splits)
  with assms(1) show ?thesis unfolding counts_ok_def by blast
qed

lemma keeps_start [keeps_intros]:
  assumes "counts_ok (en_sql E)"
  shows "keeps match_inv (match_start E i)"
  unfolding match_start_def
proof (rule match.keeps_with_connection, rule keeps_bind [OF keeps_require_db], rule keeps_bind_gives [OF match.keeps_use_db])
  show "gives (use_db db (GetInfo (en_sql E) i)) (\<lambda>(nick, win, draw, loose). 0 \<le> win \<and> 0 \<le> draw \<and> 0 \<le> loose)" for db
    using GetInfo_counts [OF assms] by (fastforce simp: gives_def use_db_def split: option.splits prod.splits)
qed (auto intro!: keeps_matchmaker wf_intros)

lemma keeps_put_back:
  assumes "wf_qe qe \<or> qe_id qe = 0"
  shows "keeps match_inv (match_put_back qe s)"
proof -
  have "wf_mm (Enter_elem qe mm)" if "wf_mm mm" for mm
    using assms
  proof
    assume "wf_qe qe"
    with that show ?thesis by (rule wf_Enter_elem)
  next
    assume "qe_id qe = 0"
    with that show ?thesis by (simp add: Enter_elem_def whoami_def)
  qed
  then show ?thesis
    unfolding match_put_back_def by (intro keeps_intros keeps_matchmaker)
qed

lemma keeps_packet [keeps_intros]: "counts_ok (en_sql E) \<Longrightarrow> keeps match_inv (match_packet E c i p)"
  unfolding match_packet_def match_chpwd_def match_chname_def
  by (intro keeps_intros) (auto intro!: keeps_intros split: db_exn.splits)

lemma keeps_caught [keeps_intros]: "keeps match_inv (match_caught c e)"
  unfolding match_caught_def by (cases e) (auto intro!: keeps_intros)

lemma keeps_handler [keeps_intros]:
  "counts_ok (en_sql E) \<Longrightarrow> keeps match_inv again \<Longrightarrow> keeps match_inv (match_handler E c i p ec again)"
  unfolding match_handler_def match_logout_def by (auto intro!: keeps_intros)

lemma keeps_ClientProcess [keeps_intros]: "counts_ok (en_sql E) \<Longrightarrow> keeps match_inv (match_ClientProcess E c i ms)"
  by (induction ms) (auto intro!: keeps_intros)

lemma keeps_AuthenticateProcess [keeps_intros]:
  "counts_ok (en_sql E) \<Longrightarrow> keeps match_inv (match_AuthenticateProcess E c p ec ms)"
  unfolding match_AuthenticateProcess_def match_register_def match_info_def match_reject_def match_SessionProcess_def
  by (auto intro!: keeps_intros)

lemma keeps_AcceptProcess [keeps_intros]: "counts_ok (en_sql E) \<Longrightarrow> keeps match_inv (match_AcceptProcess E c ec ms)"
  unfolding match_AcceptProcess_def by (auto intro!: keeps_intros split: list.splits)

lemma keeps_received [keeps_intros]: "counts_ok (en_sql E) \<Longrightarrow> keeps match_inv (match_received E c h err ms)"
  unfolding match_received_def by (auto intro!: keeps_intros split: list.splits match_recv.splits)

lemma keeps_timer_fires [keeps_intros]: "keeps match_inv (match_timer_fires E c t)"
  unfolding match_timer_fires_def match_session_timer_def match_SessionProcess_def
  by (auto intro!: keeps_intros split: match_timer.splits)

lemma keeps_service [keeps_intros]: "keeps match_inv (match_transfer peer)"
  by (auto simp: keeps_def match_inv_def match_transfer_def split: prod.splits)

lemma keeps_hand_over [keeps_intros]: "keeps match_inv (match_hand_over E peer lp rp)"
  unfolding match_hand_over_def match_send_player_def by (auto intro!: keeps_intros)

lemma keeps_probe [keeps_intros]: "keeps match_inv (match_probe E i)"
  unfolding match_probe_def by (auto intro!: keeps_intros)

lemma keeps_one [keeps_intros]: "keeps match_inv (match_one E peer)"
  unfolding match_one_def
proof (rule keeps_bind_gets)
  show "case GetMatch (mt_matchmaker w) of (lp, rp) \<Rightarrow> (wf_qe lp \<or> qe_id lp = 0) \<and> (wf_qe rp \<or> qe_id rp = 0)"
    if "match_inv w" for w :: "('a, 'b) match"
    using that by (auto simp: match_inv_def wf_mm_def GetMatch_def qe_empty_def split: list.splits)
qed (auto intro!: keeps_intros keeps_put_back split: option.splits)

lemma keeps_loop [keeps_intros]: "keeps match_inv (match_loop E peer n)"
  by (induction n) (auto intro!: keeps_intros)

lemma keeps_MatchMake [keeps_intros]: "keeps match_inv (MatchMake E peer)"
  unfolding MatchMake_def by (auto intro!: keeps_intros)

text \<open>
  The runs of the server: a connection is accepted, its key exchange ends, a read completes, a timer
  fires, a web socket is closed, a socket object goes away, the match maker makes a pass, and the
  outside changes.
\<close>

inductive match_reach :: "('r, 'd) env \<Rightarrow> ('r, 'd) match \<Rightarrow> bool" for E where
  start: "mt_sessions w = dm_empty \<Longrightarrow> mt_matchmaker w = MyMatchMaker interpolate \<Longrightarrow> match_reach E w"
| accepted: "match_reach E w \<Longrightarrow> sv_objects w c = None \<Longrightarrow> match_reach E (AddClient c (w\<lparr>sv_objects := (sv_objects w)(c \<mapsto> s)\<rparr>))"
| exchanged: "match_reach E w \<Longrightarrow> match_reach E (snd (match_AcceptProcess E c ec ms w))"
| received: "match_reach E w \<Longrightarrow> sv_objects w c = Some s \<Longrightarrow> cl_handler s = Some h \<Longrightarrow> match_reach E (snd (match_received E c h err ms w))"
| timer: "match_reach E w \<Longrightarrow> sv_objects w c = Some s \<Longrightarrow> sk_timer s = Some t \<Longrightarrow> match_reach E (snd (match_timer_fires E c t w))"
| closed: "match_reach E w \<Longrightarrow> match_reach E (ws_closed c w)"
| destroyed: "match_reach E w \<Longrightarrow> c \<notin> set (sv_clients w) \<Longrightarrow> match_reach E (w\<lparr>sv_objects := (sv_objects w)(c := None)\<rparr>)"
| matching: "match_reach E w \<Longrightarrow> match_reach E (snd (MatchMake E peer w))"
| outside: "match_reach E w \<Longrightarrow> match_reach E (w\<lparr>sv_redis := rd, sv_db := d, mt_service := ms\<rparr>)"

lemma match_reach_inv:
  assumes "match_reach E w" "counts_ok (en_sql E)"
  shows "match_inv w"
  using assms
proof (induction rule: match_reach.induct)
  case (start w interpolate)
  then show ?case by (simp add: match_inv_def wf_MyMatchMaker)
next
  case (accepted w c s)
  then show ?case by (simp add: match.AddClient_inv match.I_objects)
next
  case (outside w rd d ms)
  then show ?case by (simp add: match_inv_def)
qed (simp_all add: match.ws_closed_inv match.I_objects keeps_snd keeps_intros)

end
