(* ===== verification/MatchSessions.thy ===== *)
theory MatchSessions
  imports MatchServer
begin

text \<open>
  What happens to sessions in the match server: a client is accepted with its cookie, and a pair of
  players is handed over to a battle server.
\<close>

section \<open>Sessions of the server\<close>

lemma find_cookie: "match_inv w \<Longrightarrow> on_sessions (FindRKey None cookie) w = (Inr (fst (FindRKey None cookie (mt_sessions w))), w)"
  using snd_FindRKey [of "mt_sessions w" None cookie]
  by (cases "FindRKey None cookie (mt_sessions w)") (simp add: on_sessions_def match_inv_def)

lemma find_account: "match_inv w \<Longrightarrow> on_sessions (FindLKey None i) w = (Inr (fst (FindLKey None i (mt_sessions w))), w)"
  using snd_FindLKey [of "mt_sessions w" None i]
  by (cases "FindLKey None i (mt_sessions w)") (simp add: on_sessions_def match_inv_def)

lemma drop_sessions: "drop_result (on_sessions f) w = (Inr (), w\<lparr>mt_sessions := snd (f (mt_sessions w))\<rparr>)"
  by (simp add: drop_result_def on_sessions_def run_defs case_prod_beta)

text \<open>The socket that had the session, told and closed.\<close>

definition evicted :: "nat \<Rightarrow> ('r, 'd) match \<Rightarrow> ('r, 'd) match" where
  "evicted old w = close_client old (upd_client old (sk_Send [ERR_DUPLICATED_ACCESS]) w)"

lemma evicted_frame [simp]:
  "sv_redis (evicted p w) = sv_redis w" "sv_pool (evicted p w) = sv_pool w" "sv_db (evicted p w) = sv_db w"
  "mt_sessions (evicted p w) = mt_sessions w" "mt_matchmaker (evicted p w) = mt_matchmaker w"
  "c \<noteq> p \<Longrightarrow> sv_objects (evicted p w) c = sv_objects w c"
  by (simp_all add: evicted_def close_client_def upd_client_def RemoveClient_def Let_def split: option.splits)

lemma evicted_live:
  "live p w s \<Longrightarrow> \<exists>s'. sv_objects (evicted p w) p = Some s' \<and> sk_out s' = sk_out s @ [[ERR_DUPLICATED_ACCESS]] \<and> sk_closing s'"
  by (auto simp: live_def evicted_def close_client_def upd_client_def sk_Send_def sk_Close_def Let_def)

lemma evicted_matchmaker: "evicted p (w\<lparr>mt_matchmaker := mm\<rparr>) = (evicted p w)\<lparr>mt_matchmaker := mm\<rparr>"
  by (simp add: evicted_def close_client_def upd_client_def RemoveClient_def Let_def split: option.splits)

lemma match_register_run:
  assumes inv: "match_inv w"
    and "\<And>l v. (l, cookie, v) \<in> dm_rel (mt_sessions w) \<Longrightarrow> l = i"
    and "\<And>r v. (i, r, v) \<in> dm_rel (mt_sessions w) \<Longrightarrow> r = cookie"
  shows "\<exists>mm dm. match_register c i cookie w = (Inr (),
      (case fst (FindRKey None cookie (mt_sessions w)) of
         Some (_, Some p) \<Rightarrow> if sv_objects w p = None then w else evicted p w
       | _ \<Rightarrow> w)\<lparr>mt_matchmaker := mm, mt_sessions := dm\<rparr>) \<and> dm_wf dm \<and> wf_mm mm \<and>
    dm_rel dm = insert (i, cookie, Some c) {e \<in> dm_rel (mt_sessions w). fst e \<noteq> i}"
proof (cases "fst (FindRKey None cookie (mt_sessions w))")
  case None
  have wf: "dm_wf (mt_sessions w)" using inv by (simp add: match_inv_def)
  have "\<forall>l v. (l, cookie, v) \<notin> dm_rel (mt_sessions w)"
    using findr_rel [OF wf, of None cookie] None by auto
  with assms(3) have "fst (Insert i cookie (Some c) (mt_sessions w))" and "{e \<in> dm_rel (mt_sessions w). fst e \<noteq> i} = dm_rel (mt_sessions w)"
    using fst_Insert [OF wf] by fastforce+
  then show ?thesis
    using None inv wf dm_wf_Insert [OF wf] rel_Insert [OF wf, of i cookie "Some c"]
    by (intro exI [of _ "mt_matchmaker w"] exI [of _ "snd (Insert i cookie (Some c) (mt_sessions w))"])
      (simp add: match_register_def db_bind_def find_cookie drop_sessions match_inv_def)
next
  case (Some x)
  have wf: "dm_wf (mt_sessions w)" using inv by (simp add: match_inv_def)
  obtain l p where x: "x = (l, p)" by fastforce
  have l: "(l, cookie, p) \<in> dm_rel (mt_sessions w)" "l = i"
    using findr_rel [OF wf, of None cookie l p] Some x assms(2) by auto
  let ?dm = "snd (InsertLKeyValue i (Some c) (mt_sessions w))"
  have dm: "dm_wf ?dm" "dm_rel ?dm = insert (i, cookie, Some c) {e \<in> dm_rel (mt_sessions w). fst e \<noteq> i}"
    using dm_wf_InsertLKeyValue [OF wf] rel_InsertLKeyValue [OF wf] l by auto
  show ?thesis
  proof (cases "lock p w")
    case None
    then show ?thesis
      using Some x inv dm
      by (intro exI [of _ "mt_matchmaker w"] exI [of _ ?dm])
        (auto simp: match_register_def db_bind_def find_cookie drop_sessions match_inv_def gets_def lock_def db_return_def
          split: option.splits if_splits)
  next
    case (Some q)
    then have "match_register c i cookie w = (Inr (), (evicted q w)\<lparr>mt_matchmaker := Exit i (mt_matchmaker w), mt_sessions := ?dm\<rparr>)"
      using \<open>fst (FindRKey None cookie (mt_sessions w)) = Some x\<close> x inv
      by (simp add: match_register_def db_bind_def find_cookie drop_sessions run_defs on_matchmaker_def vector_def
          evicted_def [symmetric] evicted_matchmaker)
    then show ?thesis
      using Some \<open>fst (FindRKey None cookie (mt_sessions w)) = Some x\<close> x dm inv wf_Exit
      by (intro exI [of _ "Exit i (mt_matchmaker w)"] exI [of _ ?dm])
        (auto simp: match_inv_def lock_def split: option.splits if_splits)
  qed
qed

definition info_packet :: "Achievement_ID_t \<times> int \<times> int \<times> int \<Rightarrow> (Achievement_ID_t, int) smap \<Rightarrow> byte list" where
  "info_packet info achieved = vector (fold (\<lambda>(achieve, cnt) q. push_int cnt (push_word achieve q)) achieved
     (player_info info (code GAME_PLAYER_INFO)))"

lemma match_info_run:
  assumes "pool_ready (en_sql E) ptr ptrs w" "GetInfo (en_sql E) i (sv_db w) = (Inr info, d1)"
    "GetAllAchieve (en_sql E) i d1 = (Inr achieved, d2)"
  shows "match_info E c i w = (Inr (), upd_client c (sk_Send (info_packet info achieved))
    (w\<lparr>sv_db := sql_end (en_sql E) d2, sv_pool := (sv_pool w)\<lparr>pl_waitPool := ptrs @ [ptr]\<rparr>\<rparr>))"
  using assms(2,3)
  by (simp add: match_info_def run_defs with_connection_run [OF assms(1)] end_connection_def release_def info_packet_def
      upd_client_def)

lemma pop_cookie:
  assumes "length cookie = 32"
  shows "pop_hash (bq_of_vector True cookie) = Inr (cookie, (bq_of_vector True cookie)\<lparr>bq_ptr := 32\<rparr>)"
  using pop_hash_packet [of cookie "bq_of_vector True cookie"] assms by simp

lemma pop_short_cookie:
  assumes "length m < 32"
  shows "pop_hash (bq_of_vector True m) = Inl (Out_of_range ''ByteQueue : Byte Out of Range'')"
  using pop_hash_packet [of m "bq_of_vector True m"] assms by simp

text \<open>What the tail of the authentication does to the socket.\<close>

lemma match_tail_run:
  assumes "live c w s"
  shows "\<exists>w'. acts [c_FillTTL c SESSION_TTL, match_ClientProcess E c i [], match_SessionProcess c i cookie] w = (Inr (), w') \<and>
    w' = w\<lparr>sv_objects := (sv_objects w)(c \<mapsto> s\<lparr>sk_ttl := SESSION_TTL, cl_handler := Some (Match_Client i), sk_timer := Some (Match_Session i cookie)\<rparr>)\<rparr>"
  using assms
  by (simp add: run_defs match_SessionProcess_def upd_client_def live_def can_recv_def sk_FillTTL_def sk_SetTimeout_def)

text \<open>The statements of the authentication after the checks, for a cookie of which no socket is \<open>c\<close>.\<close>

lemma match_admit_run:
  assumes "match_inv w" "live c w s"
    and "pool_ready (en_sql E) ptr ptrs w" "GetInfo (en_sql E) i (sv_db w) = (Inr info, d1)"
      "GetAllAchieve (en_sql E) i d1 = (Inr achieved, d2)"
    and "\<forall>l v. (l, cookie, v) \<in> dm_rel (mt_sessions w) \<longrightarrow> l = i \<and> v \<noteq> Some c"
    and "\<forall>r v. (i, r, v) \<in> dm_rel (mt_sessions w) \<longrightarrow> r = cookie"
  shows "\<exists>w' s'. acts [match_register c i cookie, match_info E c i, c_FillTTL c SESSION_TTL,
       match_ClientProcess E c i [], match_SessionProcess c i cookie] w = (Inr (), w') \<and> match_inv w' \<and>
     dm_rel (mt_sessions w') = insert (i, cookie, Some c) {e \<in> dm_rel (mt_sessions w). fst e \<noteq> i} \<and>
     sv_objects w' c = Some s' \<and> sk_out s' = sk_out s @ [info_packet info achieved] \<and> \<not> sk_closing s' \<and> sk_open s' \<and>
     cl_handler s' = Some (Match_Client i) \<and> sk_timer s' = Some (Match_Session i cookie) \<and>
     (\<forall>old s0. (i, cookie, Some old) \<in> dm_rel (mt_sessions w) \<and> live old w s0 \<longrightarrow>
        (\<exists>s1. sv_objects w' old = Some s1 \<and> sk_out s1 = sk_out s0 @ [[ERR_DUPLICATED_ACCESS]] \<and> sk_closing s1))"
proof -
  let ?find = "fst (FindRKey None cookie (mt_sessions w))"
  define w2 where "w2 = (case ?find of Some (_, Some p) \<Rightarrow> if sv_objects w p = None then w else evicted p w | _ \<Rightarrow> w)"
  have wf: "dm_wf (mt_sessions w)" using assms(1) by (simp add: match_inv_def)
  have old: "?find = Some (l, v) \<longleftrightarrow> (l, cookie, v) \<in> dm_rel (mt_sessions w)" for l v using wf by (rule findr_rel)
  obtain mm dm where r: "match_register c i cookie w = (Inr (), w2\<lparr>mt_matchmaker := mm, mt_sessions := dm\<rparr>)"
    "dm_wf dm" "wf_mm mm" "dm_rel dm = insert (i, cookie, Some c) {e \<in> dm_rel (mt_sessions w). fst e \<noteq> i}"
    using match_register_run [OF assms(1), of cookie i c] assms(6,7) unfolding w2_def by blast
  have "\<forall>l p. ?find = Some (l, Some p) \<longrightarrow> c \<noteq> p" using assms(6) by (auto simp: old)
  then have o2: "sv_objects w2 c = Some s" "sv_pool w2 = sv_pool w" "sv_db w2 = sv_db w"
    using assms(2) unfolding w2_def by (auto simp: live_def split: option.splits)
  let ?w3 = "w2\<lparr>mt_matchmaker := mm, mt_sessions := dm\<rparr>"
  let ?w4 = "upd_client c (sk_Send (info_packet info achieved))
     (?w3\<lparr>sv_db := sql_end (en_sql E) d2, sv_pool := (sv_pool w)\<lparr>pl_waitPool := ptrs @ [ptr]\<rparr>\<rparr>)"
  have i: "match_info E c i ?w3 = (Inr (), ?w4)"
    using match_info_run [of E ptr ptrs ?w3 i info d1 achieved d2 c] assms(3-5) o2 by (simp add: pool_ready_def)
  let ?s4 = "s\<lparr>sk_out := sk_out s @ [info_packet info achieved]\<rparr>"
  have l4: "live c ?w4 ?s4" using o2(1) assms(2) by (simp add: live_def upd_client_def sk_Send_def)
  let ?w5 = "?w4\<lparr>sv_objects := (sv_objects ?w4)(c \<mapsto> ?s4\<lparr>sk_ttl := SESSION_TTL, cl_handler := Some (Match_Client i),
      sk_timer := Some (Match_Session i cookie)\<rparr>)\<rparr>"
  have "acts [c_FillTTL c SESSION_TTL, match_ClientProcess E c i [], match_SessionProcess c i cookie] ?w4 = (Inr (), ?w5)"
    using match_tail_run [OF l4, of E i cookie] by blast
  then have run: "acts [match_register c i cookie, match_info E c i, c_FillTTL c SESSION_TTL,
       match_ClientProcess E c i [], match_SessionProcess c i cookie] w = (Inr (), ?w5)"
    using r(1) i by (simp add: db_bind_def)
  have evict: "\<exists>s1. sv_objects ?w5 p = Some s1 \<and> sk_out s1 = sk_out s0 @ [[ERR_DUPLICATED_ACCESS]] \<and> sk_closing s1"
    if p: "(i, cookie, Some p) \<in> dm_rel (mt_sessions w)" "live p w s0" for p s0
  proof -
    have "p \<noteq> c" using p(1) assms(6) by blast
    moreover have "w2 = evicted p w" using p old [THEN iffD2, OF p(1)] by (simp add: w2_def live_def)
    ultimately show ?thesis using evicted_live [OF p(2)] by (auto simp: upd_client_def)
  qed
  show ?thesis
    using run r(2-4) l4 evict by (fastforce simp: match_inv_def upd_client_def live_def)
qed

lemma match_auth_run:
  assumes "redis_up (en_srv E) store (sv_redis w)" "match_inv w" "live c w s" "length cookie = 32"
    and "has_session (store (rd_server (sv_redis w))) i cookie self_keyword"
    and "pool_ready (en_sql E) ptr ptrs w" "GetInfo (en_sql E) i (sv_db w) = (Inr info, d1)"
      "GetAllAchieve (en_sql E) i d1 = (Inr achieved, d2)"
    and "\<forall>l v. (l, cookie, v) \<in> dm_rel (mt_sessions w) \<longrightarrow> l = i \<and> v \<noteq> Some c"
    and "\<forall>r v. (i, r, v) \<in> dm_rel (mt_sessions w) \<longrightarrow> r = cookie"
  shows "\<exists>w' s'. match_AuthenticateProcess E c (bq_of_vector True cookie) (ErrorCode_custom SUCCESS) [] w = (Inr (), w') \<and> match_inv w' \<and>
     dm_rel (mt_sessions w') = insert (i, cookie, Some c) {e \<in> dm_rel (mt_sessions w). fst e \<noteq> i} \<and>
     sv_objects w' c = Some s' \<and> sk_out s' = sk_out s @ [info_packet info achieved] \<and> \<not> sk_closing s' \<and> sk_open s' \<and>
     cl_handler s' = Some (Match_Client i) \<and> sk_timer s' = Some (Match_Session i cookie) \<and>
     (\<forall>old s0. (i, cookie, Some old) \<in> dm_rel (mt_sessions w) \<and> live old w s0 \<longrightarrow>
        (\<exists>s1. sv_objects w' old = Some s1 \<and> sk_out s1 = sk_out s0 @ [[ERR_DUPLICATED_ACCESS]] \<and> sk_closing s1))"
proof -
  obtain rd1 where g: "GetInfoFromCookie (en_srv E) cookie (sv_redis w) = Inr (Inr (i, self_keyword), rd1)"
    using GetInfoFromCookie_up [OF assms(1,5)] by metis
  let ?w1 = "(upd_client c sk_CancelTimeout w)\<lparr>sv_redis := rd1\<rparr>"
  have f: "match_inv ?w1" "live c ?w1 (s\<lparr>sk_timer := None\<rparr>)" "mt_sessions ?w1 = mt_sessions w"
    "pool_ready (en_sql E) ptr ptrs ?w1" "sv_db ?w1 = sv_db w"
    using assms(2,3,6) by (simp_all add: match_inv_def live_def pool_ready_def upd_client_def sk_CancelTimeout_def)
  have "match_AuthenticateProcess E c (bq_of_vector True cookie) (ErrorCode_custom SUCCESS) [] w =
      acts [match_register c i cookie, match_info E c i, c_FillTTL c SESSION_TTL,
       match_ClientProcess E c i [], match_SessionProcess c i cookie] ?w1"
    using g pop_cookie [OF assms(4)]
    by (simp add: match_AuthenticateProcess_def run_defs ec_isSuccessed_def ErrorCode_custom_def upd_client_def [of c sk_CancelTimeout])
  moreover have "live old ?w1 s0" if "(i, cookie, Some old) \<in> dm_rel (mt_sessions w) \<and> live old w s0" for old s0
    using that assms(9) by (auto simp: live_def upd_client_def)
  ultimately show ?thesis
    using match_admit_run [OF f(1,2,4), unfolded f(3,5), OF assms(7-10)]
    by (elim exE conjE, intro exI conjI) auto
qed

section \<open>Properties\<close>


definition match_example :: "(rstore, string option) match" where
  "match_example = \<lparr>sv_isRunning = True, sv_accepting = True,
     sv_objects = [0 \<mapsto> \<lparr>sk_open = True, sk_closing = False, sk_out = [], sk_ttl = 0, sk_timer = Some Match_Close,
                        cl_is_open = True, cl_handler = Some Match_Authenticate\<rparr>],
     sv_clients = [0],
     sv_redis = ref_conn\<lparr>rd_server := [cookie_key (replicate 32 5) \<mapsto> RList [idstr 3, ''match''],
        account_key 3 \<mapsto> RStr (cookieStr (replicate 32 5))]\<rparr>,
     sv_pool = MyPostgresPool [Some True], sv_db = None, sv_thrown = [], sv_graceful = False,
     mt_sessions = dm_empty, mt_matchmaker = MyMatchMaker 1, mt_service = MatchServiceServer\<rparr>"

lemma match_example_facts:
  "redis_up (en_srv auth_example_env) id (sv_redis match_example)"
  "pool_ready (en_sql auth_example_env) 0 [] match_example"
  "has_session (id (rd_server (sv_redis match_example))) 3 (replicate 32 5) self_keyword"
  "GetInfo (en_sql auth_example_env) 3 (sv_db match_example) = (Inr (0, 0, 0, 0), None)"
  "GetAllAchieve (en_sql auth_example_env) 3 None = (Inr [], None)"
  "dm_rel (mt_sessions match_example) = {}"
  "\<exists>s. live 0 match_example s \<and> sk_out s = []"
  by (simp_all add: match_example_def auth_example_env_def redis_up_def redis_ok_ref rd_is_open_def nospace_def
      match_inv_def wf_MyMatchMaker pool_ready_def MyPostgresPool_def one_user_sql_def has_session_def self_keyword_def
      GetInfo_def GetAllAchieve_def db_defs dm_rel_def dm_empty_def live_def)

lemma match_example_inv: "match_inv match_example"
  by (simp add: match_example_def match_inv_def wf_MyMatchMaker)


text \<open>
  The authentication timeout can strike an authenticated client: \<open>AcceptProcess\<close> sets the timer that
  closes the socket after \<open>StartRecv\<close>. When the cookie is already in the receive buffer, \<open>StartRecv\<close>
  authenticates at once, and the timer set afterwards replaces the session timer, so that the
  client is closed after two seconds.
\<close>

theorem match_accept_race:
  assumes "match_AcceptProcess E c (ErrorCode_custom SUCCESS) (m # ms) w = (Inr (), w')" "live c w' s'"
  shows "sk_timer s' = Some Match_Close \<and>
    (\<exists>s''. sv_objects (snd (match_timer_fires E c Match_Close w')) c = Some s'' \<and> sk_closing s'')"
proof -
  obtain w1 where "w' = upd_client c (sk_SetTimeout Match_Close) w1"
    using assms(1) by (auto simp: match_AcceptProcess_def run_defs ec_isSuccessed_def ErrorCode_custom_def
        split: prod.splits sum.splits if_splits)
  then obtain s1 where "s' = sk_SetTimeout Match_Close s1"
    using assms(2) by (auto simp: live_def upd_client_def)
  then have "sk_timer s' = Some Match_Close"
    using assms(2) by (cases "sk_closing s1") (simp_all add: live_def sk_SetTimeout_def)
  with assms(2) show ?thesis
    by (auto simp: live_def upd_client_def match_timer_fires_def run_defs close_client_def sk_Close_def Let_def)
qed

theorem match_accept_race_witness:
  "\<exists>w' s'. match_AcceptProcess auth_example_env 0 (ErrorCode_custom SUCCESS) [replicate 32 5] match_example = (Inr (), w') \<and>
     dm_rel (mt_sessions w') = {(3, replicate 32 5, Some 0)} \<and> sv_objects w' 0 = Some s' \<and> sk_timer s' = Some Match_Close"
proof -
  obtain s where s: "live 0 match_example s" using match_example_facts(7) by blast
  obtain w1 s1 where w1: "match_AuthenticateProcess auth_example_env 0 (bq_of_vector True (replicate 32 5)) (ErrorCode_custom SUCCESS) []
      match_example = (Inr (), w1)" "dm_rel (mt_sessions w1) = {(3, replicate 32 5, Some 0)}" "live 0 w1 s1"
    using match_auth_run [OF match_example_facts(1) match_example_inv s _ match_example_facts(3,2,4,5)] match_example_facts(6)
    by (auto simp: live_def)
  let ?w' = "upd_client 0 (sk_SetTimeout Match_Close) w1"
  have run: "match_AcceptProcess auth_example_env 0 (ErrorCode_custom SUCCESS) [replicate 32 5] match_example = (Inr (), ?w')"
    using s w1(1) by (simp add: match_AcceptProcess_def run_defs ec_isSuccessed_def ErrorCode_custom_def can_recv_def live_def)
  have "live 0 ?w' (s1\<lparr>sk_timer := Some Match_Close\<rparr>)"
    using w1(3) by (simp add: live_def upd_client_def sk_SetTimeout_def)
  with match_accept_race [OF run this] run w1(2) show ?thesis
    by (auto simp: live_def upd_client_def)
qed

text \<open>
  A packet shorter than a cookie brings the server down: the read of the cookie is not inside a
  \<open>try\<close>, so that the exception leaves the handler, for any client that has not authenticated yet.
\<close>

theorem match_short_cookie:
  assumes "length m < 32"
  shows "\<exists>w' e. match_received E c Match_Authenticate None (m # ms) w = (Inl e, w') \<and> catchable e \<and>
     mt_sessions w' = mt_sessions w"
  using pop_short_cookie [OF assms]
  by (simp add: match_received_def match_AuthenticateProcess_def run_defs ec_isSuccessed_def ErrorCode_custom_def
      catchable_def upd_client_def)

theorem match_short_cookie_witness:
  "\<exists>w' e. match_received auth_example_env 0 Match_Authenticate None [[1, 2, 3]] match_example = (Inl e, w') \<and> catchable e"
  using match_short_cookie [of "[1, 2, 3]" auth_example_env 0 "[]" match_example] by auto



end
