(* ===== verification/MatchHandover.thy ===== *)
theory MatchHandover
  imports MatchSessions
begin

text \<open>
  A pair of players that the match maker has found is handed over to a battle server, or stays in the
  queue when no battle server takes it.
\<close>

section \<open>The steps of one match\<close>

text \<open>A player that can be matched: its session is here and in Redis, and its socket works.\<close>

definition matchable_player :: "rstore \<Rightarrow> ('r, 'd) match \<Rightarrow> Account_ID_t \<Rightarrow> Hash_t \<Rightarrow> nat \<Rightarrow> (match_timer, match_recv) client \<Rightarrow> bool" where
  "matchable_player st w i ck c s \<longleftrightarrow> (i, ck, Some c) \<in> dm_rel (mt_sessions w) \<and> live c w s \<and> cl_is_open s \<and>
     has_session st i ck self_keyword \<and> st (account_key i) \<noteq> None"

lemma probe_ok:
  assumes "redis_up (en_srv E) store (sv_redis w)" "match_inv w"
    and "matchable_player (store (rd_server (sv_redis w))) w i ck c s"
  shows "\<exists>rd. match_probe E i w = (Inr (ck, Some c), (upd_client c (sk_Send [ANS_HEARTBEAT]) w)\<lparr>sv_redis := rd\<rparr>) \<and>
    redis_up (en_srv E) store rd \<and> store (rd_server rd) = store (rd_server (sv_redis w))"
proof -
  obtain rd where r: "RefreshInfo (en_srv E) i ck self_keyword (sv_redis w) = (True, rd)" "redis_up (en_srv E) store rd"
    "store (rd_server rd) = store (rd_server (sv_redis w))"
    by (rule RefreshInfo_up [OF assms(1), of i ck self_keyword]) (use assms(3) in \<open>simp add: matchable_player_def\<close>)
  have "fst (FindLKey None i (mt_sessions w)) = Some (ck, Some c)"
    using assms(2,3) findl_rel [of "mt_sessions w" None i ck "Some c"] by (simp add: match_inv_def matchable_player_def)
  then have "match_probe E i w = (Inr (ck, Some c), (upd_client c (sk_Send [ANS_HEARTBEAT]) w)\<lparr>sv_redis := rd\<rparr>)"
    using assms(2,3) r(1)
    by (auto simp: match_probe_def db_bind_def find_account run_defs lock_def matchable_player_def live_def vector_def
        upd_client_def is_open_def sk_Send_def)
  with r show ?thesis by blast
qed

lemma matchable_after:
  assumes "matchable_player st w i ck c s" "c \<noteq> c'"
  shows "matchable_player st ((upd_client c' f w)\<lparr>sv_redis := rd\<rparr>) i ck c s"
  using assms by (simp add: matchable_player_def live_def upd_client_def)

lemma nospace_battle_name: "nospace (battle_name n)"
proof -
  have "CHR '' '' \<notin> set (digits k)" for k
  proof
    assume "CHR '' '' \<in> set (digits k)"
    then obtain j where "j < 10" "CHR '' '' = digit j" using digits_all by blast
    then have "\<not> is_space (CHR '' '')" using digit_props by metis
    then show False by (simp add: is_space_def)
  qed
  then show ?thesis by (simp add: nospace_def battle_name_def to_string_int_def)
qed

text \<open>The message of a made match.\<close>

definition made_packet :: "int \<Rightarrow> byte list" where
  "made_packet n = ANS_MATCHMADE # obj True (word_of_int n :: 32 word)"

lemma push_int_made: "vector (push_int n (code ANS_MATCHMADE)) = made_packet n"
  by (simp add: push_int_def push_word_def made_packet_def vector_def push_default_bytes ordered_def)

definition sent_away :: "int \<Rightarrow> Account_ID_t \<Rightarrow> nat \<Rightarrow> ('r, 'd) match \<Rightarrow> ('r, 'd) match" where
  "sent_away n i c w =
     close_client c ((upd_client c (sk_Send (made_packet n)) w)\<lparr>mt_sessions := snd (EraseLKey None i (mt_sessions w))\<rparr>)"

lemma send_player_run: "match_send_player n i c w = (Inr (), sent_away n i c w)"
  by (simp add: match_send_player_def run_defs drop_sessions push_int_made [simplified] sent_away_def upd_client_def)

lemma sent_away_frame [simp]:
  "sv_redis (sent_away n i c w) = sv_redis w" "mt_matchmaker (sent_away n i c w) = mt_matchmaker w"
  "mt_sessions (sent_away n i c w) = snd (EraseLKey None i (mt_sessions w))"
  "x \<noteq> c \<Longrightarrow> sv_objects (sent_away n i c w) x = sv_objects w x"
  by (simp_all add: sent_away_def close_client_def upd_client_def RemoveClient_def Let_def split: option.splits)

lemma sent_away_live:
  "live c w s \<Longrightarrow> \<exists>s'. sv_objects (sent_away n i c w) c = Some s' \<and> sk_out s' = sk_out s @ [made_packet n] \<and> sk_closing s'"
  by (auto simp: sent_away_def live_def close_client_def upd_client_def sk_Send_def sk_Close_def Let_def)

lemma hand_over_run:
  assumes "redis_up (en_srv E) store (sv_redis w)" "TransferMatch peer (mt_service w) = (n, ms)" "0 < n" "i0 \<noteq> i1" "k0 \<noteq> k1"
  shows "\<exists>rd. match_hand_over E peer (i0, k0, c0) (i1, k1, c1) w =
      (Inr True, (sent_away n i1 c1 (sent_away n i0 c0 (w\<lparr>mt_service := ms, sv_redis := rd\<rparr>)))
         \<lparr>mt_matchmaker := PopMatch (mt_matchmaker w)\<rparr>) \<and>
    redis_up (en_srv E) store rd \<and>
    store (rd_server rd) = put_session i1 k1 (battle_name n) (put_session i0 k0 (battle_name n) (store (rd_server (sv_redis w)))) \<and>
    has_session (store (rd_server rd)) i0 k0 (battle_name n) \<and> has_session (store (rd_server rd)) i1 k1 (battle_name n)"
proof -
  obtain rd0 where 0: "SetInfo (en_srv E) i0 k0 (battle_name n) (sv_redis w) = (ErrorCode_custom SUCCESS, rd0)"
    "redis_up (en_srv E) store rd0" "store (rd_server rd0) = (store (rd_server (sv_redis w)))
       (cookie_key k0 \<mapsto> RList [idstr i0, battle_name n], account_key i0 \<mapsto> RStr (cookieStr k0))"
    using SetInfo_up [OF assms(1) nospace_battle_name] by metis
  obtain rd1 where 1: "SetInfo (en_srv E) i1 k1 (battle_name n) rd0 = (ErrorCode_custom SUCCESS, rd1)"
    "redis_up (en_srv E) store rd1" "store (rd_server rd1) = (store (rd_server rd0))
       (cookie_key k1 \<mapsto> RList [idstr i1, battle_name n], account_key i1 \<mapsto> RStr (cookieStr k1))"
    using SetInfo_up [OF 0(2) nospace_battle_name] by metis
  have "match_hand_over E peer (i0, k0, c0) (i1, k1, c1) w =
      (Inr True, (sent_away n i1 c1 (sent_away n i0 c0 (w\<lparr>mt_service := ms, sv_redis := rd1\<rparr>)))
         \<lparr>mt_matchmaker := PopMatch (mt_matchmaker w)\<rparr>)"
    using assms(2,3) 0(1) 1(1)
    by (simp add: match_hand_over_def match_transfer_def run_defs drop_result_def send_player_run on_matchmaker_def)
  then show ?thesis using 0(3) 1(2,3) assms(4,5) by (auto simp: has_session_def)
qed

text \<open>Both players of a match are probed before it is handed over.\<close>

lemma probes_run:
  assumes "redis_up (en_srv E) store (sv_redis w)" "match_inv w" "GetMatch (mt_matchmaker w) = (lp, rp)"
    and "matchable_player (store (rd_server (sv_redis w))) w (whoami lp) k0 c0 s0"
    and "matchable_player (store (rd_server (sv_redis w))) w (whoami rp) k1 c1 s1" "c0 \<noteq> c1"
  obtains w1 where "match_one E peer w = match_hand_over E peer (whoami lp, k0, c0) (whoami rp, k1, c1) w1"
    "redis_up (en_srv E) store (sv_redis w1)" "store (rd_server (sv_redis w1)) = store (rd_server (sv_redis w))"
    "mt_service w1 = mt_service w" "mt_sessions w1 = mt_sessions w" "mt_matchmaker w1 = mt_matchmaker w"
    "live c0 w1 (s0\<lparr>sk_out := sk_out s0 @ [[ANS_HEARTBEAT]]\<rparr>)" "live c1 w1 (s1\<lparr>sk_out := sk_out s1 @ [[ANS_HEARTBEAT]]\<rparr>)"
proof -
  let ?st = "store (rd_server (sv_redis w))"
  obtain r0 where p0: "match_probe E (whoami lp) w = (Inr (k0, Some c0), (upd_client c0 (sk_Send [ANS_HEARTBEAT]) w)\<lparr>sv_redis := r0\<rparr>)"
    "redis_up (en_srv E) store r0" "store (rd_server r0) = ?st"
    using probe_ok [OF assms(1,2,4)] by blast
  let ?w0 = "(upd_client c0 (sk_Send [ANS_HEARTBEAT]) w)\<lparr>sv_redis := r0\<rparr>"
  have i0: "match_inv ?w0" using assms(2) by (simp add: match.upd_client_inv match.I_redis)
  have m1: "matchable_player ?st ?w0 (whoami rp) k1 c1 s1"
    using matchable_after [OF assms(5) assms(6) [symmetric]] by blast
  obtain r1 where p1: "match_probe E (whoami rp) ?w0 = (Inr (k1, Some c1), (upd_client c1 (sk_Send [ANS_HEARTBEAT]) ?w0)\<lparr>sv_redis := r1\<rparr>)"
    "redis_up (en_srv E) store r1" "store (rd_server r1) = ?st"
    using probe_ok [of E store ?w0 "whoami rp" k1 c1 s1] p0(2,3) i0 m1 by auto
  let ?w1 = "(upd_client c1 (sk_Send [ANS_HEARTBEAT]) ?w0)\<lparr>sv_redis := r1\<rparr>"
  show thesis
  proof (rule that [of ?w1])
    show "match_one E peer w = match_hand_over E peer (whoami lp, k0, c0) (whoami rp, k1, c1) ?w1"
      using assms(3) p0(1) p1(1) by (simp add: match_one_def db_bind_def gets_def)
  qed (use p1(2,3) assms(4-6) in \<open>simp_all add: matchable_player_def live_def upd_client_def sk_Send_def\<close>)
qed

lemma matched_cookies:
  "match_inv w \<Longrightarrow> matchable_player st w i0 k0 c0 s0 \<Longrightarrow> matchable_player st w i1 k1 c1 s1 \<Longrightarrow> i0 \<noteq> i1 \<Longrightarrow> k0 \<noteq> k1"
  using demap.findl_findr by (fastforce simp: match_inv_def matchable_player_def dm_rel_def dm_wf_inv)

section \<open>Properties\<close>

text \<open>
  C8. A match of two players that are there is handed over as a whole or not at all. If a battle server
  takes it, both sessions in Redis name that server, both players are told its number, their
  sockets are closed, their sessions leave this server and the match leaves the queue. If none
  does, the match stays at the head of the queue, the sessions and the store are as before, and
  both sockets stay open.
\<close>

theorem match_hands_over:
  assumes "redis_up (en_srv E) store (sv_redis w)" "match_inv w" "GetMatch (mt_matchmaker w) = (lp, rp)"
    and "matchable_player (store (rd_server (sv_redis w))) w (whoami lp) k0 c0 s0"
    and "matchable_player (store (rd_server (sv_redis w))) w (whoami rp) k1 c1 s1"
    and "whoami lp \<noteq> whoami rp" "c0 \<noteq> c1" "TransferMatch peer (mt_service w) = (n, ms)"
  shows "\<exists>w' t0 t1. match_one E peer w = (Inr (0 < n), w') \<and> match_inv w' \<and>
     sv_objects w' c0 = Some t0 \<and> sv_objects w' c1 = Some t1 \<and>
     (if 0 < n then
        has_session (store (rd_server (sv_redis w'))) (whoami lp) k0 (battle_name n) \<and>
        has_session (store (rd_server (sv_redis w'))) (whoami rp) k1 (battle_name n) \<and>
        sk_out t0 = sk_out s0 @ [[ANS_HEARTBEAT], made_packet n] \<and> sk_closing t0 \<and>
        sk_out t1 = sk_out s1 @ [[ANS_HEARTBEAT], made_packet n] \<and> sk_closing t1 \<and>
        dm_rel (mt_sessions w') = {e \<in> dm_rel (mt_sessions w). fst e \<noteq> whoami lp \<and> fst e \<noteq> whoami rp} \<and>
        mt_matchmaker w' = PopMatch (mt_matchmaker w)
      else
        store (rd_server (sv_redis w')) = store (rd_server (sv_redis w)) \<and> mt_sessions w' = mt_sessions w \<and>
        mt_matchmaker w' = mt_matchmaker w \<and> live c0 w' t0 \<and> live c1 w' t1)"
proof -
  obtain w1 where one: "match_one E peer w = match_hand_over E peer (whoami lp, k0, c0) (whoami rp, k1, c1) w1"
    and up: "redis_up (en_srv E) store (sv_redis w1)" "store (rd_server (sv_redis w1)) = store (rd_server (sv_redis w))"
    and f: "mt_service w1 = mt_service w" "mt_sessions w1 = mt_sessions w" "mt_matchmaker w1 = mt_matchmaker w"
    and l: "live c0 w1 (s0\<lparr>sk_out := sk_out s0 @ [[ANS_HEARTBEAT]]\<rparr>)" "live c1 w1 (s1\<lparr>sk_out := sk_out s1 @ [[ANS_HEARTBEAT]]\<rparr>)"
    using probes_run [OF assms(1-5,7)] by metis
  have inv: "match_inv (snd (match_one E peer w))" using assms(2) keeps_one by (rule keeps_snd [rotated])
  show ?thesis
  proof (cases "0 < n")
    case False
    then have "match_one E peer w = (Inr False, w1\<lparr>mt_service := ms\<rparr>)"
      using assms(8) by (simp add: one match_hand_over_def match_transfer_def run_defs f)
    then show ?thesis using False l up(2) f inv by (auto simp: live_def)
  next
    case True
    obtain rd where h: "match_one E peer w = (Inr True, (sent_away n (whoami rp) c1 (sent_away n (whoami lp) c0
        (w1\<lparr>mt_service := ms, sv_redis := rd\<rparr>)))\<lparr>mt_matchmaker := PopMatch (mt_matchmaker w)\<rparr>)"
      "has_session (store (rd_server rd)) (whoami lp) k0 (battle_name n)" "has_session (store (rd_server rd)) (whoami rp) k1 (battle_name n)"
      using hand_over_run [OF up(1), of peer n ms "whoami lp" "whoami rp" k0 k1 c0 c1] matched_cookies [OF assms(2,4-6)] assms(6,8) True f one
      by auto
    let ?w2 = "w1\<lparr>mt_service := ms, sv_redis := rd\<rparr>"
    have l2: "live c0 ?w2 (s0\<lparr>sk_out := sk_out s0 @ [[ANS_HEARTBEAT]]\<rparr>)" using l(1) by (simp add: live_def)
    obtain t0 where t0: "sv_objects (sent_away n (whoami lp) c0 ?w2) c0 = Some t0"
      "sk_out t0 = sk_out s0 @ [[ANS_HEARTBEAT], made_packet n]" "sk_closing t0"
      using sent_away_live [OF l2] by auto
    have "live c1 (sent_away n (whoami lp) c0 ?w2) (s1\<lparr>sk_out := sk_out s1 @ [[ANS_HEARTBEAT]]\<rparr>)" using l(2) assms(7) by (auto simp: live_def)
    then obtain t1 where t1: "sv_objects (sent_away n (whoami rp) c1 (sent_away n (whoami lp) c0 ?w2)) c1 = Some t1"
      "sk_out t1 = sk_out s1 @ [[ANS_HEARTBEAT], made_packet n]" "sk_closing t1"
      using sent_away_live by fastforce
    have "dm_wf (mt_sessions w)" using assms(2) by (simp add: match_inv_def)
    then have "dm_rel (mt_sessions (sent_away n (whoami rp) c1 (sent_away n (whoami lp) c0 ?w2))) =
        {e \<in> dm_rel (mt_sessions w). fst e \<noteq> whoami lp \<and> fst e \<noteq> whoami rp}"
      by (auto simp: f rel_EraseLKey dm_wf_EraseLKey)
    with True h t0 t1 inv assms(7) show ?thesis by auto
  qed
qed

text \<open>Two players in the queue, with a battle server that accepts matches.\<close>

abbreviation (input) cookie3 :: Hash_t where "cookie3 \<equiv> replicate 32 5"
abbreviation (input) cookie4 :: Hash_t where "cookie4 \<equiv> replicate 32 6"

definition pair_example :: "(rstore, string option) match" where
  "pair_example = match_example\<lparr>
     sv_objects := (\<lambda>c. if c < 2 then Some \<lparr>sk_open = True, sk_closing = False, sk_out = [], sk_ttl = 4, sk_timer = None,
        cl_is_open = True, cl_handler = Some (Match_Client (of_nat c + 3))\<rparr> else None),
     sv_redis := ref_conn\<lparr>rd_server := [cookie_key cookie3 \<mapsto> RList [idstr 3, ''match''], account_key 3 \<mapsto> RStr (cookieStr cookie3),
        cookie_key cookie4 \<mapsto> RList [idstr 4, ''match''], account_key 4 \<mapsto> RStr (cookieStr cookie4)]\<rparr>,
     mt_sessions := snd (Insert 4 cookie4 (Some 1) (snd (Insert 3 cookie3 (Some 0) dm_empty))),
     mt_matchmaker := (MyMatchMaker 1)\<lparr>match_queue := [(qe_new 3 0 0 0, qe_new 4 0 0 0)]\<rparr>,
     mt_service := snd (SessionStream_begin 7 (Some 1) MatchServiceServer)\<rparr>"

definition accepting_peer :: peers where
  "accepting_peer s ms = (True, ms\<lparr>ms_Recent_Success := 1\<rparr>)"

lemma pair_example_sessions:
  "dm_rel (mt_sessions pair_example) = {(3, cookie3, Some 0), (4, cookie4, Some 1)}" "dm_wf (mt_sessions pair_example)"
proof -
  define d1 :: "(Account_ID_t, Hash_t, nat option) demap" where "d1 = snd (Insert 3 cookie3 (Some 0) dm_empty)"
  have e: "dm_rel (dm_empty :: (Account_ID_t, Hash_t, nat option) demap) = {}" by (simp add: dm_rel_def dm_empty_def)
  have 1: "dm_wf d1" "dm_rel d1 = {(3, cookie3, Some 0)}"
    unfolding d1_def by (simp_all add: dm_wf_Insert rel_Insert fst_Insert e)
  have "dm_wf (snd (Insert 4 cookie4 (Some 1) d1))" "dm_rel (snd (Insert 4 cookie4 (Some 1) d1)) = {(3, cookie3, Some 0), (4, cookie4, Some 1)}"
    using rel_Insert [OF 1(1), of 4 "cookie4" "Some 1"] fst_Insert [OF 1(1), of 4 "cookie4" "Some 1"] dm_wf_Insert [OF 1(1), of 4 "cookie4" "Some 1"]
    by (auto simp: 1(2) replicate_eq_replicate)
  then show "dm_rel (mt_sessions pair_example) = {(3, cookie3, Some 0), (4, cookie4, Some 1)}" "dm_wf (mt_sessions pair_example)"
    by (simp_all add: pair_example_def d1_def)
qed

lemma pair_example_inv: "match_inv pair_example"
  using pair_example_sessions(2) by (simp add: match_inv_def) (simp add: pair_example_def wf_mm_def MyMatchMaker_def qe_new_def wf_qe_def)

lemma pair_example_transfer: "\<exists>ms. TransferMatch accepting_peer (mt_service pair_example) = (1, ms)"
proof -
  have "ms_streams (mt_service pair_example) = snd (Insert 1 7 0 dm_empty)"
    by (simp add: pair_example_def MatchServiceServer_def SessionStream_begin_def dm_Size_def FindLKey_def dm_empty_def)
  then have "GetAll 0 (ms_streams (mt_service pair_example)) = ([(1, 7, 0)], snd (Insert 1 7 0 dm_empty))"
    by (simp add: GetAll_def dm_empty_def Insert_def smap_insert_def smap_at_def)
  then show ?thesis
    by (simp add: TransferMatch_def transfer_loop_sorted attempt_def accepting_peer_def)
qed

lemma pair_example_redis: "redis_up (en_srv auth_example_env) id (sv_redis pair_example)"
  by (simp add: pair_example_def auth_example_env_def redis_up_def redis_ok_ref rd_is_open_def nospace_def)

lemma pair_example_head: "GetMatch (mt_matchmaker pair_example) = (qe_new 3 0 0 0, qe_new 4 0 0 0)"
  by (simp add: pair_example_def GetMatch_def)

lemma pair_example_ids: "whoami (qe_new 3 0 0 0) = 3" "whoami (qe_new 4 0 0 0) = 4"
  by (simp_all add: whoami_def qe_new_def)

lemma pair_example_players:
  "matchable_player (id (rd_server (sv_redis pair_example))) pair_example 3 cookie3 0 (the (sv_objects pair_example 0))"
  "matchable_player (id (rd_server (sv_redis pair_example))) pair_example 4 cookie4 1 (the (sv_objects pair_example 1))"
  using pair_example_sessions(1)
  by (simp_all add: matchable_player_def live_def)
    (simp_all add: pair_example_def has_session_def self_keyword_def replicate_eq_replicate)

theorem match_hands_over_witness:
  "\<exists>w'. match_one auth_example_env accepting_peer pair_example = (Inr True, w') \<and>
     has_session (rd_server (sv_redis w')) 3 cookie3 (battle_name 1) \<and> dm_rel (mt_sessions w') = {}"
proof -
  let ?w = pair_example
  obtain ms where t: "TransferMatch accepting_peer (mt_service ?w) = (1, ms)" using pair_example_transfer by blast
  show ?thesis
    using match_hands_over [OF pair_example_redis pair_example_inv pair_example_head, unfolded pair_example_ids, OF pair_example_players _ _ t]
      pair_example_sessions(1) by auto
qed

end
