(* ===== verification/BattleService.thy ===== *)
theory BattleService
  imports Server
begin

text \<open>
  Two parts of the battle server that stand on their own: the pool of timers, \<open>threads/TimerPool.cpp\<close>,
  and the client of the match service, \<open>battle/BattleServiceClient.cpp\<close>.

  A timer of Boost.Asio is a number (its pointer) and a state: whether a wait is pending, whether
  that wait has been cancelled, and the time it was last set to. gRPC is not code of the repository:
  a stream is seen through the messages that are given to \<open>Write\<close> and those that \<open>Read\<close> returns.
\<close>

section \<open>Timers\<close>

datatype wait = Idle | Waiting | Cancelled

record timer =
  tm_wait :: wait
  tm_expires :: int

record timer_pool =
  tp_isRunning :: bool
  tp_TimerSet :: "nat list"

definition TimerPool :: timer_pool where
  "TimerPool = \<lparr>tp_isRunning = True, tp_TimerSet = []\<rparr>"

text \<open>
  \<open>cancel\<close>: a pending wait ends with an error. \<open>expires_after\<close> cancels a pending wait as well.
  \<open>async_wait\<close> is called only when no wait is pending.
\<close>

definition tm_cancel :: "timer \<Rightarrow> timer" where
  "tm_cancel t = (if tm_wait t = Waiting then t\<lparr>tm_wait := Cancelled\<rparr> else t)"

definition tm_expires_after :: "int \<Rightarrow> timer \<Rightarrow> timer" where
  "tm_expires_after ms t = (tm_cancel t)\<lparr>tm_expires := ms\<rparr>"

definition tm_async_wait :: "timer \<Rightarrow> timer" where
  "tm_async_wait t = t\<lparr>tm_wait := Waiting\<rparr>"

text \<open>\<open>p\<close> is the pointer of the new timer; \<open>None\<close> is the null pointer.\<close>

definition GetTimer :: "nat \<Rightarrow> timer_pool \<Rightarrow> nat option \<times> timer_pool" where
  "GetTimer p tp =
     (if \<not> tp_isRunning tp then (None, tp)
      else if p \<in> set (tp_TimerSet tp) then (None, tp)
      else (Some p, tp\<lparr>tp_TimerSet := p # tp_TimerSet tp\<rparr>))"

definition ReleaseTimer :: "nat \<Rightarrow> timer_pool \<Rightarrow> timer_pool" where
  "ReleaseTimer p tp =
     (if \<not> tp_isRunning tp then tp else tp\<lparr>tp_TimerSet := removeAll p (tp_TimerSet tp)\<rparr>)"

text \<open>\<open>Stop\<close>: the timers of the set, which it cancels, and the pool.\<close>

definition TimerPool_Stop :: "timer_pool \<Rightarrow> nat list \<times> timer_pool" where
  "TimerPool_Stop tp = (tp_TimerSet tp, tp\<lparr>tp_isRunning := False, tp_TimerSet := []\<rparr>)"

definition TimerPool_Size :: "timer_pool \<Rightarrow> nat" where
  "TimerPool_Size tp = length (tp_TimerSet tp)"

definition TimerPool_is_open :: "timer_pool \<Rightarrow> bool" where
  "TimerPool_is_open tp = tp_isRunning tp"

text \<open>A thread of the pool runs the handler of a timer: an exception goes to the thread that waits for them.\<close>

definition timer_thread ::
  "(('cb, 'h, 'r, 'd, 'x) server_scheme, unit) db \<Rightarrow> (('cb, 'h, 'r, 'd, 'x) server_scheme, unit) db" where
  "timer_thread handler = db_catch handler (\<lambda>e. modify (ThrowThreadException e))"

section \<open>The client of the match service\<close>

record battle_service =
  bs_machine_id :: int
  bs_isRunning :: bool
  bs_isConnected :: bool
  bs_stream :: bool
  bs_written :: "32 word list"
  bs_writes_done :: bool

definition BattleServiceClient :: "int \<Rightarrow> battle_service" where
  "BattleServiceClient mid =
     \<lparr>bs_machine_id = mid, bs_isRunning = True, bs_isConnected = False, bs_stream = False, bs_written = [],
      bs_writes_done = False\<rparr>"

text \<open>The \<open>size_t\<close> is narrowed to the \<open>uint32\<close> of the message.\<close>

definition SetUsage :: "64 word \<Rightarrow> battle_service \<Rightarrow> battle_service" where
  "SetUsage usage bs =
     (if \<not> bs_stream bs then bs else bs\<lparr>bs_written := bs_written bs @ [ucast usage]\<rparr>)"

text \<open>
  \<open>ReceiveLoop\<close>: the start of a round, what follows the end of the stream, and whether another
  round follows. Between the two every message that \<open>Read\<close> returns is given to the callback.
\<close>

definition ReceiveLoop_open :: "battle_service \<Rightarrow> battle_service" where
  "ReceiveLoop_open bs =
     (if \<not> bs_isRunning bs then bs
      else SetUsage (word_of_int (bs_machine_id bs))
             (bs\<lparr>bs_stream := True, bs_written := [], bs_writes_done := False, bs_isConnected := True\<rparr>))"

datatype stream_status = Stream_ok | Stream_exhausted string | Stream_exists string | Stream_other string

definition ReceiveLoop_end :: "stream_status \<Rightarrow> battle_service \<Rightarrow> db_exn option \<times> battle_service" where
  "ReceiveLoop_end status bs =
     (case status of
        Stream_exhausted msg \<Rightarrow> Some (Std (StackTraceExcept msg))
      | Stream_exists msg \<Rightarrow> Some (Std (StackTraceExcept msg))
      | _ \<Rightarrow> None,
      bs\<lparr>bs_isConnected := False\<rparr>)"

text \<open>The end of the body, where the stream object goes.\<close>

definition ReceiveLoop_again :: "battle_service \<Rightarrow> bool \<times> battle_service" where
  "ReceiveLoop_again bs = (bs_isRunning bs, bs\<lparr>bs_stream := False\<rparr>)"

definition bs_is_open :: "battle_service \<Rightarrow> bool" where
  "bs_is_open bs = bs_isConnected bs"

definition bs_Close :: "battle_service \<Rightarrow> battle_service" where
  "bs_Close bs = (let bs = bs\<lparr>bs_isRunning := False\<rparr> in if bs_stream bs then bs\<lparr>bs_writes_done := True\<rparr> else bs)"

lemma SetUsage_frame [simp]:
  "bs_machine_id (SetUsage u bs) = bs_machine_id bs" "bs_stream (SetUsage u bs) = bs_stream bs"
  "bs_isRunning (SetUsage u bs) = bs_isRunning bs" "bs_isConnected (SetUsage u bs) = bs_isConnected bs"
  by (simp_all add: SetUsage_def)

lemma SetUsage_written: "bs_stream bs \<Longrightarrow> bs_written (SetUsage u bs) = bs_written bs @ [ucast u]"
  by (simp add: SetUsage_def)

end
