(* ===== verification/BattleServer.thy ===== *)
theory BattleServer
  imports MatchServer Game BattleService
begin

text \<open>
  The battle server, \<open>battle/MyBattle.cpp\<close>: it is given pairs of players, accepts them by the cookie of
  their session, plays a round whenever the timer of their game expires, and sends them back to the
  match server with the result.

  \<open>GameInfo\<close> objects are numbered like their timers; a \<open>shared_ptr\<close> to one is a number, or \<open>None\<close> when it
  is null. \<open>Expected\<close> gives a default value when its \<open>operator->\<close> is used after a failure: the side 0, the
  account 0, the null pointer. The handlers of sockets and timers are atomic.
\<close>

section \<open>State\<close>

record game_info =
  gi_game :: game
  gi_timer :: timer
  gi_session :: "(Account_ID_t, int, nat option) demap"
  gi_PlayerInfos :: "byte_queue list"
  gi_Previous_AllIn :: bool

datatype battle_recv = Battle_Authenticate | Battle_Client Account_ID_t int nat

datatype battle_timer =
    Battle_Close
  | Battle_SessionProcess Account_ID_t Hash_t
  | Battle_Session Account_ID_t Hash_t

record ('r, 'd) battle = "(battle_timer, battle_recv, 'r, 'd) server" +
  bt_Round_Time :: int
  bt_Dis_Time :: int
  bt_StartAnim_Time :: int
  bt_self_keyword :: string
  bt_service :: battle_service
  bt_sessions :: "(Account_ID_t, Hash_t, nat option) demap"
  bt_gamepool :: timer_pool
  bt_games :: "nat \<Rightarrow> game_info option"

section \<open>The state of a game\<close>

definition GameInfo :: game_info where
  "GameInfo = \<lparr>gi_game = MyGame, gi_timer = \<lparr>tm_wait = Idle, tm_expires = 0\<rparr>, gi_session = dm_empty,
     gi_PlayerInfos = [bq_new True, bq_new True], gi_Previous_AllIn = False\<rparr>"

definition gi_players :: "game_info \<Rightarrow> (Account_ID_t \<times> int \<times> nat option) list \<times> game_info" where
  "gi_players gi = (let (all, dm) = GetAll 0 (gi_session gi) in (all, gi\<lparr>gi_session := dm\<rparr>))"

definition isAllIn :: "('cb, 'h, 'r, 'd, 'x) server_scheme \<Rightarrow> game_info \<Rightarrow> bool \<times> game_info" where
  "isAllIn w gi =
     (let (allPlayer, gi) = gi_players gi
      in (list_all (\<lambda>(_, _, weak). case lock weak w of None \<Rightarrow> False | Some c \<Rightarrow> is_open c w) allPlayer, gi))"

definition gi_Enter :: "Account_ID_t \<Rightarrow> nat \<Rightarrow> game_info \<Rightarrow> nat option option \<times> game_info" where
  "gi_Enter i socket gi =
     (let (found, dm) = FindLKey None i (gi_session gi);
          origin = (case found of None \<Rightarrow> None | Some (_, weak) \<Rightarrow> weak);
          (ok, dm) = InsertLKeyValue i (Some socket) dm
      in if \<not> ok then (None, gi\<lparr>gi_session := dm\<rparr>)
         else (Some origin, gi\<lparr>gi_session := dm, gi_timer := tm_cancel (gi_timer gi)\<rparr>))"

definition gi_Exit :: "('cb, 'h, 'r, 'd, 'x) server_scheme \<Rightarrow> Account_ID_t \<Rightarrow> nat \<Rightarrow> game_info \<Rightarrow> game_info" where
  "gi_Exit w i socket gi =
     (let (sess, dm) = FindLKey None i (gi_session gi);
          gi = gi\<lparr>gi_session := dm\<rparr>
      in case sess of
           None \<Rightarrow> gi
         | Some (_, weak) \<Rightarrow>
             if lock weak w = Some socket
             then gi\<lparr>gi_session := snd (InsertLKeyValue i None dm), gi_timer := tm_cancel (gi_timer gi)\<rparr>
             else gi)"

text \<open>The account and the weak pointer of a side, and the side of an account.\<close>

definition gi_of_side :: "int \<Rightarrow> game_info \<Rightarrow> (Account_ID_t \<times> nat option) \<times> game_info" where
  "gi_of_side side gi =
     (let (found, dm) = FindRKey None side (gi_session gi)
      in (case found of None \<Rightarrow> (0, None) | Some p \<Rightarrow> p, gi\<lparr>gi_session := dm\<rparr>))"

definition gi_side :: "Account_ID_t \<Rightarrow> game_info \<Rightarrow> int \<times> game_info" where
  "gi_side i gi =
     (let (found, dm) = FindLKey None i (gi_session gi)
      in (case found of None \<Rightarrow> 0 | Some (side, _) \<Rightarrow> side, gi\<lparr>gi_session := dm\<rparr>))"

section \<open>Actions\<close>

definition upd_game :: "nat \<Rightarrow> (game_info \<Rightarrow> game_info) \<Rightarrow> ('r, 'd) battle \<Rightarrow> ('r, 'd) battle" where
  "upd_game g f w = w\<lparr>bt_games := (bt_games w)(g := map_option f (bt_games w g))\<rparr>"

definition on_game ::
  "nat \<Rightarrow> (('r, 'd) battle \<Rightarrow> game_info \<Rightarrow> 'a result \<times> game_info) \<Rightarrow> (('r, 'd) battle, 'a) db" where
  "on_game g f w = (case bt_games w g of
       None \<Rightarrow> (Inl (Std (Undefined ''null game pointer'')), w)
     | Some gi \<Rightarrow>
         (let (r, gi) = f w gi
          in (map_sum Std id r, w\<lparr>bt_games := (bt_games w)(g \<mapsto> gi)\<rparr>)))"

text \<open>An operation of the game object that does not throw.\<close>

definition in_game :: "nat \<Rightarrow> (game_info \<Rightarrow> 'a \<times> game_info) \<Rightarrow> (('r, 'd) battle, 'a) db" where
  "in_game g f = on_game g (\<lambda>_ gi. let (x, gi) = f gi in (Inr x, gi))"

definition game_ptr :: "nat option \<Rightarrow> (('r, 'd) battle, nat) db" where
  "game_ptr p = (case p of
       None \<Rightarrow> db_throw (Std (Undefined ''null game pointer''))
     | Some g \<Rightarrow> db_return g)"

definition bt_on_sessions ::
  "((Account_ID_t, Hash_t, nat option) demap \<Rightarrow> 'a \<times> (Account_ID_t, Hash_t, nat option) demap) \<Rightarrow> (('r, 'd) battle, 'a) db" where
  "bt_on_sessions f w = (let (x, dm) = f (bt_sessions w) in (Inr x, w\<lparr>bt_sessions := dm\<rparr>))"

text \<open>\<open>ptr->Send\<close> through a \<open>shared_ptr\<close>, guarded by a test for the null pointer, and without one.\<close>

definition send_if :: "nat option \<Rightarrow> byte_queue \<Rightarrow> (('cb, 'h, 'r, 'd, 'x) server_scheme, unit) db" where
  "send_if p q = (case p of None \<Rightarrow> db_return () | Some c \<Rightarrow> c_Send c q)"

definition send_to :: "nat option \<Rightarrow> byte_queue \<Rightarrow> (('cb, 'h, 'r, 'd, 'x) server_scheme, unit) db" where
  "send_to p q = (case p of
       None \<Rightarrow> db_throw (Std (Undefined ''null socket pointer''))
     | Some c \<Rightarrow> c_Send c q)"

definition battle_expires :: "nat \<Rightarrow> (('r, 'd) battle \<Rightarrow> int) \<Rightarrow> (('r, 'd) battle, unit) db" where
  "battle_expires g ms =
     modify (\<lambda>w. upd_game g (\<lambda>gi. gi\<lparr>gi_timer := tm_expires_after (ms w) (gi_timer gi)\<rparr>) w)"

text \<open>\<open>GameProcess\<close> up to the call of \<open>async_wait\<close>; its handler is \<open>battle_game_handler\<close>.\<close>

definition GameProcess :: "nat \<Rightarrow> (('r, 'd) battle, unit) db" where
  "GameProcess g =
     modify (\<lambda>w. if \<not> TimerPool_is_open (bt_gamepool w) then w
                 else upd_game g (\<lambda>gi. gi\<lparr>gi_timer := tm_async_wait (gi_timer gi)\<rparr>) w)"

section \<open>Clients\<close>

definition battle_logout :: "nat \<Rightarrow> Account_ID_t \<Rightarrow> (('r, 'd) battle, unit) db" where
  "battle_logout c account_id =
     db_bind (bt_on_sessions (FindLKey None account_id)) (\<lambda>session.
       acts
         [case session of
            None \<Rightarrow> db_return ()
          | Some (_, p) \<Rightarrow>
              db_bind (game_ptr p) (\<lambda>g. on_game g (\<lambda>w gi. (Inr (), gi_Exit w account_id c gi))),
          c_Close c])"

definition battle_action :: "nat \<Rightarrow> int \<Rightarrow> 32 word \<Rightarrow> (('r, 'd) battle, unit) db" where
  "battle_action g side act =
     on_game g (\<lambda>_ gi. case Action side act (gi_game gi) of
         Inl e \<Rightarrow> (Inl e, gi)
       | Inr game \<Rightarrow> (Inr (), gi\<lparr>gi_game := game\<rparr>))"

definition battle_packet :: "nat \<Rightarrow> int \<Rightarrow> nat \<Rightarrow> byte \<Rightarrow> byte_queue \<Rightarrow> (('r, 'd) battle, unit) db" where
  "battle_packet c side g header packet =
     (if header = ANS_HEARTBEAT then c_FillTTL c SESSION_TTL
      else if header = REQ_GAME_ACTION then
        db_catch (db_bind (db_lift (pop_int packet)) (\<lambda>(act, packet). battle_action g side act))
          (\<lambda>_. c_Send c (code ERR_PROTOCOL_VIOLATION))
      else c_Send c (code ERR_PROTOCOL_VIOLATION))"

text \<open>The header is read outside every \<open>try\<close>.\<close>

definition battle_handler ::
  "nat \<Rightarrow> Account_ID_t \<Rightarrow> int \<Rightarrow> nat \<Rightarrow> byte_queue \<Rightarrow> error_code \<Rightarrow> (('r, 'd) battle, unit) db \<Rightarrow> (('r, 'd) battle, unit) db" where
  "battle_handler c account_id side g packet recv_ec again =
     (if \<not> ec_isSuccessed recv_ec then battle_logout c account_id
      else
        db_bind (db_lift (pop_byte packet)) (\<lambda>(header, packet).
          acts [battle_packet c side g header packet, again]))"

primrec battle_ClientProcess ::
  "nat \<Rightarrow> Account_ID_t \<Rightarrow> int \<Rightarrow> nat \<Rightarrow> byte list list \<Rightarrow> (('r, 'd) battle, unit) db" where
  "battle_ClientProcess c account_id side g [] = c_StartRecv c (Battle_Client account_id side g) None"
| "battle_ClientProcess c account_id side g (m # ms) =
     c_StartRecv c (Battle_Client account_id side g)
       (Some (battle_handler c account_id side g (bq_of_vector True m) (ErrorCode_custom SUCCESS)
         (battle_ClientProcess c account_id side g ms)))"

definition battle_SessionProcess :: "nat \<Rightarrow> Account_ID_t \<Rightarrow> Hash_t \<Rightarrow> (('r, 'd) battle, unit) db" where
  "battle_SessionProcess c account_id cookie = c_SetTimeout c (Battle_Session account_id cookie)"

definition battle_session_timer :: "('r, 'd) env \<Rightarrow> nat \<Rightarrow> Account_ID_t \<Rightarrow> Hash_t \<Rightarrow> (('r, 'd) battle, unit) db" where
  "battle_session_timer E c account_id cookie =
     db_bind (gets (is_open c)) (\<lambda>opened.
       if \<not> opened then db_return ()
       else
         db_bind (gets bt_self_keyword) (\<lambda>self.
         db_bind (on_redis (RefreshInfo (en_srv E) account_id cookie self)) (\<lambda>refreshed.
           if \<not> refreshed then c_Close c
           else
             db_bind (c_CountTTL c) (\<lambda>alive.
               if alive then acts [c_Send c (code ANS_HEARTBEAT), battle_SessionProcess c account_id cookie]
               else c_Close c))))"

section \<open>Accepting a client\<close>

definition battle_reject :: "nat \<Rightarrow> (('r, 'd) battle, unit) db" where
  "battle_reject c = acts [c_Send c (code ERR_NO_MATCH_ACCOUNT), c_Close c]"

text \<open>A session that has no game here is given to the match server.\<close>

definition battle_send_back :: "('r, 'd) env \<Rightarrow> nat \<Rightarrow> Account_ID_t \<Rightarrow> Hash_t \<Rightarrow> (('r, 'd) battle, unit) db" where
  "battle_send_back E c account_id cookie =
     acts
       [c_Send c (code ERR_NO_MATCH_ACCOUNT),
        drop_result (on_redis (SetInfo (en_srv E) account_id cookie keyword_match)),
        c_Close c]"

definition battle_dup :: "nat option \<Rightarrow> (('r, 'd) battle, unit) db" where
  "battle_dup origin =
     db_bind (gets (lock origin)) (\<lambda>origin_ptr. case origin_ptr of
         None \<Rightarrow> db_return ()
       | Some ptr \<Rightarrow> acts [c_Send ptr (code ERR_DUPLICATED_ACCESS), c_Close ptr])"

text \<open>An array of one entry per side is only defined for the two sides.\<close>

definition of_side :: "'a list \<Rightarrow> int \<Rightarrow> ('a \<times> 'a) result" where
  "of_side xs side =
     (if 0 \<le> side \<and> side < int MAX_PLAYER \<and> length xs = MAX_PLAYER
      then Inr (xs ! nat side, xs ! nat (int MAX_PLAYER - (side + 1)))
      else Inl (Undefined ''array index''))"

definition battle_welcome :: "nat \<Rightarrow> nat \<Rightarrow> int \<Rightarrow> (('r, 'd) battle, unit) db" where
  "battle_welcome c g side =
     db_bind (on_game g (\<lambda>_ gi. (of_side (gi_PlayerInfos gi) side, gi))) (\<lambda>(mine, other).
       c_Send c (bq_append (code GAME_PLAYER_INFO_NAME) (bq_add mine other)))"

definition battle_enter ::
  "('r, 'd) env \<Rightarrow> nat \<Rightarrow> Account_ID_t \<Rightarrow> Hash_t \<Rightarrow> nat \<Rightarrow> byte list list \<Rightarrow> (('r, 'd) battle, unit) db" where
  "battle_enter E c account_id cookie g ms =
     db_bind (in_game g (gi_side account_id)) (\<lambda>side.
     db_bind (in_game g (gi_Enter account_id c)) (\<lambda>origin. case origin of
         None \<Rightarrow>
           acts [drop_result (bt_on_sessions (EraseLKey None account_id)), battle_send_back E c account_id cookie]
       | Some weak \<Rightarrow>
           acts
             [battle_dup weak,
              battle_welcome c g side,
              c_FillTTL c SESSION_TTL,
              battle_ClientProcess c account_id side g ms,
              c_SetTimeout c (Battle_SessionProcess account_id cookie)]))"

definition battle_AuthenticateProcess ::
  "('r, 'd) env \<Rightarrow> nat \<Rightarrow> byte_queue \<Rightarrow> error_code \<Rightarrow> byte list list \<Rightarrow> (('r, 'd) battle, unit) db" where
  "battle_AuthenticateProcess E c packet ec ms =
     db_bind (c_CancelTimeout c) (\<lambda>_.
       if \<not> ec_isSuccessed ec then c_Close c
       else
         db_bind (db_lift (pop_hash packet)) (\<lambda>(cookie, packet).
         db_bind (on_redis_throw (GetInfoFromCookie (en_srv E) cookie)) (\<lambda>info. case info of
             Inl _ \<Rightarrow> battle_reject c
           | Inr (account_id, server) \<Rightarrow>
               db_bind (gets bt_self_keyword) (\<lambda>self.
                 if server \<noteq> self then battle_reject c
                 else
                   db_bind (bt_on_sessions (FindRKey None cookie)) (\<lambda>session. case session of
                       None \<Rightarrow> battle_send_back E c account_id cookie
                     | Some (_, p) \<Rightarrow>
                         db_bind (game_ptr p) (\<lambda>g. battle_enter E c account_id cookie g ms))))))"

definition battle_AcceptProcess :: "('r, 'd) env \<Rightarrow> nat \<Rightarrow> error_code \<Rightarrow> byte list list \<Rightarrow> (('r, 'd) battle, unit) db" where
  "battle_AcceptProcess E c ec ms =
     (if \<not> ec_isSuccessed ec then c_Close c
      else
        acts
          [c_StartRecv c Battle_Authenticate (case ms of
               [] \<Rightarrow> None
             | m # ms \<Rightarrow> Some (battle_AuthenticateProcess E c (bq_of_vector True m) (ErrorCode_custom SUCCESS) ms)),
           c_SetTimeout c Battle_Close])"

definition battle_received ::
  "('r, 'd) env \<Rightarrow> nat \<Rightarrow> battle_recv \<Rightarrow> error_code option \<Rightarrow> byte list list \<Rightarrow> (('r, 'd) battle, unit) db" where
  "battle_received E c h err ms =
     acts
       [modify (upd_client c (\<lambda>s. s\<lparr>cl_handler := None\<rparr>)),
        case err of
          Some ec \<Rightarrow>
            acts [case h of Battle_Authenticate \<Rightarrow> battle_AuthenticateProcess E c (bq_new True) ec []
                          | Battle_Client i side g \<Rightarrow> battle_handler c i side g (bq_new True) ec (db_return ()),
                  c_Close c]
        | None \<Rightarrow>
            (case ms of
               [] \<Rightarrow> c_StartRecv c h None
             | m # ms \<Rightarrow>
                 (case h of
                    Battle_Authenticate \<Rightarrow>
                      battle_AuthenticateProcess E c (bq_of_vector True m) (ErrorCode_custom SUCCESS) ms
                  | Battle_Client i side g \<Rightarrow>
                      battle_handler c i side g (bq_of_vector True m) (ErrorCode_custom SUCCESS)
                        (battle_ClientProcess c i side g ms)))]"

definition battle_timer_fires :: "('r, 'd) env \<Rightarrow> nat \<Rightarrow> battle_timer \<Rightarrow> (('r, 'd) battle, unit) db" where
  "battle_timer_fires E c t =
     acts
       [modify (upd_client c (\<lambda>s. s\<lparr>sk_timer := None\<rparr>)),
        case t of
          Battle_Close \<Rightarrow> c_Close c
        | Battle_SessionProcess i cookie \<Rightarrow> battle_SessionProcess c i cookie
        | Battle_Session i cookie \<Rightarrow> battle_session_timer E c i cookie]"

end
