(* ===== verification/BattleGame.thy ===== *)
theory BattleGame
  imports BattleServer
begin

text \<open>
  The games of the battle server, \<open>battle/MyBattle.cpp\<close> from \<open>GameProcess\<close> on: the handler of the timer of a game, its
  rounds, its end, and the creation of a game for a pair of players that the match server sends.
\<close>

definition gi_process :: "game_info \<Rightarrow> bool \<times> game_info" where
  "gi_process gi = (let (isGameOver, gm) = process (gi_game gi) in (isGameOver, gi\<lparr>gi_game := gm\<rparr>))"

definition gi_GetAchievement :: "game_info \<Rightarrow> (int \<times> Achievement_ID_t \<times> int) option \<times> game_info" where
  "gi_GetAchievement gi = (let (a, gm) = GetAchievement (gi_game gi) in (a, gi\<lparr>gi_game := gm\<rparr>))"

section \<open>Messages to the players\<close>

definition battle_broadcast :: "nat \<Rightarrow> byte_queue \<Rightarrow> (('r, 'd) battle, unit) db" where
  "battle_broadcast g q =
     db_bind (in_game g gi_players) (\<lambda>players.
       acts (map (\<lambda>(_, _, weak). db_bind (gets (lock weak)) (\<lambda>ptr. send_if ptr q)) players))"

definition round_results :: "game \<Rightarrow> byte_queue list" where
  "round_results gm =
     map (\<lambda>i. if GetRound gm \<ge> 0
              then (case GetPlayerInfo (int i) gm of (act, hp, en) \<Rightarrow>
                      push_int en (push_int hp (push_word act (bq_new True))))
              else bq_new True) [0..<MAX_PLAYER]"

definition send_round :: "byte \<Rightarrow> game \<Rightarrow> Account_ID_t \<times> int \<times> nat option \<Rightarrow> (('r, 'd) battle, unit) db" where
  "send_round msg gm p = (case p of (_, side, weak) \<Rightarrow>
     db_bind (gets (lock weak)) (\<lambda>ptr. case ptr of
         None \<Rightarrow> db_return ()
       | Some c \<Rightarrow>
           db_bind (db_lift (of_side (round_results gm) side)) (\<lambda>(mine, other).
             c_Send c (bq_add (bq_add (push_int (GetRound gm) (code msg)) mine) other))))"

definition SendRoundResult :: "byte \<Rightarrow> nat \<Rightarrow> (('r, 'd) battle, unit) db" where
  "SendRoundResult msg g =
     db_bind (in_game g (\<lambda>gi. (gi_game gi, gi))) (\<lambda>gm.
     db_bind (in_game g gi_players) (\<lambda>players. acts (map (send_round msg gm) players)))"

section \<open>Achievements\<close>

definition counts_most :: "Achievement_ID_t \<Rightarrow> bool" where
  "counts_most a \<longleftrightarrow>
     a \<in> {ACHIEVE_MEDITATE_ADDICTION, ACHIEVE_GUARD_ADDICTION, ACHIEVE_EVADE_ADDICTION, ACHIEVE_PUNCH_ADDICTION}"

definition counts_each :: "Achievement_ID_t \<Rightarrow> bool" where
  "counts_each a \<longleftrightarrow>
     a \<in> {ACHIEVE_FIRE_ADDICTION, ACHIEVE_NEWBIE, ACHIEVE_NOIVE, ACHIEVE_CHALLENGER, ACHIEVE_DOMINATOR, ACHIEVE_SLAYER,
          ACHIEVE_CONQUERER, ACHIEVE_KNEELINMYSIGHT, ACHIEVE_DOPPELGANGER, ACHIEVE_AREYAWINNINGSON}"

definition battle_AchieveProgress ::
  "('r, 'd) env \<Rightarrow> Account_ID_t \<Rightarrow> Achievement_ID_t \<Rightarrow> int \<Rightarrow> nat option \<Rightarrow> (('r, 'd) battle, unit) db" where
  "battle_AchieveProgress E i achieve cnt socket =
     db_catch
       (with_connection (en_sql E) (\<lambda>db.
          db_bind (require_db db (Pq Broken_connection)) (\<lambda>_.
          db_bind
            (if counts_most achieve then use_db db (db_AchieveProgress (en_sql E) i achieve cnt)
             else if counts_each achieve then use_db db (Achieve (en_sql E) i achieve)
             else db_return False)
            (\<lambda>isAchieved.
               db_bind (gets (\<lambda>w. case socket of None \<Rightarrow> False | Some c \<Rightarrow> is_open c w)) (\<lambda>opened.
                 if isAchieved \<and> opened then send_if socket (push_word achieve (code GAME_PLAYER_ACHIEVE))
                 else db_return ())))))
       (\<lambda>_. db_return ())"

text \<open>The account and the socket of a side.\<close>

definition battle_side :: "nat \<Rightarrow> int \<Rightarrow> (('r, 'd) battle, Account_ID_t \<times> nat option) db" where
  "battle_side g side =
     db_bind (in_game g (gi_of_side side)) (\<lambda>(i, weak).
     db_bind (gets (lock weak)) (\<lambda>socket. db_return (i, socket)))"

text \<open>The loop over the achievements of a round: \<open>n\<close> bounds the number of turns, one more than there are achievements.\<close>

primrec battle_achievements :: "('r, 'd) env \<Rightarrow> nat \<Rightarrow> nat \<Rightarrow> (('r, 'd) battle, unit) db" where
  "battle_achievements E g 0 = db_return ()"
| "battle_achievements E g (Suc n) =
     db_bind (in_game g gi_GetAchievement) (\<lambda>achievement.
       case achievement of
         None \<Rightarrow> db_return ()
       | Some (side, achieve, cnt) \<Rightarrow>
           db_bind (battle_side g side) (\<lambda>(i, socket).
             acts [battle_AchieveProgress E i achieve cnt socket, battle_achievements E g n]))"

section \<open>The end of a game\<close>

text \<open>The players as account and socket, in the order of their sides.\<close>

definition battle_archive ::
  "('r, 'd) env \<Rightarrow> int \<Rightarrow> bool \<Rightarrow> (Account_ID_t \<times> nat option) list \<Rightarrow> (('r, 'd) battle, unit) db" where
  "battle_archive E winner crashed ps =
     db_catch
       (with_connection (en_sql E) (\<lambda>db.
          db_bind (require_db db (Pq Broken_connection)) (\<lambda>_.
            acts
              [if winner < 0 then use_db db (ArchiveBattle (en_sql E) (fst (ps ! 0)) (fst (ps ! 1)) True crashed)
               else use_db db (ArchiveBattle (en_sql E) (fst (ps ! nat winner)) (fst (ps ! nat (1 - winner))) False crashed),
               use_db db (exec (sql_commit (en_sql E)))])))
       (\<lambda>e. db_bind (acts (map (\<lambda>(_, socket). send_to socket (code ERR_DB_FAILED)) ps)) (\<lambda>_. db_throw e))"

definition gameresult :: "int \<Rightarrow> bool \<Rightarrow> int \<Rightarrow> byte" where
  "gameresult winner crashed side =
     (if crashed \<and> winner < 0 then GAME_CRASHED
      else if winner < 0 then GAME_FINISHED_DRAW
      else if winner = side then GAME_FINISHED_WIN
      else GAME_FINISHED_LOOSE)"

definition battle_leave ::
  "('r, 'd) env \<Rightarrow> byte \<Rightarrow> Account_ID_t \<times> nat option \<Rightarrow> (('r, 'd) battle, unit) db" where
  "battle_leave E res p =
     db_bind (bt_on_sessions (EraseLKey None (fst p))) (\<lambda>erase_result. case erase_result of
         None \<Rightarrow> db_return ()
       | Some (i, cookie, _) \<Rightarrow>
           db_bind (gets (\<lambda>w. case snd p of None \<Rightarrow> None | Some c \<Rightarrow> if is_open c w then Some c else None)) (\<lambda>socket.
             case socket of
               None \<Rightarrow>
                 db_bind (gets bt_self_keyword) (\<lambda>self. drop_result (on_redis (ClearInfo (en_srv E) i cookie self)))
             | Some c \<Rightarrow>
                 acts
                   [drop_result (on_redis (SetInfo (en_srv E) i cookie keyword_match)),
                    c_Send c (code res),
                    c_Close c]))"

definition battle_conclude ::
  "('r, 'd) env \<Rightarrow> int \<Rightarrow> bool \<Rightarrow> (Account_ID_t \<times> nat option) list \<Rightarrow> (('r, 'd) battle, unit) db" where
  "battle_conclude E winner crashed ps =
     acts
       [if winner < 0 \<and> \<not> crashed
        then acts (map (\<lambda>(i, socket). battle_AchieveProgress E i ACHIEVE_AREYAWINNINGSON 1 socket) ps)
        else db_return (),
        battle_archive E winner crashed ps,
        if winner < 0 then db_return ()
        else acts (map (\<lambda>a. battle_AchieveProgress E (fst (ps ! nat winner)) a 1 (snd (ps ! nat winner)))
               [ACHIEVE_NOIVE, ACHIEVE_CHALLENGER, ACHIEVE_DOMINATOR, ACHIEVE_SLAYER, ACHIEVE_CONQUERER]),
        battle_leave E (gameresult winner crashed 0) (ps ! 0),
        battle_leave E (gameresult winner crashed 1) (ps ! 1)]"

text \<open>An exception of another type becomes a \<open>StackTraceExcept\<close> with its text, which is left out.\<close>

definition traced :: "db_exn \<Rightarrow> db_exn" where
  "traced e = (case e of Std (StackTraceExcept msg) \<Rightarrow> e | _ \<Rightarrow> Std (StackTraceExcept ''what''))"

text \<open>
  From the second \<open>try\<close> of the handler on. The two accounts and sockets are read at its start, which cannot
  throw. Whatever happens in it, the timer is released and the sessions are erased.
\<close>

definition battle_over :: "('r, 'd) env \<Rightarrow> nat \<Rightarrow> bool \<Rightarrow> (('r, 'd) battle, unit) db" where
  "battle_over E g now_allin =
     db_bind (battle_side g 0) (\<lambda>p.
     db_bind (battle_side g 1) (\<lambda>q.
     db_bind
       (db_catch
         (db_bind (in_game g (\<lambda>gi. (GetWinner (gi_game gi), gi))) (\<lambda>winner.
          db_bind (battle_conclude E winner (\<not> now_allin) [p, q]) (\<lambda>_. db_return None)))
         (\<lambda>e. db_return (Some (traced e))))
       (\<lambda>eptr.
          acts
            [modify (\<lambda>w. w\<lparr>bt_gamepool := ReleaseTimer g (bt_gamepool w)\<rparr>),
             drop_result (bt_on_sessions (EraseLKey None (fst p))),
             drop_result (bt_on_sessions (EraseLKey None (fst q))),
             case eptr of None \<Rightarrow> db_return () | Some e \<Rightarrow> db_throw e])))"

section \<open>The handler of the timer\<close>

definition battle_allin :: "nat \<Rightarrow> (('r, 'd) battle, bool \<times> bool) db" where
  "battle_allin g =
     on_game g (\<lambda>w gi.
       let (now_allin, gi') = isAllIn w gi
       in (Inr (gi_Previous_AllIn gi, now_allin), gi'\<lparr>gi_Previous_AllIn := now_allin\<rparr>))"

text \<open>The wait was cancelled: a player has come or gone.\<close>

definition battle_connection :: "nat \<Rightarrow> bool \<Rightarrow> bool \<Rightarrow> (('r, 'd) battle, unit) db" where
  "battle_connection g prev_allin now_allin =
     acts
       [if now_allin then acts [SendRoundResult GAME_PLAYER_ALL_CONNECTED g, battle_expires g bt_StartAnim_Time]
        else if prev_allin then acts [battle_broadcast g (code GAME_PLAYER_DISCONNEDTED), battle_expires g bt_Dis_Time]
        else db_return (),
        GameProcess g]"

definition battle_round :: "('r, 'd) env \<Rightarrow> nat \<Rightarrow> (('r, 'd) battle, bool) db" where
  "battle_round E g =
     db_bind (in_game g gi_process) (\<lambda>isGameOver.
     db_bind (SendRoundResult GAME_ROUND_RESULT g) (\<lambda>_.
     db_bind (in_game g (\<lambda>gi. (length (Achievements (gi_game gi)), gi))) (\<lambda>n.
     db_bind (battle_achievements E g (Suc n)) (\<lambda>_. db_return isGameOver))))"

definition battle_game_handler :: "('r, 'd) env \<Rightarrow> nat \<Rightarrow> bool \<Rightarrow> (('r, 'd) battle, unit) db" where
  "battle_game_handler E g failed =
     db_bind (battle_allin g) (\<lambda>(prev_allin, now_allin).
       if failed then battle_connection g prev_allin now_allin
       else
         db_bind (if now_allin then battle_round E g else db_return True) (\<lambda>isGameOver.
           if \<not> isGameOver then acts [battle_expires g bt_Round_Time, GameProcess g]
           else battle_over E g now_allin))"

text \<open>The wait of the timer of a game ends, because its time is over or because it was cancelled.\<close>

definition battle_wait_ends :: "('r, 'd) env \<Rightarrow> nat \<Rightarrow> bool \<Rightarrow> (('r, 'd) battle, unit) db" where
  "battle_wait_ends E g failed =
     acts
       [modify (upd_game g (\<lambda>gi. gi\<lparr>gi_timer := (gi_timer gi)\<lparr>tm_wait := Idle\<rparr>\<rparr>)),
        timer_thread (battle_game_handler E g failed)]"

section \<open>A new game\<close>

definition battle_report :: "64 word \<Rightarrow> (('r, 'd) battle, unit) db" where
  "battle_report n =
     modify (\<lambda>w. w\<lparr>bt_service := SetUsage (of_nat (dm_Size (bt_sessions w))) (SetUsage n (bt_service w))\<rparr>)"

definition battle_infos ::
  "('r, 'd) env \<Rightarrow> Account_ID_t \<Rightarrow> Account_ID_t \<Rightarrow> (('r, 'd) battle, byte_queue list option) db" where
  "battle_infos E lpid rpid =
     db_catch
       (with_connection (en_sql E) (\<lambda>db.
          db_bind (require_db db (Pq Broken_connection)) (\<lambda>_.
          db_bind (use_db db (GetInfo (en_sql E) lpid)) (\<lambda>linfo.
          db_bind (use_db db (GetInfo (en_sql E) rpid)) (\<lambda>rinfo.
            db_return (Some [player_info linfo (bq_new True), player_info rinfo (bq_new True)]))))))
       (\<lambda>_. db_return None)"

definition new_game :: "Account_ID_t \<Rightarrow> Account_ID_t \<Rightarrow> byte_queue list \<Rightarrow> game_info" where
  "new_game lpid rpid infos =
     GameInfo\<lparr>gi_session := snd (Insert rpid 1 None (snd (Insert lpid 0 None dm_empty))), gi_PlayerInfos := infos\<rparr>"

definition battle_create ::
  "('r, 'd) env \<Rightarrow> nat \<Rightarrow> Account_ID_t \<times> Hash_t \<Rightarrow> Account_ID_t \<times> Hash_t \<Rightarrow> (('r, 'd) battle, unit) db" where
  "battle_create E g lp rp =
     db_bind (battle_infos E (fst lp) (fst rp)) (\<lambda>infos. case infos of
         None \<Rightarrow> acts [modify (\<lambda>w. w\<lparr>bt_gamepool := ReleaseTimer g (bt_gamepool w)\<rparr>), battle_report 0]
       | Some infos \<Rightarrow>
           acts
             [modify (\<lambda>w. w\<lparr>bt_games := (bt_games w)(g \<mapsto> new_game (fst lp) (fst rp) infos)\<rparr>),
              drop_result (bt_on_sessions (Insert (fst lp) (snd lp) (Some g))),
              drop_result (bt_on_sessions (Insert (fst rp) (snd rp) (Some g))),
              battle_expires g bt_Dis_Time,
              GameProcess g,
              battle_report 1])"

text \<open>The timer is there; the cookies of the two players are looked up.\<close>

definition battle_prepare :: "('r, 'd) env \<Rightarrow> nat \<Rightarrow> Account_ID_t \<Rightarrow> Account_ID_t \<Rightarrow> (('r, 'd) battle, unit) db" where
  "battle_prepare E g lpid rpid =
     db_bind (on_redis_throw (GetInfoFromID (en_srv E) lpid)) (\<lambda>lpresult.
     db_bind (on_redis_throw (GetInfoFromID (en_srv E) rpid)) (\<lambda>rpresult.
       case (lpresult, rpresult) of
         (Inr (lcookie, _), Inr (rcookie, _)) \<Rightarrow> battle_create E g (lpid, lcookie) (rpid, rcookie)
       | _ \<Rightarrow> battle_report 1))"

text \<open>\<open>g\<close> is the pointer of the new timer, and the number of the new game.\<close>

definition MatchTransfer :: "('r, 'd) env \<Rightarrow> nat \<Rightarrow> Account_ID_t \<Rightarrow> Account_ID_t \<Rightarrow> (('r, 'd) battle, unit) db" where
  "MatchTransfer E g lpid rpid w =
     (if lpid \<le> 0 \<or> rpid \<le> 0 then battle_report 0 w
      else
        (let (timer, tp) = GetTimer g (bt_gamepool w);
             w = w\<lparr>bt_gamepool := tp\<rparr>
         in case timer of
              None \<Rightarrow> battle_report 1 w
            | Some t \<Rightarrow> battle_prepare E t lpid rpid w))"

section \<open>Usage and closing\<close>

definition battle_Close :: "('r, 'd) battle \<Rightarrow> ('r, 'd) battle" where
  "battle_Close w =
     (let (ts, tp) = TimerPool_Stop (bt_gamepool w);
          w = fold (\<lambda>g. upd_game g (\<lambda>gi. gi\<lparr>gi_timer := tm_cancel (gi_timer gi)\<rparr>)) ts w
      in w\<lparr>bt_gamepool := tp, bt_service := bs_Close (bt_service w)\<rparr>)"

definition battle_GetUsage :: "('r, 'd) battle \<Rightarrow> nat" where
  "battle_GetUsage w = TimerPool_Size (bt_gamepool w)"

definition battle_CheckAccount :: "Account_ID_t \<Rightarrow> (('r, 'd) battle, bool) db" where
  "battle_CheckAccount i = db_bind (bt_on_sessions (FindLKey None i)) (\<lambda>r. db_return (r \<noteq> None))"

definition battle_GetConnectUsage :: "('r, 'd) battle \<Rightarrow> (string, nat) smap" where
  "battle_GetConnectUsage w = smap_insert ''match'' (if bs_is_open (bt_service w) then 1 else 0) (server_ConnectUsage w)"

text \<open>The constructor, from the values of the configuration, with the parts of the base class given.\<close>

definition MyBattle ::
  "int \<Rightarrow> int \<Rightarrow> int \<Rightarrow> int \<Rightarrow> (battle_timer, battle_recv, 'r, 'd) server \<Rightarrow> ('r, 'd) battle" where
  "MyBattle machine_id round_time dis_time anim_time base =
     server.extend base
       (battle.fields round_time dis_time (anim_time + round_time) (battle_name machine_id)
          (BattleServiceClient machine_id) dm_empty TimerPool (\<lambda>_. None))"

end
