(* ===== verification/BattleInvariant.thy ===== *)
theory BattleInvariant
  imports BattleGame
begin

text \<open>
  No session of the battle server is left behind: each belongs to a game in which its account plays and whose timer
  has a wait pending, whose handler erases the session when the game ends.
\<close>

section \<open>The invariant\<close>

definition plays :: "Account_ID_t \<Rightarrow> game_info \<Rightarrow> bool" where
  "plays i gi \<longleftrightarrow> smap_find i (lrm (gi_session gi)) \<noteq> None"

definition game_ok :: "game_info \<Rightarrow> bool" where
  "game_ok gi \<longleftrightarrow> wf_game (gi_game gi) \<and> dm_wf (gi_session gi) \<and> length (gi_PlayerInfos gi) = MAX_PLAYER \<and>
     (\<forall>i side. smap_find i (lrm (gi_session gi)) = Some side \<longrightarrow> side = 0 \<or> side = 1)"

text \<open>The games of \<open>X\<close> are those whose handler is running.\<close>

definition driven :: "nat set \<Rightarrow> nat \<Rightarrow> game_info \<Rightarrow> timer_pool \<Rightarrow> bool" where
  "driven X g gi tp \<longleftrightarrow>
     (tp_isRunning tp \<longrightarrow> g \<in> set (tp_TimerSet tp) \<and> (g \<notin> X \<longrightarrow> tm_wait (gi_timer gi) \<noteq> Idle))"

definition held :: "nat set \<Rightarrow> ('r, 'd) battle \<Rightarrow> Account_ID_t \<Rightarrow> nat option \<Rightarrow> bool" where
  "held X w i p \<longleftrightarrow>
     (\<exists>g gi. p = Some g \<and> bt_games w g = Some gi \<and> plays i gi \<and> driven X g gi (bt_gamepool w))"

definition battle_inv :: "nat set \<Rightarrow> ('r, 'd) battle \<Rightarrow> bool" where
  "battle_inv X w \<longleftrightarrow> dm_wf (bt_sessions w) \<and> (\<forall>g gi. bt_games w g = Some gi \<longrightarrow> game_ok gi) \<and>
     (\<forall>i cookie p. (i, cookie, p) \<in> dm_rel (bt_sessions w) \<longrightarrow> held X w i p)"

lemma battle_invI:
  assumes "battle_inv X w" "dm_wf (bt_sessions w')" "dm_rel (bt_sessions w') \<subseteq> dm_rel (bt_sessions w)"
    and "\<And>g gi. bt_games w' g = Some gi \<Longrightarrow> game_ok gi"
    and "\<And>i cookie p. (i, cookie, p) \<in> dm_rel (bt_sessions w') \<Longrightarrow> held X w i p \<Longrightarrow> held Y w' i p"
  shows "battle_inv Y w'"
  using assms unfolding battle_inv_def by blast

lemma battle_inv_game: "battle_inv X w \<Longrightarrow> bt_games w g = Some gi \<Longrightarrow> game_ok gi"
  by (simp add: battle_inv_def)

lemma battle_inv_wf: "battle_inv X w \<Longrightarrow> dm_wf (bt_sessions w)"
  by (simp add: battle_inv_def)

interpretation battle: server_invariant "battle_inv X"
  by unfold_locales (simp_all add: battle_inv_def held_def)

text \<open>What no part of the end of a game touches.\<close>

interpretation games: server_invariant "\<lambda>w. bt_games w = gs \<and> bt_gamepool w = tp"
  by unfold_locales simp_all

section \<open>Operations on a game\<close>

definition game_step :: "game_info \<Rightarrow> game_info \<Rightarrow> bool" where
  "game_step gi gi' \<longleftrightarrow> game_ok gi' \<and> (\<forall>i. plays i gi \<longrightarrow> plays i gi') \<and>
     (tm_wait (gi_timer gi) \<noteq> Idle \<longrightarrow> tm_wait (gi_timer gi') \<noteq> Idle)"

lemma game_step_refl: "game_ok gi \<Longrightarrow> game_step gi gi"
  by (simp add: game_step_def)

lemma battle_inv_step:
  assumes "battle_inv X w" "bt_games w g = Some gi" "game_step gi gi'"
  shows "battle_inv X (w\<lparr>bt_games := (bt_games w)(g \<mapsto> gi')\<rparr>)"
proof (rule battle_invI [OF assms(1)])
  show "held X (w\<lparr>bt_games := (bt_games w)(g \<mapsto> gi')\<rparr>) i p" if "held X w i p" for i p
    using that assms(2,3) by (auto simp: held_def game_step_def driven_def)
qed (use assms in \<open>auto simp: battle_inv_def game_step_def split: if_splits\<close>)

lemma keeps_on_game:
  assumes "\<And>w gi. game_ok gi \<Longrightarrow> game_step gi (snd (f w gi))"
  shows "keeps (battle_inv X) (on_game g f)"
  unfolding keeps_def
proof (intro allI impI)
  fix w :: "('a, 'b) battle"
  assume "battle_inv X w"
  then show "battle_inv X (snd (on_game g f w))"
    using assms [of _ w] battle_inv_step [of X w g] battle_inv_game [of X w g]
    by (cases "bt_games w g") (auto simp: on_game_def case_prod_beta)
qed

lemma keeps_in_game: "(\<And>gi. game_ok gi \<Longrightarrow> game_step gi (snd (f gi))) \<Longrightarrow> keeps (battle_inv X) (in_game g f)"
  unfolding in_game_def by (rule keeps_on_game) (simp add: case_prod_beta)

lemma lrm_InsertLKeyValue [simp]: "lrm (snd (InsertLKeyValue i v dm)) = lrm dm"
  by (simp add: InsertLKeyValue_def)

lemma snd_GetAll: "dm_wf dm \<Longrightarrow> snd (GetAll d dm) = dm"
  by (simp add: GetAll_wf)

lemma step_players: "game_ok gi \<Longrightarrow> snd (gi_players gi) = gi"
  by (simp add: gi_players_def case_prod_beta snd_GetAll game_ok_def)

lemma step_of_side: "game_ok gi \<Longrightarrow> snd (gi_of_side side gi) = gi"
  by (simp add: gi_of_side_def case_prod_beta snd_FindRKey game_ok_def)

lemma step_side: "game_ok gi \<Longrightarrow> snd (gi_side i gi) = gi"
  by (simp add: gi_side_def case_prod_beta snd_FindLKey game_ok_def)

lemma tm_cancel_pending [simp]: "tm_wait (tm_cancel t) = Idle \<longleftrightarrow> tm_wait t = Idle"
  by (simp add: tm_cancel_def)

lemma step_Enter: "game_ok gi \<Longrightarrow> game_step gi (snd (gi_Enter i c gi))"
  by (simp add: gi_Enter_def case_prod_beta Let_def game_step_def game_ok_def snd_FindLKey plays_def wf_intros)

lemma step_Exit: "game_ok gi \<Longrightarrow> game_step gi (gi_Exit w i c gi)"
  by (auto simp: gi_Exit_def case_prod_beta Let_def game_step_def game_ok_def snd_FindLKey plays_def wf_intros
      split: option.splits)

lemma step_isAllIn: "game_ok gi \<Longrightarrow> snd (isAllIn w gi) = gi"
  by (simp add: isAllIn_def case_prod_beta Let_def step_players)

lemma wf_Action_any: "wf_game g \<Longrightarrow> Action side act g = Inr g' \<Longrightarrow> wf_game g'"
  by (cases "0 \<le> side \<and> side < int MAX_PLAYER")
    (use wf_Action [of g side act g'] in \<open>auto simp: Action_def wf_game_def split: if_splits option.splits\<close>)

lemma step_game: "game_ok gi \<Longrightarrow> wf_game gm \<Longrightarrow> game_step gi (gi\<lparr>gi_game := gm\<rparr>)"
  by (simp add: game_step_def game_ok_def plays_def)

lemma game_ok_timer [simp]: "game_ok (gi\<lparr>gi_timer := t\<rparr>) = game_ok gi"
  by (simp add: game_ok_def)

lemma game_ok_game: "game_ok gi \<Longrightarrow> wf_game (gi_game gi)"
  by (simp add: game_ok_def)

lemma step_allin: "game_ok gi \<Longrightarrow> game_step gi (gi\<lparr>gi_Previous_AllIn := b\<rparr>)"
  by (simp add: game_step_def game_ok_def plays_def)

lemma keeps_game_ops [keeps_intros]:
  "keeps (battle_inv X) (in_game g gi_players)" "keeps (battle_inv X) (in_game g (gi_of_side side))"
  "keeps (battle_inv X) (in_game g (gi_side i))" "keeps (battle_inv X) (in_game g (gi_Enter i c))"
  "keeps (battle_inv X) (on_game g (\<lambda>w gi. (Inr (), gi_Exit w i c gi)))" "keeps (battle_inv X) (battle_action g side act)"
  "keeps (battle_inv X) (battle_allin g)" "keeps (battle_inv X) (in_game g (\<lambda>gi. (h gi, gi)))"
  "keeps (battle_inv X) (on_game g (\<lambda>_ gi. (r gi, gi)))"
  unfolding battle_action_def battle_allin_def
  by (rule keeps_in_game keeps_on_game,
      auto intro!: step_game game_step_refl step_Enter step_Exit step_allin wf_Action_any [OF game_ok_game]
        simp: step_players step_of_side step_side step_isAllIn case_prod_beta split: sum.splits)+

lemma keeps_game_rules [keeps_intros]:
  "keeps (battle_inv X) (in_game g gi_process)" "keeps (battle_inv X) (in_game g gi_GetAchievement)"
  by (auto intro!: keeps_in_game step_game wf_GetAchievement wf_process game_ok_game
      simp: case_prod_beta gi_process_def gi_GetAchievement_def)

lemma keeps_upd_game:
  assumes "\<And>gi. game_ok gi \<Longrightarrow> game_step gi (f gi)" "battle_inv X w"
  shows "battle_inv X (upd_game g f w)"
proof (cases "bt_games w g")
  case None
  then have "(bt_games w)(g := None) = bt_games w" by auto
  then show ?thesis using assms(2) None by (simp add: upd_game_def)
next
  case (Some gi)
  then have "game_ok gi" using assms(2) battle_inv_game by blast
  then show ?thesis using battle_inv_step [OF assms(2) Some assms(1)] Some by (simp add: upd_game_def)
qed

lemma step_expires: "game_ok gi \<Longrightarrow> game_step gi (gi\<lparr>gi_timer := tm_expires_after ms (gi_timer gi)\<rparr>)"
  by (simp add: game_step_def game_ok_def plays_def tm_expires_after_def)

lemma step_async_wait: "game_ok gi \<Longrightarrow> game_step gi (gi\<lparr>gi_timer := tm_async_wait (gi_timer gi)\<rparr>)"
  by (simp add: game_step_def game_ok_def plays_def tm_async_wait_def)

lemma keeps_timers [keeps_intros]: "keeps (battle_inv X) (battle_expires g ms)" "keeps (battle_inv X) (GameProcess g)"
  unfolding battle_expires_def GameProcess_def
  by (auto intro!: keeps_modify keeps_upd_game step_expires step_async_wait)

lemma keeps_bt_sessions:
  assumes "\<And>dm. dm_wf dm \<Longrightarrow> dm_wf (snd (f dm)) \<and> dm_rel (snd (f dm)) \<subseteq> dm_rel dm"
  shows "keeps (battle_inv X) (bt_on_sessions f)"
  unfolding keeps_def
proof (intro allI impI)
  fix w :: "('b, 'c) battle"
  assume w: "battle_inv X w"
  then show "battle_inv X (snd (bt_on_sessions f w))"
    using assms [OF battle_inv_wf [OF w]] by (intro battle_invI [OF w]) (auto simp: bt_on_sessions_def case_prod_beta battle_inv_game held_def)
qed

lemma keeps_bt_session_ops [keeps_intros]:
  "keeps (battle_inv X) (bt_on_sessions (FindLKey d i))" "keeps (battle_inv X) (bt_on_sessions (FindRKey d ck))"
  "keeps (battle_inv X) (bt_on_sessions (EraseLKey d i))"
  by (auto intro!: keeps_bt_sessions simp: snd_FindLKey snd_FindRKey wf_intros rel_EraseLKey)

lemma keeps_ptrs [keeps_intros]: "keeps I (game_ptr p)"
  by (auto simp: game_ptr_def intro!: keeps_intros split: option.splits)

lemma keeps_send_ptrs [keeps_intros]: "keeps (battle_inv X) (send_if p q)" "keeps (battle_inv X) (send_to p q)"
  by (auto simp: send_if_def send_to_def intro!: keeps_intros split: option.splits)

section \<open>Handlers of sockets\<close>

lemma keeps_battle_packet [keeps_intros]: "keeps (battle_inv X) (battle_packet c side g header p)"
  unfolding battle_packet_def by (auto intro!: keeps_intros)

lemma keeps_battle_logout [keeps_intros]: "keeps (battle_inv X) (battle_logout c i)"
  unfolding battle_logout_def by (auto intro!: keeps_intros)

lemma keeps_battle_handler [keeps_intros]:
  "keeps (battle_inv X) again \<Longrightarrow> keeps (battle_inv X) (battle_handler c i side g p ec again)"
  unfolding battle_handler_def by (auto intro!: keeps_intros)

lemma keeps_battle_ClientProcess [keeps_intros]: "keeps (battle_inv X) (battle_ClientProcess c i side g ms)"
  by (induction ms) (auto intro!: keeps_intros)

lemma keeps_battle_enter [keeps_intros]: "keeps (battle_inv X) (battle_enter E c i cookie g ms)"
  unfolding battle_enter_def battle_send_back_def battle_dup_def battle_welcome_def by (auto intro!: keeps_intros)

lemma keeps_battle_Authenticate [keeps_intros]: "keeps (battle_inv X) (battle_AuthenticateProcess E c p ec ms)"
  unfolding battle_AuthenticateProcess_def battle_reject_def battle_send_back_def by (auto intro!: keeps_intros)

lemma keeps_battle_Accept [keeps_intros]: "keeps (battle_inv X) (battle_AcceptProcess E c ec ms)"
  unfolding battle_AcceptProcess_def by (auto intro!: keeps_intros split: list.splits)

lemma keeps_battle_received [keeps_intros]: "keeps (battle_inv X) (battle_received E c h err ms)"
  unfolding battle_received_def by (auto intro!: keeps_intros split: list.splits battle_recv.splits)

lemma keeps_battle_timer_fires [keeps_intros]: "keeps (battle_inv X) (battle_timer_fires E c t)"
  unfolding battle_timer_fires_def battle_session_timer_def battle_SessionProcess_def
  by (auto intro!: keeps_intros split: battle_timer.splits)

section \<open>The handler of a game\<close>

text \<open>\<open>settles I J m\<close>: started in \<open>I\<close>, the action \<open>m\<close> ends in \<open>J\<close>, by returning or by an exception.\<close>

definition settles :: "('w \<Rightarrow> bool) \<Rightarrow> ('w \<Rightarrow> bool) \<Rightarrow> ('w, 'a) db \<Rightarrow> bool" where
  "settles I J m \<longleftrightarrow> (\<forall>w r w'. I w \<longrightarrow> m w = (r, w') \<longrightarrow> (\<forall>e. r = Inl e \<longrightarrow> catchable e) \<longrightarrow> J w')"

lemma settles_bind:
  assumes "keeps I m" "calm m" "\<And>x. settles I J (f x)"
  shows "settles I J (db_bind m f)"
  unfolding settles_def db_bind_def
proof (intro allI impI)
  fix w r w'
  assume "I w" and run: "(case m w of (Inl e, d) \<Rightarrow> (Inl e, d) | (Inr x, d) \<Rightarrow> f x d) = (r, w')"
    and r: "\<forall>e. r = Inl e \<longrightarrow> catchable e"
  obtain q w1 where m: "m w = (q, w1)" by fastforce
  then have "I w1" using \<open>I w\<close> assms(1) by (metis keepsD)
  with run r m assms(2,3) show "J w'"
    by (cases q) (auto simp: calm_def settles_def)
qed

lemma settles_acts: "keeps I a \<Longrightarrow> calm a \<Longrightarrow> settles I J (acts as) \<Longrightarrow> settles I J (acts (a # as))"
  by (simp add: settles_bind)

lemma settles_last: "settles I J a \<Longrightarrow> settles I J (acts [a])"
  by (auto simp: settles_def run_defs split: prod.splits sum.splits)

lemma settles_if: "(b \<Longrightarrow> settles I J m) \<Longrightarrow> (\<not> b \<Longrightarrow> settles I J n) \<Longrightarrow> settles I J (if b then m else n)"
  by simp

lemma calm_on_game:
  assumes "\<And>w gi e gi'. f w gi = (Inl e, gi') \<Longrightarrow> \<exists>m. e = Undefined m"
  shows "calm (on_game g f)"
  unfolding calm_def
proof (intro allI impI)
  fix w e w'
  assume run: "on_game g f w = (Inl e, w')"
  show "\<not> catchable e"
  proof (cases "bt_games w g")
    case None
    then show ?thesis using run by (auto simp: on_game_def catchable_def)
  next
    case (Some gi)
    obtain r gi' where f: "f w gi = (r, gi')" by fastforce
    with run Some obtain e' where "r = Inl e'" "e = Std e'"
      by (cases r) (auto simp: on_game_def)
    with f assms show ?thesis by (fastforce simp: catchable_def)
  qed
qed

lemma calm_option:
  "calm m \<Longrightarrow> (\<And>x. calm (f x)) \<Longrightarrow> calm (case p of None \<Rightarrow> m | Some x \<Rightarrow> f x)"
  by (cases p) auto

lemma calm_in_game [calm_intros]: "calm (in_game g f)"
  unfolding in_game_def by (rule calm_on_game) (simp add: case_prod_beta)

lemma calm_of_side [calm_intros]: "calm (db_lift (of_side xs side))"
  by (auto simp: calm_def db_lift_def of_side_def catchable_def split: if_splits)

lemma calm_allin [calm_intros]: "calm (battle_allin g)"
  unfolding battle_allin_def by (rule calm_on_game) (simp add: case_prod_beta)

lemma calm_send_if [calm_intros]: "calm (send_if p q)"
  by (auto simp: send_if_def intro!: calm_intros split: option.splits)

lemma calm_game_timers [calm_intros]: "calm (battle_expires g ms)" "calm (GameProcess g)"
  unfolding battle_expires_def GameProcess_def by (intro calm_intros)+

lemma calm_broadcast [calm_intros]: "calm (battle_broadcast g q)" "calm (SendRoundResult msg g)"
  unfolding battle_broadcast_def SendRoundResult_def send_round_def by (auto intro!: calm_intros split: option.splits)

lemma calm_AchieveProgress [calm_intros]: "calm (battle_AchieveProgress E i a n s)"
  unfolding battle_AchieveProgress_def by (intro calm_intros)

lemma calm_battle_side [calm_intros]: "calm (battle_side g side)"
  unfolding battle_side_def by (auto intro!: calm_intros)

lemma calm_achievements [calm_intros]: "calm (battle_achievements E g n)"
proof (induction n)
  case (Suc n)
  show ?case
    unfolding battle_achievements.simps
    by (rule calm_bind [OF calm_in_game], rule calm_option)
      (auto intro!: calm_intros Suc split: prod.splits)
qed (simp add: calm_basic)

lemma calm_round [calm_intros]: "calm (battle_round E g)"
  unfolding battle_round_def by (intro calm_intros)

lemma keeps_messages [keeps_intros]: "keeps (battle_inv X) (battle_broadcast g q)" "keeps (battle_inv X) (SendRoundResult msg g)"
  unfolding battle_broadcast_def SendRoundResult_def send_round_def by (auto intro!: keeps_intros)

lemma keeps_AchieveProgress [keeps_intros]: "keeps (battle_inv X) (battle_AchieveProgress E i a n s)"
  unfolding battle_AchieveProgress_def by (auto intro!: keeps_intros)

lemma keeps_battle_side [keeps_intros]: "keeps (battle_inv X) (battle_side g side)"
  unfolding battle_side_def by (auto intro!: keeps_intros)

lemma keeps_achievements [keeps_intros]: "keeps (battle_inv X) (battle_achievements E g n)"
  by (induction n) (auto intro!: keeps_intros)

lemma keeps_round [keeps_intros]: "keeps (battle_inv X) (battle_round E g)"
  unfolding battle_round_def by (auto intro!: keeps_intros)

lemma keeps_conclude [keeps_intros]: "keeps (battle_inv X) (battle_conclude E winner crashed ps)"
  unfolding battle_conclude_def battle_archive_def battle_leave_def by (auto intro!: keeps_intros)

text \<open>The end of a game erases the sessions of its two players, on every path.\<close>

lemma games_drop [keeps_intros]: "keeps (\<lambda>w. bt_games w = gs \<and> bt_gamepool w = tp) (bt_on_sessions f)"
  by (simp add: keeps_def bt_on_sessions_def case_prod_beta)

lemma games_AchieveProgress [keeps_intros]: "keeps (\<lambda>w. bt_games w = gs \<and> bt_gamepool w = tp) (battle_AchieveProgress E i a n s)"
  unfolding battle_AchieveProgress_def send_if_def by (auto intro!: keeps_intros split: option.splits)

lemma games_conclude: "keeps (\<lambda>w. bt_games w = gs \<and> bt_gamepool w = tp) (battle_conclude E winner crashed ps)"
  unfolding battle_conclude_def battle_archive_def battle_leave_def send_to_def
  by (auto intro!: keeps_intros split: option.splits)

text \<open>An account that plays is the one of side 0 or of side 1.\<close>

lemma plays_side:
  assumes "game_ok gi" "plays i gi"
  shows "i = fst (fst (gi_of_side 0 gi)) \<or> i = fst (fst (gi_of_side 1 gi))"
proof -
  have wf: "dm_wf (gi_session gi)" using assms(1) by (simp add: game_ok_def)
  obtain side where "smap_find i (lrm (gi_session gi)) = Some side" "side = 0 \<or> side = 1"
    using assms by (auto simp: plays_def game_ok_def)
  then show ?thesis
    using dm_wf_inv [OF wf] FindRKey_wf [OF wf] by (auto simp: gi_of_side_def)
qed

lemma battle_side_run:
  assumes "bt_games w g = Some gi" "game_ok gi"
  shows "battle_side g side w = (Inr (fst (fst (gi_of_side side gi)), lock (snd (fst (gi_of_side side gi))) w), w)"
proof -
  have "snd (gi_of_side side gi) = gi" using assms(2) by (rule step_of_side)
  then have "(bt_games w)(g \<mapsto> snd (gi_of_side side gi)) = bt_games w" using assms(1) by auto
  then show ?thesis
    using assms(1) by (simp add: battle_side_def in_game_def on_game_def run_defs case_prod_beta)
qed

lemma bind_side:
  assumes "bt_games w g = Some gi" "game_ok gi"
  shows "db_bind (battle_side g side) f w = f (fst (fst (gi_of_side side gi)), lock (snd (fst (gi_of_side side gi))) w) w"
  by (simp add: db_bind_def battle_side_run [OF assms])

lemma in_game_read: "bt_games w g = Some gi \<Longrightarrow> in_game g (\<lambda>gi. (h gi, gi)) w = (Inr (h gi), w)"
  by (simp add: in_game_def on_game_def fun_upd_idem)

definition battle_clean :: "nat \<Rightarrow> Account_ID_t \<Rightarrow> Account_ID_t \<Rightarrow> ('r, 'd) battle \<Rightarrow> ('r, 'd) battle" where
  "battle_clean g i j w =
     w\<lparr>bt_gamepool := ReleaseTimer g (bt_gamepool w),
       bt_sessions := snd (EraseLKey None j (snd (EraseLKey None i (bt_sessions w))))\<rparr>"

lemma battle_clean_inv:
  assumes "battle_inv {g} w" "\<And>k gi. bt_games w g = Some gi \<Longrightarrow> plays k gi \<Longrightarrow> k = i \<or> k = j"
  shows "battle_inv {} (battle_clean g i j w)"
proof (rule battle_invI [OF assms(1)])
  have wf: "dm_wf (bt_sessions w)" using assms(1) by (rule battle_inv_wf)
  have rel: "dm_rel (bt_sessions (battle_clean g i j w)) = {e \<in> dm_rel (bt_sessions w). fst e \<noteq> i \<and> fst e \<noteq> j}"
    using wf by (auto simp: battle_clean_def rel_EraseLKey wf_intros)
  then show "dm_rel (bt_sessions (battle_clean g i j w)) \<subseteq> dm_rel (bt_sessions w)" by blast
  show "dm_wf (bt_sessions (battle_clean g i j w))" using wf by (simp add: battle_clean_def wf_intros)
  show "held {} (battle_clean g i j w) k p" if "(k, cookie, p) \<in> dm_rel (bt_sessions (battle_clean g i j w))" "held {g} w k p" for k cookie p
  proof -
    have out: "k \<noteq> i" "k \<noteq> j" and hd: "held {g} w k p" using that rel by auto
    obtain h gi where "p = Some h" "bt_games w h = Some gi" "plays k gi" "driven {g} h gi (bt_gamepool w)"
      using hd by (auto simp: held_def)
    moreover from this out assms(2) have "h \<noteq> g" by blast
    ultimately show ?thesis by (auto simp: held_def driven_def battle_clean_def ReleaseTimer_def)
  qed
qed (use battle_inv_game [OF assms(1)] in \<open>simp add: battle_clean_def\<close>)

lemma db_bind_modify: "db_bind (modify f) k w = k () (f w)"
  by (simp add: db_bind_def modify_def)

lemma db_bind_drop: "db_bind (drop_result (bt_on_sessions f)) k w = k () (w\<lparr>bt_sessions := snd (f (bt_sessions w))\<rparr>)"
  by (simp add: db_bind_def drop_result_def bt_on_sessions_def db_return_def case_prod_beta)

lemma clean_acts:
  "acts
     [modify (\<lambda>w. w\<lparr>bt_gamepool := ReleaseTimer g (bt_gamepool w)\<rparr>),
      drop_result (bt_on_sessions (EraseLKey None i)), drop_result (bt_on_sessions (EraseLKey None j)), fin] w =
   db_bind fin db_return (battle_clean g i j w)"
proof -
  have "(\<lambda>_::unit. db_return ()) = db_return" by (rule ext) simp
  then show ?thesis by (simp add: db_bind_modify db_bind_drop battle_clean_def)
qed

lemma settles_over: "settles (battle_inv {g}) (battle_inv {}) (battle_over E g now_allin)"
  unfolding settles_def
proof (intro allI impI)
  fix w :: "('a, 'b) battle" and r w'
  assume inv: "battle_inv {g} w" and run: "battle_over E g now_allin w = (r, w')" and r: "\<forall>e. r = Inl e \<longrightarrow> catchable e"
  show "battle_inv {} w'"
  proof (cases "bt_games w g")
    case None
    then have "r = Inl (Std (Undefined ''null game pointer''))"
      using run by (auto simp: battle_over_def battle_side_def in_game_def on_game_def db_bind_def)
    then show ?thesis using r by (simp add: catchable_def)
  next
    case (Some gi)
    have ok: "game_ok gi" using inv Some by (rule battle_inv_game)
    let ?p = "\<lambda>side. (fst (fst (gi_of_side side gi)), lock (snd (fst (gi_of_side side gi))) w)"
    obtain r1 w1 where c: "battle_conclude E (GetWinner (gi_game gi)) (\<not> now_allin) [?p 0, ?p 1] w = (r1, w1)" by fastforce
    have inv1: "battle_inv {g} w1" using keepsD [OF keeps_conclude inv c] .
    have games: "bt_games w1 = bt_games w" using keepsD [OF games_conclude [of "bt_games w" "bt_gamepool w"] _ c] by blast
    have clean: "battle_inv {} (battle_clean g (fst (?p 0)) (fst (?p 1)) w1)"
      using battle_clean_inv [OF inv1, of "fst (?p 0)" "fst (?p 1)"] plays_side [OF ok] games Some by simp
    have "battle_over E g now_allin w =
        db_bind (db_catch (db_bind (battle_conclude E (GetWinner (gi_game gi)) (\<not> now_allin) [?p 0, ?p 1]) (\<lambda>_. db_return None))
            (\<lambda>e. db_return (Some (traced e))))
          (\<lambda>eptr. acts [modify (\<lambda>w. w\<lparr>bt_gamepool := ReleaseTimer g (bt_gamepool w)\<rparr>),
             drop_result (bt_on_sessions (EraseLKey None (fst (?p 0)))), drop_result (bt_on_sessions (EraseLKey None (fst (?p 1)))),
             case eptr of None \<Rightarrow> db_return () | Some e \<Rightarrow> db_throw e]) w"
      unfolding battle_over_def bind_side [OF Some ok]
      by (simp add: db_bind_def [of "db_catch _ _"] db_catch_def db_bind_def [of "in_game _ _"] in_game_read [OF Some])
    then have "w' = battle_clean g (fst (?p 0)) (fst (?p 1)) w1"
      using run r c unfolding clean_acts
      by (cases r1) (auto simp: run_defs split: if_splits)
    with clean show ?thesis by simp
  qed
qed

lemma settles_GameProcess: "settles (battle_inv {g}) (battle_inv {}) (GameProcess g)"
  unfolding settles_def
proof (intro allI impI)
  fix w :: "('a, 'b) battle" and r w'
  assume inv: "battle_inv {g} w" and run: "GameProcess g w = (r, w')"
  have "battle_inv {g} w'" using keepsD [OF keeps_timers(2) inv run] .
  then show "battle_inv {} w'"
  proof (rule battle_invI)
    show "held {} w' i p" if "held {g} w' i p" for i p
      using that run
      by (auto simp: held_def driven_def GameProcess_def modify_def upd_game_def tm_async_wait_def TimerPool_is_open_def split: if_splits)
  qed (use \<open>battle_inv {g} w'\<close> in \<open>auto simp: battle_inv_def\<close>)
qed

lemma settles_handler: "settles (battle_inv {g}) (battle_inv {}) (battle_game_handler E g failed)"
  unfolding battle_game_handler_def
proof (rule settles_bind [OF keeps_game_ops(7) calm_allin], clarify, rule settles_if)
  fix prev_allin now_allin
  show "settles (battle_inv {g}) (battle_inv {}) (battle_connection g prev_allin now_allin)"
    unfolding battle_connection_def
    by (rule settles_acts [OF _ _ settles_last [OF settles_GameProcess]]) (auto intro!: keeps_intros calm_intros)
  have "keeps (battle_inv {g}) (if now_allin then battle_round E g else db_return True)"
    "calm (if now_allin then battle_round E g else db_return True)"
    by (intro keeps_intros calm_intros)+
  then show "settles (battle_inv {g}) (battle_inv {})
      (db_bind (if now_allin then battle_round E g else db_return True)
        (\<lambda>isGameOver. if \<not> isGameOver then acts [battle_expires g bt_Round_Time, GameProcess g] else battle_over E g now_allin))"
    by (rule settles_bind)
      (intro settles_if settles_over settles_acts [OF _ _ settles_last [OF settles_GameProcess]] keeps_timers calm_game_timers)
qed

lemma wait_ends_inv:
  assumes "battle_inv {} w" "battle_wait_ends E g failed w = (Inr (), w')"
  shows "battle_inv {} w'"
proof -
  let ?w = "upd_game g (\<lambda>gi. gi\<lparr>gi_timer := (gi_timer gi)\<lparr>tm_wait := Idle\<rparr>\<rparr>) w"
  have "battle_inv {g} ?w"
  proof (rule battle_invI [OF assms(1)])
    show "held {g} ?w i p" if "held {} w i p" for i p
      using that by (auto simp: held_def driven_def upd_game_def plays_def)
    show "game_ok gi" if "bt_games ?w k = Some gi" for k gi
      using that battle_inv_game [OF assms(1)] by (auto simp: upd_game_def split: if_splits)
  qed (use assms(1) in \<open>auto simp: battle_inv_def upd_game_def\<close>)
  moreover obtain r w1 where h: "battle_game_handler E g failed ?w = (r, w1)" by fastforce
  moreover have "\<forall>e. r = Inl e \<longrightarrow> catchable e"
    using assms(2) h by (auto simp: battle_wait_ends_def timer_thread_def run_defs split: if_splits)
  ultimately have "battle_inv {} w1" using settles_handler unfolding settles_def by blast
  moreover have "w' = w1 \<or> (\<exists>e. w' = ThrowThreadException e w1)"
    using assms(2) h by (auto simp: battle_wait_ends_def timer_thread_def run_defs split: sum.splits if_splits)
  ultimately show ?thesis by (auto simp: ThrowThreadException_def battle.I_thrown)
qed

section \<open>A new game\<close>

lemma new_game_session:
  "dm_wf (gi_session (new_game l r infos))"
  "smap_find i (lrm (gi_session (new_game l r infos))) = (if i = l then Some 0 else if i = r then Some 1 else None)"
  by (simp_all add: new_game_def GameInfo_def dm_wf_Insert) (simp add: Insert_def dm_empty_def)

lemma new_game_ok: "length infos = MAX_PLAYER \<Longrightarrow> game_ok (new_game l r infos)"
  using new_game_session(1) [of l r infos]
  by (auto simp: game_ok_def new_game_session(2) split: if_splits) (simp_all add: new_game_def GameInfo_def wf_MyGame)

lemma keeps_infos [keeps_intros]: "keeps (battle_inv X) (battle_infos E l r)"
  "keeps (\<lambda>w. bt_games w = gs \<and> bt_gamepool w = tp) (battle_infos E l r)"
  unfolding battle_infos_def by (auto intro!: keeps_intros)

lemma infos_length: "battle_infos E l r w = (Inr (Some infos), w') \<Longrightarrow> length infos = MAX_PLAYER"
  by (auto simp: battle_infos_def run_defs with_connection_def split: prod.splits sum.splits option.splits if_splits)

lemma inv_report [simp]: "battle_inv X (w\<lparr>bt_service := bs\<rparr>) = battle_inv X w"
  by (simp add: battle_inv_def held_def)

text \<open>What the registration of a new game does.\<close>

definition battle_put ::
  "nat \<Rightarrow> Account_ID_t \<times> Hash_t \<Rightarrow> Account_ID_t \<times> Hash_t \<Rightarrow> byte_queue list \<Rightarrow> ('r, 'd) battle \<Rightarrow> ('r, 'd) battle" where
  "battle_put g lp rp infos w =
     w\<lparr>bt_games := (bt_games w)(g \<mapsto> (new_game (fst lp) (fst rp) infos)\<lparr>gi_timer :=
          \<lparr>tm_wait = (if tp_isRunning (bt_gamepool w) then Waiting else Idle), tm_expires = bt_Dis_Time w\<rparr>\<rparr>),
       bt_sessions := snd (Insert (fst rp) (snd rp) (Some g) (snd (Insert (fst lp) (snd lp) (Some g) (bt_sessions w))))\<rparr>"

lemma create_run:
  assumes "battle_infos E (fst lp) (fst rp) w = (Inr (Some infos), w1)"
  shows "battle_create E g lp rp w = battle_report 1 (battle_put g lp rp infos w1)"
proof -
  have "gi_timer (new_game (fst lp) (fst rp) infos) = \<lparr>tm_wait = Idle, tm_expires = 0\<rparr>"
    by (simp add: new_game_def GameInfo_def)
  then show ?thesis
    using assms
    by (simp add: battle_create_def db_bind_def [of "battle_infos _ _ _"] db_bind_modify db_bind_drop battle_expires_def GameProcess_def
        battle_put_def upd_game_def tm_expires_after_def tm_cancel_def tm_async_wait_def TimerPool_is_open_def battle_report_def
        db_return_def modify_def)
qed

lemma put_inv:
  assumes "battle_inv {} w" "bt_games w g = None" "tp_isRunning (bt_gamepool w) \<longrightarrow> g \<in> set (tp_TimerSet (bt_gamepool w))"
    and "length infos = MAX_PLAYER"
  shows "battle_inv {} (battle_put g lp rp infos w)"
  unfolding battle_inv_def
proof (intro conjI allI impI)
  let ?w = "battle_put g lp rp infos w"
  have wf: "dm_wf (bt_sessions w)" using assms(1) by (rule battle_inv_wf)
  then show "dm_wf (bt_sessions ?w)" by (simp add: battle_put_def wf_intros)
  show "game_ok gi" if "bt_games ?w k = Some gi" for k gi
    using that battle_inv_game [OF assms(1)] new_game_ok [OF assms(4)] by (auto simp: battle_put_def split: if_splits)
  show "held {} ?w i p" if "(i, cookie, p) \<in> dm_rel (bt_sessions ?w)" for i cookie p
  proof -
    have "(i, cookie, p) \<in> dm_rel (bt_sessions w) \<or> p = Some g \<and> (i = fst lp \<or> i = fst rp)"
      using that wf by (auto simp: battle_put_def rel_Insert wf_intros split: if_splits)
    then show ?thesis
    proof
      assume "(i, cookie, p) \<in> dm_rel (bt_sessions w)"
      then have "held {} w i p" using assms(1) by (simp add: battle_inv_def)
      with assms(2) show ?thesis by (auto simp: held_def battle_put_def driven_def)
    next
      assume "p = Some g \<and> (i = fst lp \<or> i = fst rp)"
      with assms(3) show ?thesis
        by (auto simp: held_def battle_put_def driven_def plays_def) (simp_all add: new_game_session(2))
    qed
  qed
qed

text \<open>Before the game is there, its timer is in the pool and nothing refers to it.\<close>

definition reserved :: "nat \<Rightarrow> ('r, 'd) battle \<Rightarrow> bool" where
  "reserved g w \<longleftrightarrow> battle_inv {} w \<and> bt_games w g = None \<and>
     (tp_isRunning (bt_gamepool w) \<longrightarrow> g \<in> set (tp_TimerSet (bt_gamepool w)))"

lemma keeps_reserved:
  assumes "keeps (battle_inv {}) m" "\<And>gs tp. keeps (\<lambda>w. bt_games w = gs \<and> bt_gamepool w = tp) m"
  shows "keeps (reserved g) m"
  using assms(1) assms(2) [of "bt_games w" "bt_gamepool w" for w] unfolding keeps_def reserved_def by metis

lemma create_inv:
  assumes "reserved g w"
  shows "battle_inv {} (snd (battle_create E g lp rp w))"
proof -
  obtain r w1 where i: "battle_infos E (fst lp) (fst rp) w = (r, w1)" by fastforce
  have w1: "reserved g w1"
    using keepsD [OF keeps_reserved [OF keeps_infos] assms i] .
  then have inv: "battle_inv {} w1" "bt_games w1 g = None" by (simp_all add: reserved_def)
  have rel: "battle_inv {} (w1\<lparr>bt_gamepool := ReleaseTimer g (bt_gamepool w1)\<rparr>)"
  proof (rule battle_invI [OF inv(1)])
    show "held {} (w1\<lparr>bt_gamepool := ReleaseTimer g (bt_gamepool w1)\<rparr>) j p" if "held {} w1 j p" for j p
      using that inv(2) by (auto simp: held_def driven_def ReleaseTimer_def)
  qed (use inv battle_inv_wf battle_inv_game in auto)
  show ?thesis
  proof (cases r)
    case (Inl e)
    then show ?thesis using i inv by (simp add: battle_create_def db_bind_def)
  next
    case (Inr infos)
    then show ?thesis
    proof (cases infos)
      case None
      then show ?thesis
        using i Inr rel
        by (simp add: battle_create_def db_bind_def [of "battle_infos _ _ _"] db_bind_modify battle_report_def db_return_def)
    next
      case (Some qs)
      then have "length qs = MAX_PLAYER" using i Inr infos_length by blast
      then have "battle_inv {} (battle_put g lp rp qs w1)" using w1 put_inv [of w1 g qs lp rp] by (simp add: reserved_def)
      then show ?thesis using create_run [of E lp rp w qs w1 g] i Inr Some by (simp add: battle_report_def modify_def)
    qed
  qed
qed

lemma keeps_then:
  assumes "keeps I m" "\<And>w. I w \<Longrightarrow> J w" "\<And>x w. I w \<Longrightarrow> J (snd (f x w))" "I w"
  shows "J (snd (db_bind m f w))"
proof -
  obtain r w1 where m: "m w = (r, w1)" by fastforce
  have "I w1" using keepsD [OF assms(1,4) m] .
  then show ?thesis using assms(2,3) m by (cases r) (simp_all add: db_bind_def)
qed

lemma report_inv: "battle_inv X w \<Longrightarrow> battle_inv X (snd (battle_report n w))"
  by (simp add: battle_report_def modify_def)

lemma prepare_inv:
  assumes "reserved g w"
  shows "battle_inv {} (snd (battle_prepare E g lpid rpid w))"
proof -
  have redis: "keeps (reserved g) (on_redis_throw h)" for h :: "'a redis \<Rightarrow> ('c \<times> 'a redis) result"
    by (rule keeps_reserved [OF battle.keeps_redis(2) games.keeps_redis(2)])
  have inv: "battle_inv {} v" if "reserved g v" for v :: "('a, 'b) battle" using that by (simp add: reserved_def)
  show ?thesis
    unfolding battle_prepare_def
    by (rule keeps_then [OF redis inv keeps_then [OF redis inv _] assms])
      (auto intro: create_inv report_inv inv split: sum.splits prod.splits)
qed

lemma transfer_inv:
  assumes "battle_inv {} w" "bt_games w g = None"
  shows "battle_inv {} (snd (MatchTransfer E g lpid rpid w))"
proof (cases "GetTimer g (bt_gamepool w)")
  case (Pair timer tp)
  let ?w = "w\<lparr>bt_gamepool := tp\<rparr>"
  have inv: "battle_inv {} ?w"
  proof (rule battle_invI [OF assms(1)])
    show "held {} ?w i p" if "held {} w i p" for i p
      using that Pair by (auto simp: held_def driven_def GetTimer_def split: if_splits)
  qed (use assms battle_inv_wf battle_inv_game in auto)
  moreover have "reserved g ?w \<and> t = g" if "timer = Some t" for t
    using Pair inv assms(2) that by (auto simp: GetTimer_def reserved_def split: if_splits)
  ultimately show ?thesis
    using Pair assms(1) by (cases timer) (auto simp: MatchTransfer_def Let_def report_inv prepare_inv)
qed

section \<open>Reachable states\<close>

lemma close_inv: "battle_inv {} w \<Longrightarrow> battle_inv {} (battle_Close w)"
proof -
  assume inv: "battle_inv {} w"
  let ?cancel = "\<lambda>g. upd_game g (\<lambda>gi. gi\<lparr>gi_timer := tm_cancel (gi_timer gi)\<rparr>)"
  have "battle_inv {} (fold ?cancel ts v)" if "battle_inv {} v" for ts and v :: "('a, 'b) battle"
    using that
  proof (induction ts arbitrary: v)
    case (Cons t ts)
    have "battle_inv {} (?cancel t v)"
      using Cons.prems by (rule keeps_upd_game [rotated]) (simp add: game_step_def plays_def)
    then show ?case using Cons.IH by simp
  qed simp
  from this [OF inv, of "tp_TimerSet (bt_gamepool w)"]
  have cancelled: "battle_inv {} (fold ?cancel (tp_TimerSet (bt_gamepool w)) w)" .
  then show ?thesis
    unfolding battle_Close_def TimerPool_Stop_def Let_def prod.case
    by (rule battle_invI) (use battle_inv_wf [OF cancelled] battle_inv_game [OF cancelled] in \<open>auto simp: held_def driven_def\<close>)
qed

text \<open>
  The runs of the server: as for the match server, and a pair of players is sent, the wait of a timer of a game
  ends, the server is closed. A handler of a game that runs into undefined behaviour or never returns is
  not followed.
\<close>

inductive battle_reach :: "('r, 'd) env \<Rightarrow> ('r, 'd) battle \<Rightarrow> bool" for E where
  start: "bt_sessions w = dm_empty \<Longrightarrow> bt_games w = (\<lambda>_. None) \<Longrightarrow> battle_reach E w"
| accepted: "battle_reach E w \<Longrightarrow> sv_objects w c = None \<Longrightarrow> battle_reach E (AddClient c (w\<lparr>sv_objects := (sv_objects w)(c \<mapsto> s)\<rparr>))"
| exchanged: "battle_reach E w \<Longrightarrow> battle_reach E (snd (battle_AcceptProcess E c ec ms w))"
| received: "battle_reach E w \<Longrightarrow> sv_objects w c = Some s \<Longrightarrow> cl_handler s = Some h \<Longrightarrow> battle_reach E (snd (battle_received E c h err ms w))"
| timer: "battle_reach E w \<Longrightarrow> sv_objects w c = Some s \<Longrightarrow> sk_timer s = Some t \<Longrightarrow> battle_reach E (snd (battle_timer_fires E c t w))"
| closed: "battle_reach E w \<Longrightarrow> battle_reach E (ws_closed c w)"
| destroyed: "battle_reach E w \<Longrightarrow> c \<notin> set (sv_clients w) \<Longrightarrow> battle_reach E (w\<lparr>sv_objects := (sv_objects w)(c := None)\<rparr>)"
| transfer: "battle_reach E w \<Longrightarrow> bt_games w g = None \<Longrightarrow> battle_reach E (snd (MatchTransfer E g lpid rpid w))"
| wait_ends: "battle_reach E w \<Longrightarrow> bt_games w g = Some gi \<Longrightarrow> tm_wait (gi_timer gi) = (if failed then Cancelled else Waiting) \<Longrightarrow>
    battle_wait_ends E g failed w = (Inr (), w') \<Longrightarrow> battle_reach E w'"
| stopped: "battle_reach E w \<Longrightarrow> battle_reach E (battle_Close w)"
| outside: "battle_reach E w \<Longrightarrow> battle_reach E (w\<lparr>sv_redis := rd, sv_db := d, bt_service := bs\<rparr>)"

lemma battle_reach_inv: "battle_reach E w \<Longrightarrow> battle_inv {} w"
proof (induction rule: battle_reach.induct)
  case (start w)
  then show ?case by (simp add: battle_inv_def) (simp add: dm_rel_def dm_empty_def)
next
  case (accepted w c s)
  then show ?case by (simp add: battle.AddClient_inv battle.I_objects)
next
  case (wait_ends w g gi failed w')
  then show ?case by (blast intro: wait_ends_inv)
next
  case (outside w rd d bs)
  then show ?case by (simp add: battle.I_redis battle.I_db)
qed (simp_all add: battle.ws_closed_inv battle.I_objects keeps_snd keeps_intros transfer_inv close_inv)

end
