(* ===== verification/BattleSessions.thy ===== *)
theory BattleSessions
  imports BattleInvariant MatchHandover
begin

text \<open>
  The way of a session through the battle server: a pair of players is taken over, its clients are accepted, and
  the game ends.
\<close>

section \<open>Sockets\<close>

text \<open>A socket that is sent one byte and closed.\<close>

definition told :: "byte \<Rightarrow> nat \<Rightarrow> ('r, 'd) battle \<Rightarrow> ('r, 'd) battle" where
  "told b c w = close_client c (upd_client c (sk_Send [b]) w)"

lemma told_frame [simp]:
  "sv_redis (told b c w) = sv_redis w" "sv_pool (told b c w) = sv_pool w" "sv_db (told b c w) = sv_db w"
  "bt_sessions (told b c w) = bt_sessions w" "bt_games (told b c w) = bt_games w" "bt_gamepool (told b c w) = bt_gamepool w"
  "bt_self_keyword (told b c w) = bt_self_keyword w" "bt_service (told b c w) = bt_service w"
  "x \<noteq> c \<Longrightarrow> sv_objects (told b c w) x = sv_objects w x"
  by (simp_all add: told_def close_client_def upd_client_def RemoveClient_def Let_def split: option.splits)

lemma told_live:
  "live c w s \<Longrightarrow> \<exists>s'. sv_objects (told b c w) c = Some s' \<and> sk_out s' = sk_out s @ [[b]] \<and> sk_closing s'"
  by (auto simp: live_def told_def close_client_def upd_client_def sk_Send_def sk_Close_def Let_def)

lemma vector_code [simp]: "vector (Create True [b]) = [b]"
  by (simp add: vector_def)

section \<open>Accepting a player\<close>

definition welcome_packet :: "game_info \<Rightarrow> int \<Rightarrow> byte list" where
  "welcome_packet gi side =
     GAME_PLAYER_INFO_NAME # bq_bytes (gi_PlayerInfos gi ! nat side) @ bq_bytes (gi_PlayerInfos gi ! nat (1 - side))"

lemma in_game_run: "bt_games w g = Some gi \<Longrightarrow> in_game g f w = (Inr (fst (f gi)), w\<lparr>bt_games := (bt_games w)(g \<mapsto> snd (f gi))\<rparr>)"
  by (simp add: in_game_def on_game_def case_prod_beta)

lemma welcome_run:
  assumes "bt_games w g = Some gi" "game_ok gi" "side = 0 \<or> side = 1"
  shows "battle_welcome c g side w = (Inr (), upd_client c (sk_Send (welcome_packet gi side)) w)"
proof -
  have "(bt_games w)(g \<mapsto> gi) = bt_games w" using assms(1) by auto
  then show ?thesis
    using assms
    by (auto simp: battle_welcome_def on_game_def of_side_def game_ok_def run_defs vector_def welcome_packet_def)
qed

lemma Enter_run:
  assumes "game_ok gi" "(i, side, old) \<in> dm_rel (gi_session gi)"
  shows "gi_side i gi = (side, gi)"
    and "\<exists>dm. gi_Enter i c gi = (Some old, gi\<lparr>gi_session := dm, gi_timer := tm_cancel (gi_timer gi)\<rparr>) \<and> dm_wf dm \<and>
      dm_rel dm = insert (i, side, Some c) {e \<in> dm_rel (gi_session gi). fst e \<noteq> i}"
proof -
  have wf: "dm_wf (gi_session gi)" using assms(1) by (simp add: game_ok_def)
  have f: "FindLKey None i (gi_session gi) = (Some (side, old), gi_session gi)"
    using findl_rel [OF wf, of None i side old] assms(2) snd_FindLKey [OF wf, of None i] by (metis prod.collapse)
  then show "gi_side i gi = (side, gi)" by (simp add: gi_side_def)
  have "smap_find i (kvm (gi_session gi)) \<noteq> None" using assms(2) by (auto simp: dm_rel_def)
  then have "fst (InsertLKeyValue i (Some c) (gi_session gi))" by (simp add: InsertLKeyValue_def)
  then show "\<exists>dm. gi_Enter i c gi = (Some old, gi\<lparr>gi_session := dm, gi_timer := tm_cancel (gi_timer gi)\<rparr>) \<and> dm_wf dm \<and>
      dm_rel dm = insert (i, side, Some c) {e \<in> dm_rel (gi_session gi). fst e \<noteq> i}"
    using f rel_InsertLKeyValue [OF wf assms(2)] dm_wf_InsertLKeyValue [OF wf]
    by (intro exI [of _ "snd (InsertLKeyValue i (Some c) (gi_session gi))"]) (simp add: gi_Enter_def case_prod_beta)
qed

text \<open>The socket that had the place, if there is one, is told and closed.\<close>

definition ousted :: "nat option \<Rightarrow> ('r, 'd) battle \<Rightarrow> ('r, 'd) battle" where
  "ousted old w = (case lock old w of None \<Rightarrow> w | Some p \<Rightarrow> told ERR_DUPLICATED_ACCESS p w)"

lemma dup_run: "battle_dup old w = (Inr (), ousted old w)"
  by (simp add: battle_dup_def run_defs ousted_def told_def split: option.splits)

lemma ousted_frame [simp]:
  "sv_redis (ousted p w) = sv_redis w" "bt_sessions (ousted p w) = bt_sessions w" "bt_games (ousted p w) = bt_games w"
  "p \<noteq> Some c \<Longrightarrow> sv_objects (ousted p w) c = sv_objects w c"
  by (cases p; auto simp: ousted_def lock_def split: option.splits if_splits intro: told_frame)+

lemma find_battle_cookie:
  assumes "battle_inv X w" "(i, cookie, p) \<in> dm_rel (bt_sessions w)"
  shows "bt_on_sessions (FindRKey None cookie) w = (Inr (Some (i, p)), w)"
proof -
  have wf: "dm_wf (bt_sessions w)" using assms(1) by (rule battle_inv_wf)
  have "FindRKey None cookie (bt_sessions w) = (Some (i, p), bt_sessions w)"
    using findr_rel [OF wf, of None cookie i p] assms(2) snd_FindRKey [OF wf, of None cookie] by (metis prod.collapse)
  then show ?thesis by (simp add: bt_on_sessions_def)
qed

lemma enter_run:
  assumes "bt_games w g = Some gi" "game_ok gi" "live c w s" "(i, side, old) \<in> dm_rel (gi_session gi)" "old \<noteq> Some c"
  shows "\<exists>dm. battle_enter E c i cookie g [] w = (Inr (),
      (ousted old w)\<lparr>sv_objects := (sv_objects (ousted old w))(c \<mapsto> s\<lparr>sk_out := sk_out s @ [welcome_packet gi side], sk_ttl := SESSION_TTL,
         cl_handler := Some (Battle_Client i side g), sk_timer := Some (Battle_SessionProcess i cookie)\<rparr>),
       bt_games := (bt_games w)(g \<mapsto> gi\<lparr>gi_session := dm, gi_timer := tm_cancel (gi_timer gi)\<rparr>)\<rparr>) \<and> dm_wf dm \<and>
    dm_rel dm = insert (i, side, Some c) {e \<in> dm_rel (gi_session gi). fst e \<noteq> i}"
proof -
  obtain dm where dm: "gi_Enter i c gi = (Some old, gi\<lparr>gi_session := dm, gi_timer := tm_cancel (gi_timer gi)\<rparr>)" "dm_wf dm"
    "dm_rel dm = insert (i, side, Some c) {e \<in> dm_rel (gi_session gi). fst e \<noteq> i}"
    using Enter_run(2) [OF assms(2,4)] by blast
  have sd: "side = 0 \<or> side = 1" using assms(2,4) by (auto simp: game_ok_def dm_rel_def)
  let ?gi = "gi\<lparr>gi_session := dm, gi_timer := tm_cancel (gi_timer gi)\<rparr>"
  let ?w = "w\<lparr>bt_games := (bt_games w)(g \<mapsto> ?gi)\<rparr>"
  have ok: "game_ok ?gi" using step_Enter [OF assms(2), of i c] dm(1) by (simp add: game_step_def)
  have w: "welcome_packet ?gi side = welcome_packet gi side" by (simp add: welcome_packet_def)
  have lv: "live c (ousted old ?w) s" using assms(3,5) by (simp add: live_def)
  have o: "ousted old ?w = (ousted old w)\<lparr>bt_games := (bt_games w)(g \<mapsto> ?gi)\<rparr>"
    by (simp add: ousted_def lock_def told_def close_client_def upd_client_def RemoveClient_def Let_def split: option.splits)
  have bw: "battle_welcome c g side (ousted old ?w) = (Inr (), upd_client c (sk_Send (welcome_packet gi side)) (ousted old ?w))"
    using welcome_run [of "ousted old ?w" g ?gi side c] ok sd w by simp
  have "(bt_games w)(g \<mapsto> gi) = bt_games w" using assms(1) by auto
  then have "battle_enter E c i cookie g [] w =
      acts [battle_dup old, battle_welcome c g side, c_FillTTL c SESSION_TTL, battle_ClientProcess c i side g [],
        c_SetTimeout c (Battle_SessionProcess i cookie)] ?w"
    using Enter_run(1) [OF assms(2,4)] dm(1) assms(1) by (simp add: battle_enter_def db_bind_def [of "in_game _ _"] in_game_run)
  also have "\<dots> = acts [c_FillTTL c SESSION_TTL, battle_ClientProcess c i side g [], c_SetTimeout c (Battle_SessionProcess i cookie)]
      (upd_client c (sk_Send (welcome_packet gi side)) (ousted old ?w))"
    by (simp add: db_bind_def [of "battle_dup _"] db_bind_def [of "battle_welcome _ _ _"] dup_run bw)
  finally show ?thesis
    using lv dm
    by (intro exI [of _ dm]) (simp add: run_defs upd_client_def live_def can_recv_def sk_FillTTL_def sk_SetTimeout_def sk_Send_def o)
qed

text \<open>The whole handler, for a cookie that Redis gives to this server and that a game here waits for.\<close>

lemma authenticate_run:
  assumes "redis_up (en_srv E) store (sv_redis w)" "battle_inv {} w" "live c w s" "length cookie = 32"
    and "has_session (store (rd_server (sv_redis w))) i cookie (bt_self_keyword w)"
    and "(i, cookie, Some g) \<in> dm_rel (bt_sessions w)" "bt_games w g = Some gi"
    and "(i, side, old) \<in> dm_rel (gi_session gi)" "old \<noteq> Some c"
  shows "\<exists>rd dm. redis_up (en_srv E) store rd \<and> store (rd_server rd) = store (rd_server (sv_redis w)) \<and>
    battle_AuthenticateProcess E c (bq_of_vector True cookie) (ErrorCode_custom SUCCESS) [] w = (Inr (),
      (ousted old w)\<lparr>sv_redis := rd,
       sv_objects := (sv_objects (ousted old w))(c \<mapsto> s\<lparr>sk_out := sk_out s @ [welcome_packet gi side], sk_ttl := SESSION_TTL,
         cl_handler := Some (Battle_Client i side g), sk_timer := Some (Battle_SessionProcess i cookie)\<rparr>),
       bt_games := (bt_games w)(g \<mapsto> gi\<lparr>gi_session := dm, gi_timer := tm_cancel (gi_timer gi)\<rparr>)\<rparr>) \<and> dm_wf dm \<and>
    dm_rel dm = insert (i, side, Some c) {e \<in> dm_rel (gi_session gi). fst e \<noteq> i}"
proof -
  let ?w0 = "upd_client c sk_CancelTimeout w"
  obtain rd where r: "GetInfoFromCookie (en_srv E) cookie (sv_redis w) = Inr (Inr (i, bt_self_keyword w), rd)"
    "redis_up (en_srv E) store rd" "store (rd_server rd) = store (rd_server (sv_redis w))"
    using GetInfoFromCookie_up [OF assms(1,5)] by metis
  let ?w = "?w0\<lparr>sv_redis := rd\<rparr>"
  have f: "bt_sessions ?w = bt_sessions w" "bt_games ?w = bt_games w" "bt_self_keyword ?w = bt_self_keyword w"
    by (simp_all add: upd_client_def)
  have inv: "battle_inv {} ?w" using assms(2) by (simp add: battle.upd_client_inv battle.I_redis)
  have ok: "game_ok gi" using battle_inv_game [OF assms(2,7)] .
  have lv: "live c ?w (s\<lparr>sk_timer := None\<rparr>)" using assms(3) by (simp add: live_def upd_client_def sk_CancelTimeout_def)
  have fc: "bt_on_sessions (FindRKey None cookie) ?w = (Inr (Some (i, Some g)), ?w)"
    using find_battle_cookie [OF inv] assms(6) f by simp
  have "battle_AuthenticateProcess E c (bq_of_vector True cookie) (ErrorCode_custom SUCCESS) [] w = battle_enter E c i cookie g [] ?w"
    using r(1) fc f
    by (simp add: battle_AuthenticateProcess_def c_CancelTimeout_def modify_def db_bind_def db_lift_def pop_cookie [OF assms(4)]
        on_redis_throw_def gets_def game_ptr_def db_return_def upd_client_def)
  moreover obtain dm where e: "battle_enter E c i cookie g [] ?w = (Inr (),
      (ousted old ?w)\<lparr>sv_objects := (sv_objects (ousted old ?w))(c \<mapsto> (s\<lparr>sk_timer := None\<rparr>)\<lparr>sk_out := sk_out (s\<lparr>sk_timer := None\<rparr>) @ [welcome_packet gi side], sk_ttl := SESSION_TTL,
         cl_handler := Some (Battle_Client i side g), sk_timer := Some (Battle_SessionProcess i cookie)\<rparr>),
       bt_games := (bt_games ?w)(g \<mapsto> gi\<lparr>gi_session := dm, gi_timer := tm_cancel (gi_timer gi)\<rparr>)\<rparr>)" "dm_wf dm"
    "dm_rel dm = insert (i, side, Some c) {e \<in> dm_rel (gi_session gi). fst e \<noteq> i}"
    using enter_run [OF _ ok lv assms(8,9), of g E cookie] assms(7) f by auto
  moreover have "(ousted old ?w)\<lparr>sv_objects := (sv_objects (ousted old ?w))(c \<mapsto> t)\<rparr> =
      (ousted old w)\<lparr>sv_redis := rd, sv_objects := (sv_objects (ousted old w))(c \<mapsto> t)\<rparr>" for t
    using assms(9)
    by (auto simp: ousted_def lock_def told_def close_client_def upd_client_def RemoveClient_def Let_def fun_upd_twist split: option.splits)
  ultimately show ?thesis using r(2,3) f by (intro exI [of _ rd] exI [of _ dm]) simp
qed

text \<open>
  C14. A player is let into its game by its cookie: with Redis up and naming this server for the cookie, and the session of a
  game here, the socket takes the place of the account in the game, gets the description of both players, its own
  first, reads requests for its side, and the handler of the game is woken. A socket that had the place
  before is told and closed. Nothing else of the sessions, of Redis or of other games changes. The
  invariant holds again.
\<close>

theorem battle_authenticates:
  assumes "redis_up (en_srv E) store (sv_redis w)" "battle_inv {} w" "live c w s" "length cookie = 32"
    and "has_session (store (rd_server (sv_redis w))) i cookie (bt_self_keyword w)"
    and "(i, cookie, Some g) \<in> dm_rel (bt_sessions w)" "bt_games w g = Some gi"
    and "(i, side, old) \<in> dm_rel (gi_session gi)" "old \<noteq> Some c"
  shows "\<exists>w' s' gi'. battle_AuthenticateProcess E c (bq_of_vector True cookie) (ErrorCode_custom SUCCESS) [] w = (Inr (), w') \<and>
     battle_inv {} w' \<and> bt_sessions w' = bt_sessions w \<and> store (rd_server (sv_redis w')) = store (rd_server (sv_redis w)) \<and>
     sv_objects w' c = Some s' \<and> sk_out s' = sk_out s @ [welcome_packet gi side] \<and> \<not> sk_closing s' \<and>
     cl_handler s' = Some (Battle_Client i side g) \<and>
     bt_games w' = (bt_games w)(g \<mapsto> gi') \<and> gi_game gi' = gi_game gi \<and>
     dm_rel (gi_session gi') = insert (i, side, Some c) {e \<in> dm_rel (gi_session gi). fst e \<noteq> i} \<and>
     (tm_wait (gi_timer gi) = Waiting \<longrightarrow> tm_wait (gi_timer gi') = Cancelled) \<and>
     (\<forall>p s0. old = Some p \<and> live p w s0 \<longrightarrow>
        (\<exists>s1. sv_objects w' p = Some s1 \<and> sk_out s1 = sk_out s0 @ [[ERR_DUPLICATED_ACCESS]] \<and> sk_closing s1))"
proof -
  let ?run = "battle_AuthenticateProcess E c (bq_of_vector True cookie) (ErrorCode_custom SUCCESS) [] w"
  obtain rd dm where run: "store (rd_server rd) = store (rd_server (sv_redis w))" "?run = (Inr (),
      (ousted old w)\<lparr>sv_redis := rd,
       sv_objects := (sv_objects (ousted old w))(c \<mapsto> s\<lparr>sk_out := sk_out s @ [welcome_packet gi side], sk_ttl := SESSION_TTL,
         cl_handler := Some (Battle_Client i side g), sk_timer := Some (Battle_SessionProcess i cookie)\<rparr>),
       bt_games := (bt_games w)(g \<mapsto> gi\<lparr>gi_session := dm, gi_timer := tm_cancel (gi_timer gi)\<rparr>)\<rparr>)"
    "dm_rel dm = insert (i, side, Some c) {e \<in> dm_rel (gi_session gi). fst e \<noteq> i}"
    using authenticate_run [OF assms] by blast
  have "\<exists>s1. sv_objects (ousted old w) p = Some s1 \<and> sk_out s1 = sk_out s0 @ [[ERR_DUPLICATED_ACCESS]] \<and> sk_closing s1"
    if "old = Some p" "live p w s0" for p s0
    using told_live [OF that(2)] that by (simp add: ousted_def lock_def live_def)
  moreover have "battle_inv {} (snd ?run)" using keeps_snd [OF keeps_battle_Authenticate assms(2)] .
  ultimately show ?thesis
    using assms(3,9) run by (auto simp: live_def tm_cancel_def)
qed

section \<open>Taking over a pair of players\<close>

definition stored :: "rstore \<Rightarrow> Account_ID_t \<Rightarrow> Hash_t \<Rightarrow> string \<Rightarrow> bool" where
  "stored st i cookie server \<longleftrightarrow> st (account_key i) = Some (RStr (cookieStr cookie)) \<and> has_session st i cookie server \<and>
     length cookie = 32"

lemma infos_run:
  assumes "pool_ready (en_sql E) ptr ptrs w" "GetInfo (en_sql E) l (sv_db w) = (Inr linfo, d1)" "GetInfo (en_sql E) r d1 = (Inr rinfo, d2)"
  shows "battle_infos E l r w = (Inr (Some [player_info linfo (bq_new True), player_info rinfo (bq_new True)]),
    w\<lparr>sv_db := sql_end (en_sql E) d2, sv_pool := (sv_pool w)\<lparr>pl_waitPool := ptrs @ [ptr]\<rparr>\<rparr>)"
  using assms(2,3)
  by (simp add: battle_infos_def run_defs with_connection_run [OF assms(1)] end_connection_def release_def)

lemma prepare_run:
  assumes "redis_up (en_srv E) store (sv_redis w)"
    and "stored (store (rd_server (sv_redis w))) l k0 n0" "stored (store (rd_server (sv_redis w))) r k1 n1"
  shows "\<exists>rd. battle_prepare E g l r w = battle_create E g (l, k0) (r, k1) (w\<lparr>sv_redis := rd\<rparr>) \<and>
    redis_up (en_srv E) store rd \<and> store (rd_server rd) = store (rd_server (sv_redis w))"
proof -
  obtain rd0 where 0: "GetInfoFromID (en_srv E) l (sv_redis w) = Inr (Inr (k0, n0), rd0)" "redis_up (en_srv E) store rd0"
    "store (rd_server rd0) = store (rd_server (sv_redis w))"
    using GetInfoFromID_up [OF assms(1)] assms(2) unfolding stored_def by metis
  obtain rd1 where 1: "GetInfoFromID (en_srv E) r rd0 = Inr (Inr (k1, n1), rd1)" "redis_up (en_srv E) store rd1"
    "store (rd_server rd1) = store (rd_server rd0)"
    using GetInfoFromID_up [OF 0(2)] 0(3) assms(3) unfolding stored_def by metis
  have "battle_prepare E g l r w = battle_create E g (l, k0) (r, k1) (w\<lparr>sv_redis := rd1\<rparr>)"
    by (simp add: battle_prepare_def db_bind_def on_redis_throw_def 0(1) 1(1))
  with 0 1 show ?thesis by auto
qed

lemma new_game_rel: "l \<noteq> r \<Longrightarrow> dm_rel (gi_session (new_game l r infos)) = {(l, 0, None), (r, 1, None)}"
  by (auto simp: new_game_def GameInfo_def Insert_def dm_empty_def dm_rel_def smap_insert_def split: if_splits)

lemma two_inserts:
  assumes "dm_wf dm" "l \<noteq> r" "k0 \<noteq> k1" "\<forall>i ck p. (i, ck, p) \<in> dm_rel dm \<longrightarrow> i \<notin> {l, r} \<and> ck \<notin> {k0, k1}"
  shows "dm_rel (snd (Insert r k1 v (snd (Insert l k0 v dm)))) = dm_rel dm \<union> {(l, k0, v), (r, k1, v)}"
proof -
  have wf: "dm_wf (snd (Insert l k0 v dm))" using assms(1) by (rule dm_wf_Insert)
  have 1: "dm_rel (snd (Insert l k0 v dm)) = insert (l, k0, v) (dm_rel dm)"
    using assms(1,4) by (auto simp: rel_Insert fst_Insert)
  have "fst (Insert r k1 v (snd (Insert l k0 v dm)))"
    using assms(2-4) unfolding fst_Insert [OF wf] 1 by auto
  then show ?thesis using rel_Insert [OF wf, of r k1 v] 1 by auto
qed

text \<open>
  If both players have a session in Redis, the database answers and neither has a session here, both
  sessions are added for a new game in which the first player has side 0 and the second side 1.
\<close>

lemma transfer_run:
  assumes "redis_up (en_srv E) store (sv_redis w)" "battle_inv {} w" "bt_games w g = None"
    and "tp_isRunning (bt_gamepool w)" "g \<notin> set (tp_TimerSet (bt_gamepool w))" "bs_stream (bt_service w)"
    and "l \<noteq> 0" "r \<noteq> 0" "l \<noteq> r" "k0 \<noteq> k1"
    and "stored (store (rd_server (sv_redis w))) l k0 n0" "stored (store (rd_server (sv_redis w))) r k1 n1"
    and "pool_ready (en_sql E) ptr ptrs w" "GetInfo (en_sql E) l (sv_db w) = (Inr linfo, d1)" "GetInfo (en_sql E) r d1 = (Inr rinfo, d2)"
    and "\<forall>i ck p. (i, ck, p) \<in> dm_rel (bt_sessions w) \<longrightarrow> i \<notin> {l, r} \<and> ck \<notin> {k0, k1}"
  shows "\<exists>w' gi. MatchTransfer E g l r w = (Inr (), w') \<and> battle_inv {} w' \<and>
     dm_rel (bt_sessions w') = dm_rel (bt_sessions w) \<union> {(l, k0, Some g), (r, k1, Some g)} \<and>
     bt_games w' = (bt_games w)(g \<mapsto> gi) \<and> gi_game gi = MyGame \<and>
     dm_rel (gi_session gi) = {(l, 0, None), (r, 1, None)} \<and>
     gi_PlayerInfos gi = [player_info linfo (bq_new True), player_info rinfo (bq_new True)] \<and>
     gi_timer gi = \<lparr>tm_wait = Waiting, tm_expires = bt_Dis_Time w\<rparr> \<and>
     redis_up (en_srv E) store (sv_redis w') \<and> store (rd_server (sv_redis w')) = store (rd_server (sv_redis w)) \<and>
     bt_self_keyword w' = bt_self_keyword w \<and> sv_objects w' = sv_objects w \<and>
     bt_gamepool w' = (bt_gamepool w)\<lparr>tp_TimerSet := g # tp_TimerSet (bt_gamepool w)\<rparr> \<and>
     bs_written (bt_service w') = bs_written (bt_service w) @ [1, ucast (of_nat (dm_Size (bt_sessions w')) :: 64 word)]"
proof -
  let ?w = "w\<lparr>bt_gamepool := (bt_gamepool w)\<lparr>tp_TimerSet := g # tp_TimerSet (bt_gamepool w)\<rparr>\<rparr>"
  have start: "MatchTransfer E g l r w = battle_prepare E g l r ?w"
    using assms(4,5,7,8) by (simp add: MatchTransfer_def GetTimer_def Let_def)
  obtain rd where p: "battle_prepare E g l r ?w = battle_create E g (l, k0) (r, k1) (?w\<lparr>sv_redis := rd\<rparr>)"
    "redis_up (en_srv E) store rd" "store (rd_server rd) = store (rd_server (sv_redis w))"
    using prepare_run [of E store ?w l k0 n0 r k1 n1 g] assms(1,11,12) by auto
  let ?infos = "[player_info linfo (bq_new True), player_info rinfo (bq_new True)]"
  obtain w1 where i: "battle_infos E l r (?w\<lparr>sv_redis := rd\<rparr>) = (Inr (Some ?infos), w1)"
    "w1 = ?w\<lparr>sv_redis := rd, sv_db := sql_end (en_sql E) d2, sv_pool := (sv_pool w)\<lparr>pl_waitPool := ptrs @ [ptr]\<rparr>\<rparr>"
    using infos_run [of E ptr ptrs "?w\<lparr>sv_redis := rd\<rparr>" l linfo d1 r rinfo d2] assms(13-15) by (simp add: pool_ready_def)
  let ?w2 = "battle_put g (l, k0) (r, k1) ?infos w1"
  let ?w' = "?w2\<lparr>bt_service := SetUsage (of_nat (dm_Size (bt_sessions ?w2))) (SetUsage 1 (bt_service w))\<rparr>"
  have "battle_create E g (l, k0) (r, k1) (?w\<lparr>sv_redis := rd\<rparr>) = (Inr (), ?w')"
    using create_run [of E "(l, k0)" "(r, k1)" "?w\<lparr>sv_redis := rd\<rparr>" ?infos w1 g] i by (simp add: battle_report_def modify_def battle_put_def)
  with start p have run: "MatchTransfer E g l r w = (Inr (), ?w')" by simp
  have inv: "battle_inv {} ?w'" using transfer_inv [OF assms(2,3), of E l r] run by simp
  have wf: "dm_wf (bt_sessions w)" using assms(2) by (rule battle_inv_wf)
  have rel: "dm_rel (bt_sessions ?w') = dm_rel (bt_sessions w) \<union> {(l, k0, Some g), (r, k1, Some g)}"
    using two_inserts [OF wf assms(9,10) assms(16), of "Some g"] i(2) by (simp add: battle_put_def)
  have "bs_written (bt_service ?w') = bs_written (bt_service w) @ [1, ucast (of_nat (dm_Size (bt_sessions ?w')) :: 64 word)]"
    using assms(6) by (simp add: SetUsage_written)
  with run inv rel p i(2) assms(4) new_game_rel [OF assms(9), of ?infos] show ?thesis
    by (intro exI [of _ ?w'] exI conjI) (assumption | simp add: battle_put_def; simp add: new_game_def GameInfo_def)+
qed

lemma lookup_run:
  assumes "redis_up srv store rd" "store (rd_server rd) (account_key i) = None \<or> (\<exists>k n. stored (store (rd_server rd)) i k n)"
  shows "\<exists>res rd'. GetInfoFromID srv i rd = Inr (res, rd') \<and> redis_up srv store rd' \<and> store (rd_server rd') = store (rd_server rd) \<and>
    (store (rd_server rd) (account_key i) = None \<longrightarrow> (\<exists>e. res = Inl e))"
  using assms(2)
proof
  assume "store (rd_server rd) (account_key i) = None"
  then show ?thesis using GetInfoFromID_none [OF assms(1)] by metis
next
  assume "\<exists>k n. stored (store (rd_server rd)) i k n"
  then obtain k n where "stored (store (rd_server rd)) i k n" by blast
  then show ?thesis using GetInfoFromID_up [OF assms(1)] unfolding stored_def by (metis option.distinct(1))
qed

text \<open>
  C40. If one of the two players has no session in Redis any more, no game is made and no session added, and yet the match
  server is told 1, the answer of success, so that it sends both players to this server; and the
  timer that was taken for the game stays in the pool, where nothing will ever release it. The usage that the manager
  is shown counts it.
\<close>

theorem battle_transfer_lost:
  assumes "redis_up (en_srv E) store (sv_redis w)" "tp_isRunning (bt_gamepool w)" "g \<notin> set (tp_TimerSet (bt_gamepool w))"
    and "bs_stream (bt_service w)" "l \<noteq> 0" "r \<noteq> 0" "store (rd_server (sv_redis w)) = st"
    and "st (account_key l) = None \<or> (\<exists>k n. stored st l k n)" "st (account_key r) = None \<or> (\<exists>k n. stored st r k n)"
    and "st (account_key l) = None \<or> st (account_key r) = None"
  shows "\<exists>w'. MatchTransfer E g l r w = (Inr (), w') \<and> bt_sessions w' = bt_sessions w \<and> bt_games w' = bt_games w \<and>
     battle_GetUsage w' = battle_GetUsage w + 1 \<and>
     bs_written (bt_service w') = bs_written (bt_service w) @ [1, ucast (of_nat (dm_Size (bt_sessions w)) :: 64 word)]"
proof -
  obtain a rd0 where 0: "GetInfoFromID (en_srv E) l (sv_redis w) = Inr (a, rd0)" "redis_up (en_srv E) store rd0"
    "store (rd_server rd0) = st" "st (account_key l) = None \<longrightarrow> (\<exists>e. a = Inl e)"
    using lookup_run [OF assms(1), of l] assms(7,8) by auto
  obtain b rd1 where 1: "GetInfoFromID (en_srv E) r rd0 = Inr (b, rd1)" "st (account_key r) = None \<longrightarrow> (\<exists>e. b = Inl e)"
    using lookup_run [OF 0(2), of r] 0(3) assms(9) by auto
  let ?w = "w\<lparr>bt_gamepool := (bt_gamepool w)\<lparr>tp_TimerSet := g # tp_TimerSet (bt_gamepool w)\<rparr>, sv_redis := rd1\<rparr>"
  have "(case (a, b) of (Inr (lcookie, _), Inr (rcookie, _)) \<Rightarrow> battle_create E g (l, lcookie) (r, rcookie) | _ \<Rightarrow> battle_report 1) =
      battle_report 1"
    using 0(4) 1(2) assms(10) by (auto split: sum.splits prod.splits)
  then have "MatchTransfer E g l r w = battle_report 1 ?w"
    using assms(2,3,5,6) 0(1) 1(1) by (simp add: MatchTransfer_def GetTimer_def Let_def battle_prepare_def db_bind_def on_redis_throw_def)
  then show ?thesis
    using assms(4) by (simp add: battle_report_def modify_def SetUsage_written battle_GetUsage_def TimerPool_Size_def)
qed

section \<open>A battle server with two players\<close>

text \<open>
  \<open>arena_start\<close> is a battle server that has just started, with the sessions of the accounts 3 and 4 in Redis and a socket for either; in
  \<open>arena a b gm\<close> their game is there, in the state \<open>gm\<close>, with the sockets \<open>a\<close> and \<open>b\<close> in their places.
\<close>

definition arena_store :: rstore where
  "arena_store = [cookie_key cookie3 \<mapsto> RList [idstr 3, battle_name 1], account_key 3 \<mapsto> RStr (cookieStr cookie3),
     cookie_key cookie4 \<mapsto> RList [idstr 4, battle_name 1], account_key 4 \<mapsto> RStr (cookieStr cookie4)]"

definition arena_base :: "(battle_timer, battle_recv, rstore, string option) server" where
  "arena_base = \<lparr>sv_isRunning = True, sv_accepting = True,
     sv_objects = (\<lambda>c. if c < 2 then Some \<lparr>sk_open = True, sk_closing = False, sk_out = [], sk_ttl = 4, sk_timer = None,
        cl_is_open = True, cl_handler = None\<rparr> else None),
     sv_clients = [0, 1], sv_redis = ref_conn\<lparr>rd_server := arena_store\<rparr>, sv_pool = MyPostgresPool [Some True], sv_db = None,
     sv_thrown = [], sv_graceful = False\<rparr>"

definition arena_start :: "(rstore, string option) battle" where
  "arena_start = (MyBattle 1 2000 15000 2000 arena_base)\<lparr>bt_service := ReceiveLoop_open (BattleServiceClient 1)\<rparr>"

definition arena_game :: "nat option \<Rightarrow> nat option \<Rightarrow> game \<Rightarrow> game_info" where
  "arena_game a b gm =
     GameInfo\<lparr>gi_game := gm, gi_timer := \<lparr>tm_wait = Waiting, tm_expires = 2000\<rparr>,
       gi_session := snd (Insert 4 1 b (snd (Insert 3 0 a dm_empty)))\<rparr>"

definition arena :: "nat option \<Rightarrow> nat option \<Rightarrow> game \<Rightarrow> (rstore, string option) battle" where
  "arena a b gm = arena_start\<lparr>
     bt_sessions := snd (Insert 4 cookie4 (Some 0) (snd (Insert 3 cookie3 (Some 0) dm_empty))),
     bt_gamepool := \<lparr>tp_isRunning = True, tp_TimerSet = [0]\<rparr>, bt_games := [0 \<mapsto> arena_game a b gm]\<rparr>"

lemma dm_rel_empty [simp]: "dm_rel dm_empty = {}"
  by (simp add: dm_rel_def dm_empty_def)

lemma arena_fields [simp]:
  "bt_games (arena a b gm) = [0 \<mapsto> arena_game a b gm]" "bt_gamepool (arena a b gm) = \<lparr>tp_isRunning = True, tp_TimerSet = [0]\<rparr>"
  "bt_self_keyword (arena a b gm) = battle_name 1" "sv_redis (arena a b gm) = ref_conn\<lparr>rd_server := arena_store\<rparr>"
  "sv_objects (arena a b gm) = sv_objects arena_base" "sv_pool (arena a b gm) = MyPostgresPool [Some True]"
  "bt_sessions arena_start = dm_empty" "bt_games arena_start = (\<lambda>_. None)" "bt_gamepool arena_start = TimerPool"
  "sv_redis arena_start = ref_conn\<lparr>rd_server := arena_store\<rparr>" "sv_pool arena_start = MyPostgresPool [Some True]"
  "bt_service arena_start = ReceiveLoop_open (BattleServiceClient 1)" "bt_self_keyword arena_start = battle_name 1"
  "sv_objects arena_start = sv_objects arena_base"
  by (simp_all add: arena_def arena_start_def MyBattle_def server.defs battle.defs arena_base_def)

lemma arena_sessions:
  "dm_rel (bt_sessions (arena a b gm)) = {(3, cookie3, Some 0), (4, cookie4, Some 0)}" "dm_wf (bt_sessions (arena a b gm))"
proof -
  have n: "cookie3 \<noteq> cookie4" by (simp add: replicate_eq_replicate)
  show "dm_rel (bt_sessions (arena a b gm)) = {(3, cookie3, Some 0), (4, cookie4, Some 0)}"
    using two_inserts [of dm_empty "3 :: Account_ID_t" 4 cookie3 cookie4 "Some 0"] n unfolding arena_def by simp
  show "dm_wf (bt_sessions (arena a b gm))" by (simp add: arena_def wf_intros)
qed

lemma arena_seats:
  "dm_rel (gi_session (arena_game a b gm)) = {(3, 0, a), (4, 1, b)}" "dm_wf (gi_session (arena_game a b gm))"
  by (auto simp: arena_game_def rel_Insert fst_Insert wf_intros)

lemma arena_ok:
  assumes "wf_game gm"
  shows "game_ok (arena_game a b gm)"
proof -
  have "smap_find i (lrm (gi_session (arena_game a b gm))) = Some side \<Longrightarrow> side = 0 \<or> side = 1" for i side
    by (auto simp: arena_game_def Insert_def dm_empty_def split: if_splits)
  moreover have "length (gi_PlayerInfos (arena_game a b gm)) = 2" "gi_game (arena_game a b gm) = gm"
    by (simp_all add: arena_game_def GameInfo_def)
  ultimately show ?thesis using assms arena_seats(2) unfolding game_ok_def by auto
qed

lemma arena_inv:
  assumes "wf_game gm"
  shows "battle_inv {} (arena a b gm)"
proof -
  have "plays i (arena_game a b gm)" if "i = 3 \<or> i = 4" for i
    using that by (auto simp: plays_def arena_game_def Insert_def dm_empty_def)
  moreover have "tm_wait (gi_timer (arena_game a b gm)) = Waiting" by (simp add: arena_game_def)
  ultimately show ?thesis
    using arena_sessions [of a b gm] arena_ok [OF assms]
    by (auto simp: battle_inv_def held_def driven_def split: if_splits)
qed

lemma arena_redis: "redis_up (en_srv auth_example_env) id (ref_conn\<lparr>rd_server := arena_store\<rparr>)"
  by (simp add: auth_example_env_def redis_up_def redis_ok_ref rd_is_open_def nospace_def)

lemma arena_stored: "stored arena_store 3 cookie3 (battle_name 1)" "stored arena_store 4 cookie4 (battle_name 1)"
  by (simp_all add: stored_def arena_store_def has_session_def replicate_eq_replicate)

text \<open>Witnesses.\<close>

theorem battle_authenticates_witness:
  "\<exists>w' s'. battle_AuthenticateProcess auth_example_env 0 (bq_of_vector True cookie3) (ErrorCode_custom SUCCESS) [] (arena None None MyGame) = (Inr (), w') \<and>
     sv_objects w' 0 = Some s' \<and> cl_handler s' = Some (Battle_Client 3 0 0)"
proof -
  let ?w = "arena None None MyGame"
  obtain s where s: "live 0 ?w s" by (simp add: live_def arena_base_def)
  have h: "has_session (id (rd_server (sv_redis ?w))) 3 cookie3 (bt_self_keyword ?w)" using arena_stored by (simp add: stored_def)
  show ?thesis
    using battle_authenticates [of auth_example_env id ?w 0 s cookie3 3 0 "arena_game None None MyGame" 0 None] arena_inv [OF wf_MyGame] s h
      arena_redis arena_sessions(1) arena_seats(1) by auto
qed

theorem battle_transfer_lost_witness:
  "\<exists>w'. MatchTransfer auth_example_env 0 3 5 arena_start = (Inr (), w') \<and> bt_sessions w' = dm_empty \<and> battle_GetUsage w' = 1 \<and>
     bs_written (bt_service w') = [1, 1, 0]"
proof -
  have "arena_store (account_key 5) = None" "bs_written (ReceiveLoop_open (BattleServiceClient 1)) = [1]"
    by (simp_all add: arena_store_def ReceiveLoop_open_def BattleServiceClient_def SetUsage_def)
  then show ?thesis
    using battle_transfer_lost [of auth_example_env id arena_start 0 3 5 arena_store] arena_redis arena_stored
    by (auto simp: TimerPool_def battle_GetUsage_def TimerPool_Size_def ReceiveLoop_open_def BattleServiceClient_def dm_Size_def dm_empty_def)
qed

text \<open>
  C12. In every reachable state of the battle server, each session belongs to a game in which its account plays, and
  as long as the server runs the timer of that game is in the pool with a wait pending, or with a
  cancelled wait whose handler is about to run. So no session is forgotten: the handler of the timer goes on with the
  game or erases the sessions of both players, also when the database fails. The game keeps the
  invariant of its rules and has a description of both players.
\<close>

theorem battle_invariant:
  assumes "battle_reach E w" "(i, cookie, p) \<in> dm_rel (bt_sessions w)"
  shows "\<exists>g gi. p = Some g \<and> bt_games w g = Some gi \<and> plays i gi \<and> wf_game (gi_game gi) \<and> length (gi_PlayerInfos gi) = 2 \<and>
     (tp_isRunning (bt_gamepool w) \<longrightarrow> g \<in> set (tp_TimerSet (bt_gamepool w)) \<and> tm_wait (gi_timer gi) \<noteq> Idle)"
  using battle_reach_inv [OF assms(1)] assms(2) by (fastforce simp: battle_inv_def held_def driven_def game_ok_def)

theorem battle_invariant_witness:
  "\<exists>g gi. bt_games (snd (MatchTransfer auth_example_env 0 3 4 arena_start)) g = Some gi \<and> plays 3 gi \<and> tm_wait (gi_timer gi) \<noteq> Idle"
proof -
  let ?w = "snd (MatchTransfer auth_example_env 0 3 4 arena_start)"
  have i: "battle_inv {} arena_start" by (simp add: battle_inv_def)
  have p: "pool_ready (en_sql auth_example_env) 0 [] arena_start"
    by (simp add: pool_ready_def auth_example_env_def MyPostgresPool_def one_user_sql_def)
  have g: "GetInfo (en_sql auth_example_env) j d = (Inr (0, 0, 0, 0), d)" for j d
    by (simp add: GetInfo_def db_defs auth_example_env_def one_user_sql_def)
  have "cookie3 \<noteq> cookie4" by (simp add: replicate_eq_replicate)
  then obtain w' gi where w': "MatchTransfer auth_example_env 0 3 4 arena_start = (Inr (), w')"
    "dm_rel (bt_sessions w') = {(3, cookie3, Some 0), (4, cookie4, Some 0)}" "tp_isRunning (bt_gamepool w')"
    using transfer_run [of auth_example_env id arena_start 0 3 4 cookie3 cookie4 "battle_name 1" "battle_name 1" 0 "[]" "(0, 0, 0, 0)" _ "(0, 0, 0, 0)"]
      arena_redis arena_stored i p g
    by (auto simp: TimerPool_def ReceiveLoop_open_def BattleServiceClient_def)
  have "battle_reach auth_example_env ?w" by (intro battle_reach.transfer battle_reach.start) simp_all
  then show ?thesis
    using battle_invariant [of auth_example_env ?w 3 cookie3 "Some 0"] w' by auto
qed

end
