(* ===== verification/BattleResults.thy ===== *)
theory BattleResults
  imports BattleSessions
begin

text \<open>
  The end of a game: what the players are told, where their sessions go, and that nothing of the game stays.
\<close>

section \<open>Messages on the way\<close>

text \<open>
  Every free connection of the pool works. An action \<open>talks\<close> if from such a state it returns, and all that it
  changes is the database, the order of the free connections and what has been sent.
\<close>

definition pool_good :: "'d sql \<Rightarrow> pool \<Rightarrow> bool" where
  "pool_good sql pl \<longleftrightarrow> pl_isRunning pl \<and> pl_waitPool pl \<noteq> [] \<and> (\<forall>p\<in>set (pl_waitPool pl). pl_connectionPool pl ! p = Some True) \<and>
     (\<forall>d. snd (sql_connect sql d))"

definition sent_more :: "(nat \<Rightarrow> ('cb, 'h) client option) \<Rightarrow> (nat \<Rightarrow> ('cb, 'h) client option) \<Rightarrow> bool" where
  "sent_more ob ob' \<longleftrightarrow>
     (\<forall>c. case ob c of None \<Rightarrow> ob' c = None | Some s \<Rightarrow> \<exists>xs. ob' c = Some (s\<lparr>sk_out := sk_out s @ xs\<rparr>))"

definition chatter :: "'d sql \<Rightarrow> ('r, 'd) battle \<Rightarrow> ('r, 'd) battle \<Rightarrow> bool" where
  "chatter sql w w' \<longleftrightarrow> (\<exists>pl d ob. w' = w\<lparr>sv_pool := pl, sv_db := d, sv_objects := ob\<rparr> \<and> pool_good sql pl \<and>
     sent_more (sv_objects w) ob)"

definition talks :: "'d sql \<Rightarrow> (('r, 'd) battle, unit) db \<Rightarrow> bool" where
  "talks sql m \<longleftrightarrow> (\<forall>w. pool_good sql (sv_pool w) \<longrightarrow> (\<exists>w'. m w = (Inr (), w') \<and> chatter sql w w'))"

lemma sent_more_refl: "sent_more ob ob"
proof -
  have "\<exists>xs. Some s = Some (s\<lparr>sk_out := sk_out s @ xs\<rparr>)" for s :: "('a, 'b) client"
    by (rule exI [of _ "[]"]) simp
  then show ?thesis by (simp add: sent_more_def split: option.splits)
qed

lemma sent_more_Some: "sent_more ob ob' \<Longrightarrow> ob c = Some s \<Longrightarrow> \<exists>xs. ob' c = Some (s\<lparr>sk_out := sk_out s @ xs\<rparr>)"
  unfolding sent_more_def by (drule spec [of _ c]) simp

lemma sent_more_None: "sent_more ob ob' \<Longrightarrow> ob c = None \<Longrightarrow> ob' c = None"
  unfolding sent_more_def by (drule spec [of _ c]) simp

lemma sent_more_trans:
  assumes "sent_more a b" "sent_more b c"
  shows "sent_more a c"
  unfolding sent_more_def
proof
  fix x
  show "case a x of None \<Rightarrow> c x = None | Some s \<Rightarrow> \<exists>xs. c x = Some (s\<lparr>sk_out := sk_out s @ xs\<rparr>)"
  proof (cases "a x")
    case None
    then have "b x = None" using assms(1) by (rule sent_more_None [rotated])
    then show ?thesis using None assms(2) by (simp add: sent_more_None)
  next
    case (Some s)
    then obtain xs where "b x = Some (s\<lparr>sk_out := sk_out s @ xs\<rparr>)" using sent_more_Some [OF assms(1)] by blast
    then obtain ys where "c x = Some (s\<lparr>sk_out := (sk_out s @ xs) @ ys\<rparr>)" using sent_more_Some [OF assms(2)] by fastforce
    then show ?thesis using Some by auto
  qed
qed

lemma sent_more_send: "sent_more ob (ob(c := map_option (sk_Send q) (ob c)))"
proof -
  have "\<exists>xs. sk_Send q s = s\<lparr>sk_out := sk_out s @ xs\<rparr>" for s :: "('a, 'b) client"
    by (cases "\<not> sk_open s \<or> sk_closing s") (auto simp: sk_Send_def intro: exI [of _ "[]"])
  moreover have "\<exists>xs. s = s\<lparr>sk_out := sk_out s @ xs\<rparr>" for s :: "('a, 'b) client" by (rule exI [of _ "[]"]) simp
  ultimately show ?thesis by (auto simp: sent_more_def split: option.splits)
qed

lemma chatterI:
  "w' = w\<lparr>sv_pool := pl, sv_db := d, sv_objects := ob\<rparr> \<Longrightarrow> pool_good sql pl \<Longrightarrow> sent_more (sv_objects w) ob \<Longrightarrow> chatter sql w w'"
  unfolding chatter_def by blast

lemma chatter_refl: "pool_good sql (sv_pool w) \<Longrightarrow> chatter sql w w"
  using sent_more_refl [of "sv_objects w"] unfolding chatter_def
  by (intro exI [of _ "sv_pool w"] exI [of _ "sv_db w"] exI [of _ "sv_objects w"]) simp

lemma chatter_trans: "chatter sql a b \<Longrightarrow> chatter sql b c \<Longrightarrow> chatter sql a c"
  unfolding chatter_def using sent_more_trans by fastforce

lemma chatter_good: "chatter sql w w' \<Longrightarrow> pool_good sql (sv_pool w')"
  by (auto simp: chatter_def)

lemma talks_return: "talks sql (db_return ())"
  by (simp add: talks_def db_return_def chatter_refl)

lemma talks_then:
  assumes "talks sql a" "talks sql b"
  shows "talks sql (db_bind a (\<lambda>_. b))"
  unfolding talks_def
proof (intro allI impI)
  fix w :: "('b, 'a) battle"
  assume "pool_good sql (sv_pool w)"
  then obtain w1 where a: "a w = (Inr (), w1)" "chatter sql w w1" using assms(1) by (auto simp: talks_def)
  then obtain w2 where "b w1 = (Inr (), w2)" "chatter sql w1 w2"
    using assms(2) chatter_good [OF a(2)] by (auto simp: talks_def)
  with a show "\<exists>w'. db_bind a (\<lambda>_. b) w = (Inr (), w') \<and> chatter sql w w'" using chatter_trans by (auto simp: db_bind_def)
qed

lemma talks_acts: "(\<And>a. a \<in> set as \<Longrightarrow> talks sql a) \<Longrightarrow> talks sql (acts as)"
  by (induction as) (auto intro: talks_return talks_then)

lemma talks_send: "talks sql (c_Send c q)"
  unfolding talks_def
proof (intro allI impI)
  fix w :: "('b, 'a) battle"
  assume "pool_good sql (sv_pool w)"
  then have "chatter sql w (upd_client c (sk_Send (vector q)) w)"
    using sent_more_send [of "sv_objects w" c "vector q"]
    by (intro chatterI [where pl = "sv_pool w" and d = "sv_db w"]) (simp_all add: upd_client_def)
  then show "\<exists>w'. c_Send c q w = (Inr (), w') \<and> chatter sql w w'" by (simp add: c_Send_def modify_def)
qed

lemma talks_gets: "(\<And>x. talks sql (f x)) \<Longrightarrow> talks sql (db_bind (gets h) f)"
  by (simp add: talks_def db_bind_def gets_def)

lemma talks_send_if: "talks sql (send_if p q)"
  by (cases p) (simp_all add: send_if_def talks_return talks_send)

lemma talks_if: "talks sql m \<Longrightarrow> talks sql n \<Longrightarrow> talks sql (if b then m else n)"
  by simp

section \<open>Statements of the database\<close>

lemma good_ready:
  assumes "pool_good sql (sv_pool w)"
  obtains ptr ptrs where "pool_ready sql ptr ptrs w" "pool_good sql ((sv_pool w)\<lparr>pl_waitPool := ptrs @ [ptr]\<rparr>)"
  using assms by (cases "pl_waitPool (sv_pool w)") (auto simp: pool_good_def pool_ready_def)

text \<open>A statement in a scope of its own, on a pool that is good: \<open>m\<close> is the statement, \<open>f\<close> what follows.\<close>

lemma with_good:
  assumes "pool_good sql (sv_pool w)"
  obtains ptr pl where "pool_good sql (pl\<lparr>pl_waitPool := pl_waitPool pl @ [ptr], pl_used := remove1 ptr (pl_used pl)\<rparr>)"
    "\<And>body. with_connection sql body w =
      (let (r, w') = body (Some ptr) (w\<lparr>sv_pool := pl\<rparr>) in (r, end_connection sql (Some ptr) w'))"
proof -
  obtain ptr ptrs where p: "pool_ready sql ptr ptrs w" "pool_good sql ((sv_pool w)\<lparr>pl_waitPool := ptrs @ [ptr]\<rparr>)"
    using good_ready [OF assms] by blast
  show thesis
    by (rule that [where ptr = ptr and pl = "(sv_pool w)\<lparr>pl_waitPool := ptrs, pl_used := ptr # pl_used (sv_pool w)\<rparr>"])
      (use p with_connection_run [OF p(1)] in simp_all)
qed

lemma achieve_errors:
  "db_AchieveProgress sql i a n d = (Inl e, d') \<Longrightarrow> \<exists>q. e = Pq q" "Achieve sql i a d = (Inl e, d') \<Longrightarrow> \<exists>q. e = Pq q"
  by (auto simp: db_AchieveProgress_def Achieve_def GetAchieve_def db_defs Let_def split: prod.splits sum.splits if_splits)

lemma talks_AchieveProgress:
  fixes E :: "('r, 'd) env"
  shows "talks (en_sql E) (battle_AchieveProgress E i a n socket)"
  unfolding talks_def
proof (intro allI impI)
  fix w :: "('r, 'd) battle"
  assume "pool_good (en_sql E) (sv_pool w)"
  then obtain ptr pl where p: "pool_good (en_sql E) (pl\<lparr>pl_waitPool := pl_waitPool pl @ [ptr], pl_used := remove1 ptr (pl_used pl)\<rparr>)"
    and run: "\<And>body :: nat option \<Rightarrow> (('r, 'd) battle, unit) db. with_connection (en_sql E) body w =
      (let (r, w') = body (Some ptr) (w\<lparr>sv_pool := pl\<rparr>) in (r, end_connection (en_sql E) (Some ptr) w'))"
    using with_good by metis
  let ?m = "if counts_most a then db_AchieveProgress (en_sql E) i a n else if counts_each a then Achieve (en_sql E) i a else db_return False"
  let ?pl = "pl\<lparr>pl_waitPool := pl_waitPool pl @ [ptr], pl_used := remove1 ptr (pl_used pl)\<rparr>"
  let ?opened = "case socket of None \<Rightarrow> False | Some c \<Rightarrow> is_open c w"
  obtain r d where m: "?m (sv_db w) = (r, d)" by fastforce
  have e: "\<exists>q. x = Pq q" if "r = Inl x" for x
    using m that achieve_errors by (auto simp: db_return_def split: if_splits)
  let ?sent = "if r = Inr True \<and> ?opened then upd_client (the socket) (sk_Send (vector (push_word a (code GAME_PLAYER_ACHIEVE)))) w else w"
  have "battle_AchieveProgress E i a n socket w = (Inr (), ?sent\<lparr>sv_db := sql_end (en_sql E) d, sv_pool := ?pl\<rparr>)"
    using m e by (cases r; cases socket)
      (auto simp: battle_AchieveProgress_def run run_defs end_connection_def release_def catchable_def send_if_def upd_client_def
        is_open_def split: if_splits)
  moreover have "chatter (en_sql E) w (?sent\<lparr>sv_db := sql_end (en_sql E) d, sv_pool := ?pl\<rparr>)"
    using p by (intro chatterI [where pl = ?pl and d = "sql_end (en_sql E) d" and ob = "sv_objects ?sent"])
      (auto simp: upd_client_def sent_more_send sent_more_refl)
  ultimately show "\<exists>w'. battle_AchieveProgress E i a n socket w = (Inr (), w') \<and> chatter (en_sql E) w w'" by blast
qed

section \<open>The last round\<close>

lemma chatter_frame:
  assumes "chatter sql w w'"
  shows "bt_games w' = bt_games w" "bt_sessions w' = bt_sessions w" "bt_gamepool w' = bt_gamepool w" "sv_redis w' = sv_redis w"
    "bt_self_keyword w' = bt_self_keyword w" "sent_more (sv_objects w) (sv_objects w')"
  using assms by (auto simp: chatter_def)

lemma chatter_games: "chatter sql w w' \<Longrightarrow> chatter sql (w\<lparr>bt_games := gs\<rparr>) (w'\<lparr>bt_games := gs\<rparr>)"
  unfolding chatter_def by (elim exE conjE, rename_tac pl d ob, rule_tac x = pl in exI, rule_tac x = d in exI, rule_tac x = ob in exI) simp

lemma chatter_lock: "chatter sql w w' \<Longrightarrow> lock p w' = lock p w"
  using chatter_frame(6) [of sql w w'] sent_more_Some sent_more_None by (fastforce simp: lock_def split: option.splits)

lemma game_players:
  assumes "game_ok gi"
  shows "set (fst (gi_players gi)) = dm_rel (gi_session gi)" "(k, side, p) \<in> dm_rel (gi_session gi) \<Longrightarrow> side = 0 \<or> side = 1"
  using assms GetAll_rel [of "gi_session gi" 0] by (auto simp: game_ok_def gi_players_def case_prod_beta dm_rel_def)

lemma talks_send_round:
  assumes "side = 0 \<or> side = 1"
  shows "talks sql (send_round msg gm (k, side, weak))"
proof -
  obtain mo where "of_side (round_results gm) side = Inr mo" using assms by (auto simp: of_side_def round_results_def)
  then have "talks sql (db_bind (db_lift (of_side (round_results gm) side)) (\<lambda>(mine, other). c_Send c (bq_add (bq_add q mine) other)))" for c q
    using talks_send [of sql c] by (simp add: talks_def db_bind_def db_lift_def case_prod_beta)
  then show ?thesis
    unfolding send_round_def prod.case by (intro talks_gets) (auto intro: talks_return split: option.splits)
qed

lemma talksD: "talks sql m \<Longrightarrow> pool_good sql (sv_pool w) \<Longrightarrow> \<exists>w'. m w = (Inr (), w') \<and> chatter sql w w'"
  by (simp add: talks_def)

lemma round_messages:
  fixes w :: "('r, 'd) battle"
  assumes "bt_games w g = Some gi" "game_ok gi" "pool_good sql (sv_pool w)"
  shows "\<exists>w'. SendRoundResult msg g w = (Inr (), w') \<and> chatter sql w w'"
proof -
  have "talks sql (send_round msg (gi_game gi) pl :: (('r, 'd) battle, unit) db)" if "pl \<in> set (fst (gi_players gi))" for pl
  proof -
    obtain k side weak where pl: "pl = (k, side, weak)" by (cases pl) auto
    have "side = 0 \<or> side = 1" using that game_players [OF assms(2)] unfolding pl by auto
    then show ?thesis unfolding pl by (rule talks_send_round)
  qed
  then have "talks sql (acts (map (send_round msg (gi_game gi)) (fst (gi_players gi))) :: (('r, 'd) battle, unit) db)" by (intro talks_acts) auto
  moreover have "SendRoundResult msg g w = acts (map (send_round msg (gi_game gi)) (fst (gi_players gi))) w"
    using assms(1) step_players [OF assms(2)]
    by (simp add: SendRoundResult_def db_bind_def [of "in_game _ _"] in_game_run fun_upd_idem)
  ultimately show ?thesis using talksD assms(3) by fastforce
qed

definition no_achievements :: "game_info \<Rightarrow> game_info" where
  "no_achievements gi = gi\<lparr>gi_game := (gi_game gi)\<lparr>Achievements := []\<rparr>\<rparr>"

lemma achievements_run:
  assumes "bt_games w g = Some gi" "game_ok gi" "pool_good (en_sql E) (sv_pool w)" "length (Achievements (gi_game gi)) = n"
  shows "\<exists>w'. battle_achievements E g (Suc n) w = (Inr (), w') \<and>
    chatter (en_sql E) (w\<lparr>bt_games := (bt_games w)(g \<mapsto> no_achievements gi)\<rparr>) w'"
  using assms
proof (induction n arbitrary: w gi)
  case 0
  then have "Achievements (gi_game gi) = []" by simp
  then have "gi_GetAchievement gi = (None, gi)" "no_achievements gi = gi"
    by (simp_all add: gi_GetAchievement_def GetAchievement_def no_achievements_def)
  then show ?case
    using 0 by (simp add: db_bind_def in_game_run db_return_def fun_upd_idem chatter_refl)
next
  case (Suc n)
  then obtain side a cnt q where q: "Achievements (gi_game gi) = (side, a, cnt) # q" by (cases "Achievements (gi_game gi)") auto
  let ?gi = "gi\<lparr>gi_game := (gi_game gi)\<lparr>Achievements := q\<rparr>\<rparr>"
  let ?w = "w\<lparr>bt_games := (bt_games w)(g \<mapsto> ?gi)\<rparr>"
  have get: "gi_GetAchievement gi = (Some (side, a, cnt), ?gi)" by (simp add: gi_GetAchievement_def GetAchievement_def q)
  have ok: "game_ok ?gi" using Suc.prems(2) wf_GetAchievement [of "gi_game gi"] by (simp add: game_ok_def GetAchievement_def q)
  obtain i p where bs: "battle_side g side ?w = (Inr (i, p), ?w)"
    using battle_side_run [of ?w g ?gi side] ok by simp
  obtain w1 where ach: "battle_AchieveProgress E i a cnt p ?w = (Inr (), w1)" "chatter (en_sql E) ?w w1"
    using talks_AchieveProgress [of E i a cnt p, THEN talksD, of ?w] Suc.prems(3) by auto
  have g1: "bt_games w1 g = Some ?gi" using chatter_frame(1) [OF ach(2)] by simp
  have len: "length (Achievements (gi_game ?gi)) = n" using Suc.prems(4) q by simp
  obtain w2 where rest: "battle_achievements E g (Suc n) w1 = (Inr (), w2)"
    "chatter (en_sql E) (w1\<lparr>bt_games := (bt_games w1)(g \<mapsto> no_achievements ?gi)\<rparr>) w2"
    using Suc.IH [OF g1 ok chatter_good [OF ach(2)] len] by blast
  have "battle_achievements E g (Suc (Suc n)) w = (Inr (), w2)"
    unfolding battle_achievements.simps(2) [of E g "Suc n"]
    using Suc.prems(1) get bs ach(1) rest(1)
    by (simp add: db_bind_def [of "in_game _ _"] in_game_run db_bind_def [of "battle_side _ _"]
        db_bind_def [of "battle_AchieveProgress _ _ _ _ _"] db_bind_def [of "battle_achievements _ _ _"] db_return_def
        del: battle_achievements.simps)
  moreover have "chatter (en_sql E) (w\<lparr>bt_games := (bt_games w)(g \<mapsto> no_achievements gi)\<rparr>) w2"
  proof -
    have n: "no_achievements ?gi = no_achievements gi" by (simp add: no_achievements_def)
    have "chatter (en_sql E) (?w\<lparr>bt_games := (bt_games w)(g \<mapsto> no_achievements gi)\<rparr>) (w1\<lparr>bt_games := (bt_games w)(g \<mapsto> no_achievements gi)\<rparr>)"
      using ach(2) by (rule chatter_games)
    then show ?thesis
      using rest(2) chatter_frame(1) [OF ach(2)] unfolding n by (auto intro: chatter_trans)
  qed
  ultimately show ?case by blast
qed

lemma round_run:
  assumes "bt_games w g = Some gi" "game_ok gi" "pool_good (en_sql E) (sv_pool w)" "process (gi_game gi) = (b, gm)"
  shows "\<exists>w'. battle_round E g w = (Inr b, w') \<and>
    chatter (en_sql E) (w\<lparr>bt_games := (bt_games w)(g \<mapsto> no_achievements (gi\<lparr>gi_game := gm\<rparr>))\<rparr>) w'"
proof -
  let ?gi = "gi\<lparr>gi_game := gm\<rparr>"
  let ?w = "w\<lparr>bt_games := (bt_games w)(g \<mapsto> ?gi)\<rparr>"
  have ok: "game_ok ?gi" using assms(2,4) wf_process [of "gi_game gi"] by (simp add: game_ok_def)
  obtain w1 where m: "SendRoundResult GAME_ROUND_RESULT g ?w = (Inr (), w1)" "chatter (en_sql E) ?w w1"
    using round_messages [of ?w g ?gi "en_sql E"] ok assms(3) by auto
  have g1: "bt_games w1 = (bt_games w)(g \<mapsto> ?gi)" using chatter_frame(1) [OF m(2)] by simp
  obtain w2 where a: "battle_achievements E g (Suc (length (Achievements gm))) w1 = (Inr (), w2)"
    "chatter (en_sql E) (w1\<lparr>bt_games := (bt_games w1)(g \<mapsto> no_achievements ?gi)\<rparr>) w2"
    using achievements_run [of w1 g ?gi E "length (Achievements gm)"] g1 ok chatter_good [OF m(2)]
    by (auto simp del: battle_achievements.simps)
  have read: "in_game g (\<lambda>gi. (length (Achievements (gi_game gi)), gi)) w1 = (Inr (length (Achievements gm)), w1)"
    using in_game_read [of w1 g ?gi "\<lambda>gi. length (Achievements (gi_game gi))"] g1 by simp
  have proc: "in_game g gi_process w = (Inr b, ?w)"
    using assms(1,4) by (simp add: in_game_run gi_process_def)
  have "battle_round E g w = (Inr b, w2)"
    unfolding battle_round_def
    by (simp add: db_bind_def [of "in_game _ gi_process"] proc db_bind_def [of "SendRoundResult _ _"] m(1)
        db_bind_def [of "in_game _ _"] read db_bind_def [of "battle_achievements _ _ _"] a(1) db_return_def del: battle_achievements.simps)
  moreover have "chatter (en_sql E) (w\<lparr>bt_games := (bt_games w)(g \<mapsto> no_achievements ?gi)\<rparr>) w2"
    using chatter_games [OF m(2), of "(bt_games w)(g \<mapsto> no_achievements ?gi)"] a(2) g1 by (auto intro: chatter_trans)
  ultimately show ?thesis by blast
qed

section \<open>The end\<close>

definition archives :: "'d sql \<Rightarrow> bool" where
  "archives sql \<longleftrightarrow> (\<forall>a b f d. \<exists>d'. insert_battle sql a b f d = (Inr (), d')) \<and> (\<forall>d. \<exists>d'. sql_commit sql d = (Inr (), d'))"

lemma talks_archive:
  fixes E :: "('r, 'd) env"
  assumes "archives (en_sql E)"
  shows "talks (en_sql E) (battle_archive E winner crashed ps)"
  unfolding talks_def
proof (intro allI impI)
  fix w :: "('r, 'd) battle"
  assume "pool_good (en_sql E) (sv_pool w)"
  then obtain ptr pl where p: "pool_good (en_sql E) (pl\<lparr>pl_waitPool := pl_waitPool pl @ [ptr], pl_used := remove1 ptr (pl_used pl)\<rparr>)"
    and run: "\<And>body :: nat option \<Rightarrow> (('r, 'd) battle, unit) db. with_connection (en_sql E) body w =
      (let (r, w') = body (Some ptr) (w\<lparr>sv_pool := pl\<rparr>) in (r, end_connection (en_sql E) (Some ptr) w'))"
    using with_good by metis
  let ?pl = "pl\<lparr>pl_waitPool := pl_waitPool pl @ [ptr], pl_used := remove1 ptr (pl_used pl)\<rparr>"
  define m where "m = (if winner < 0 then ArchiveBattle (en_sql E) (fst (ps ! 0)) (fst (ps ! 1)) True crashed
     else ArchiveBattle (en_sql E) (fst (ps ! nat winner)) (fst (ps ! nat (1 - winner))) False crashed)"
  obtain d1 where d1: "m (sv_db w) = (Inr (), d1)"
  proof -
    have "\<exists>d1. ArchiveBattle (en_sql E) a b x y (sv_db w) = (Inr (), d1)" for a b x y
    proof -
      obtain d' where "insert_battle (en_sql E) a b ((if x then 2 else 0) + (if y then 1 else 0)) (sv_db w) = (Inr (), d')"
        using assms unfolding archives_def by blast
      then show ?thesis by (auto simp: ArchiveBattle_def exec_def Let_def)
    qed
    then have "\<exists>d1. m (sv_db w) = (Inr (), d1)" unfolding m_def by (cases "winner < 0") auto
    then show thesis using that by blast
  qed
  obtain d2 where d2: "sql_commit (en_sql E) d1 = (Inr (), d2)" using assms unfolding archives_def by blast
  have "battle_archive E winner crashed ps w = (Inr (), w\<lparr>sv_db := sql_end (en_sql E) d2, sv_pool := ?pl\<rparr>)"
    using d1 d2 unfolding m_def
    by (cases "winner < 0") (simp_all add: battle_archive_def run run_defs end_connection_def release_def)
  moreover have "chatter (en_sql E) w (w\<lparr>sv_db := sql_end (en_sql E) d2, sv_pool := ?pl\<rparr>)"
    using p sent_more_refl
    by (intro chatterI [where pl = ?pl and d = "sql_end (en_sql E) d2" and ob = "sv_objects w"]) auto
  ultimately show "\<exists>w'. battle_archive E winner crashed ps w = (Inr (), w') \<and> chatter (en_sql E) w w'" by blast
qed

text \<open>A player whose socket is open leaves the server.\<close>

lemma leave_run:
  assumes "redis_up (en_srv E) store (sv_redis w)" "dm_wf (bt_sessions w)" "(i, k, p) \<in> dm_rel (bt_sessions w)"
    and "sv_objects w c = Some s" "cl_is_open s"
  shows "\<exists>rd. battle_leave E b (i, Some c) w =
      (Inr (), told b c (w\<lparr>bt_sessions := snd (EraseLKey None i (bt_sessions w)), sv_redis := rd\<rparr>)) \<and>
    redis_up (en_srv E) store rd \<and> store (rd_server rd) = (store (rd_server (sv_redis w)))
      (cookie_key k \<mapsto> RList [idstr i, keyword_match], account_key i \<mapsto> RStr (cookieStr k))"
proof -
  have "nospace keyword_match" by (simp add: nospace_def keyword_match_def)
  then obtain rd where r: "SetInfo (en_srv E) i k keyword_match (sv_redis w) = (ErrorCode_custom SUCCESS, rd)"
    "redis_up (en_srv E) store rd" "store (rd_server rd) = (store (rd_server (sv_redis w)))
      (cookie_key k \<mapsto> RList [idstr i, keyword_match], account_key i \<mapsto> RStr (cookieStr k))"
    using SetInfo_up [OF assms(1)] by metis
  have "smap_find i (lrm (bt_sessions w)) = Some k" "smap_find i (kvm (bt_sessions w)) = Some p"
    using assms(3) by (auto simp: dm_rel_def)
  then have e: "fst (EraseLKey None i (bt_sessions w)) = Some (i, k, p)"
    using EraseLKey_wf [OF assms(2), of i k None] by simp
  have "battle_leave E b (i, Some c) w =
      (Inr (), told b c (w\<lparr>bt_sessions := snd (EraseLKey None i (bt_sessions w)), sv_redis := rd\<rparr>))"
    using e r(1) assms(4,5)
    by (simp add: battle_leave_def db_bind_def bt_on_sessions_def case_prod_beta gets_def is_open_def drop_result_def on_redis_def
        c_Send_def c_Close_def modify_def db_return_def told_def)
  with r show ?thesis by blast
qed

lemma acts_talk: "talks sql a \<Longrightarrow> pool_good sql (sv_pool w) \<Longrightarrow> \<exists>w'. acts (a # as) w = acts as w' \<and> chatter sql w w'"
  using talksD [of sql a w] by (auto simp: db_bind_def)

lemma conclude_run:
  assumes "archives (en_sql E)" "pool_good (en_sql E) (sv_pool w)"
  shows "\<exists>w'. battle_conclude E winner crashed ps w =
      acts [battle_leave E (gameresult winner crashed 0) (ps ! 0), battle_leave E (gameresult winner crashed 1) (ps ! 1)] w' \<and>
    chatter (en_sql E) w w'"
proof -
  let ?L = "[battle_leave E (gameresult winner crashed 0) (ps ! 0), battle_leave E (gameresult winner crashed 1) (ps ! 1)]"
  let ?A = "if winner < 0 \<and> \<not> crashed
        then acts (map (\<lambda>(i, socket). battle_AchieveProgress E i ACHIEVE_AREYAWINNINGSON 1 socket) ps) else db_return ()"
  let ?C = "if winner < 0 then db_return ()
        else acts (map (\<lambda>a. battle_AchieveProgress E (fst (ps ! nat winner)) a 1 (snd (ps ! nat winner)))
               [ACHIEVE_NOIVE, ACHIEVE_CHALLENGER, ACHIEVE_DOMINATOR, ACHIEVE_SLAYER, ACHIEVE_CONQUERER])"
  have A: "talks (en_sql E) ?A" by (rule talks_if) (auto intro!: talks_acts talks_AchieveProgress talks_return)
  have C: "talks (en_sql E) ?C"
    by (rule talks_if [OF talks_return talks_acts]) (use talks_AchieveProgress in fastforce)
  obtain w1 where 1: "acts (?A # battle_archive E winner crashed ps # ?C # ?L) w = acts (battle_archive E winner crashed ps # ?C # ?L) w1"
    "chatter (en_sql E) w w1" using acts_talk [OF A assms(2)] by blast
  obtain w2 where 2: "acts (battle_archive E winner crashed ps # ?C # ?L) w1 = acts (?C # ?L) w2" "chatter (en_sql E) w1 w2"
    using acts_talk [OF talks_archive [OF assms(1)] chatter_good [OF 1(2)]] by blast
  obtain w3 where 3: "acts (?C # ?L) w2 = acts ?L w3" "chatter (en_sql E) w2 w3"
    using acts_talk [OF C chatter_good [OF 2(2)]] by blast
  show ?thesis
    unfolding battle_conclude_def using 1 2 3 chatter_trans by (metis (no_types, lifting))
qed

text \<open>A player of the game \<open>g\<close>: side, account, cookie and a working socket.\<close>

definition seated ::
  "('r, 'd) battle \<Rightarrow> nat \<Rightarrow> Account_ID_t \<Rightarrow> Hash_t \<Rightarrow> nat \<Rightarrow> (battle_timer, battle_recv) client \<Rightarrow> bool" where
  "seated w g i k c s \<longleftrightarrow> (i, k, Some g) \<in> dm_rel (bt_sessions w) \<and> live c w s \<and> cl_is_open s"

lemma seated_chatter:
  assumes "seated w g i k c s" "chatter sql w w'"
  shows "\<exists>xs. seated w' g i k c (s\<lparr>sk_out := sk_out s @ xs\<rparr>)"
proof -
  obtain xs where "sv_objects w' c = Some (s\<lparr>sk_out := sk_out s @ xs\<rparr>)"
    using assms sent_more_Some [OF chatter_frame(6) [OF assms(2)]] by (auto simp: seated_def live_def)
  then show ?thesis using assms chatter_frame(2) [OF assms(2)] by (auto simp: seated_def live_def)
qed

lemma leaves_run:
  assumes "redis_up (en_srv E) store (sv_redis w)" "dm_wf (bt_sessions w)"
    and "seated w g i0 k0 c0 s0" "seated w g i1 k1 c1 s1" "i0 \<noteq> i1" "c0 \<noteq> c1"
  shows "\<exists>w' t0 t1. acts [battle_leave E a (i0, Some c0), battle_leave E b (i1, Some c1)] w = (Inr (), w') \<and>
    sv_objects w' c0 = Some t0 \<and> sk_out t0 = sk_out s0 @ [[a]] \<and> sk_closing t0 \<and>
    sv_objects w' c1 = Some t1 \<and> sk_out t1 = sk_out s1 @ [[b]] \<and> sk_closing t1 \<and> redis_up (en_srv E) store (sv_redis w') \<and>
    store (rd_server (sv_redis w')) = put_session i1 k1 keyword_match (put_session i0 k0 keyword_match (store (rd_server (sv_redis w)))) \<and>
    bt_sessions w' = snd (EraseLKey None i1 (snd (EraseLKey None i0 (bt_sessions w)))) \<and> bt_gamepool w' = bt_gamepool w"
proof -
  obtain rd0 where 0: "battle_leave E a (i0, Some c0) w =
      (Inr (), told a c0 (w\<lparr>bt_sessions := snd (EraseLKey None i0 (bt_sessions w)), sv_redis := rd0\<rparr>))"
    "redis_up (en_srv E) store rd0" "store (rd_server rd0) = (store (rd_server (sv_redis w)))
      (cookie_key k0 \<mapsto> RList [idstr i0, keyword_match], account_key i0 \<mapsto> RStr (cookieStr k0))"
    using leave_run [OF assms(1,2), of i0 k0 "Some g" c0 s0 a] assms(3) by (auto simp: seated_def live_def)
  let ?w = "told a c0 (w\<lparr>bt_sessions := snd (EraseLKey None i0 (bt_sessions w)), sv_redis := rd0\<rparr>)"
  have wf: "dm_wf (bt_sessions ?w)" using assms(2) by (simp add: dm_wf_EraseLKey)
  have s1: "seated ?w g i1 k1 c1 s1" using assms by (simp add: seated_def live_def rel_EraseLKey)
  obtain rd1 where 1: "battle_leave E b (i1, Some c1) ?w =
      (Inr (), told b c1 (?w\<lparr>bt_sessions := snd (EraseLKey None i1 (bt_sessions ?w)), sv_redis := rd1\<rparr>))"
    "redis_up (en_srv E) store rd1" "store (rd_server rd1) = (store (rd_server rd0))
      (cookie_key k1 \<mapsto> RList [idstr i1, keyword_match], account_key i1 \<mapsto> RStr (cookieStr k1))"
    using leave_run [of E store ?w i1 k1 "Some g" c1 s1 b] wf s1 0(2) by (auto simp: seated_def live_def)
  let ?w' = "told b c1 (?w\<lparr>bt_sessions := snd (EraseLKey None i1 (bt_sessions ?w)), sv_redis := rd1\<rparr>)"
  have "\<exists>t0. sv_objects ?w' c0 = Some t0 \<and> sk_out t0 = sk_out s0 @ [[a]] \<and> sk_closing t0"
    using told_live [of c0 "w\<lparr>bt_sessions := snd (EraseLKey None i0 (bt_sessions w)), sv_redis := rd0\<rparr>" s0 a] assms(3,6)
    by (simp add: seated_def live_def)
  moreover have "\<exists>t1. sv_objects ?w' c1 = Some t1 \<and> sk_out t1 = sk_out s1 @ [[b]] \<and> sk_closing t1"
    using told_live [of c1 "?w\<lparr>bt_sessions := snd (EraseLKey None i1 (bt_sessions ?w)), sv_redis := rd1\<rparr>" s1 b] s1
    by (simp add: seated_def live_def)
  moreover have "acts [battle_leave E a (i0, Some c0), battle_leave E b (i1, Some c1)] w = (Inr (), ?w')"
    using 0(1) 1(1) by (simp add: db_bind_def db_return_def)
  ultimately show ?thesis using 0(3) 1(2,3) by auto
qed

lemma side_of:
  assumes "game_ok gi" "(i, side, p) \<in> dm_rel (gi_session gi)"
  shows "fst (gi_of_side side gi) = (i, p)"
proof -
  have wf: "dm_wf (gi_session gi)" using assms(1) by (simp add: game_ok_def)
  have "fst (FindRKey None side (gi_session gi)) = Some (i, p)" using findr_rel [OF wf] assms(2) by blast
  then show ?thesis by (simp add: gi_of_side_def case_prod_beta)
qed

lemma db_bind_return: "db_bind (db_return x) f w = f x w"
  by (simp add: db_bind_def db_return_def)

lemma over_ends:
  assumes "redis_up (en_srv E) store (sv_redis w)" "dm_wf (bt_sessions w)" "bt_games w g = Some gi" "game_ok gi"
    and "(i0, 0, Some c0) \<in> dm_rel (gi_session gi)" "(i1, 1, Some c1) \<in> dm_rel (gi_session gi)"
    and "seated w g i0 k0 c0 s0" "seated w g i1 k1 c1 s1" "i0 \<noteq> i1" "c0 \<noteq> c1"
    and "archives (en_sql E)" "pool_good (en_sql E) (sv_pool w)"
  shows "\<exists>w' t0 t1 xs0 xs1. battle_over E g allin w = (Inr (), w') \<and>
    sv_objects w' c0 = Some t0 \<and> sk_out t0 = sk_out s0 @ xs0 @ [[gameresult (GetWinner (gi_game gi)) (\<not> allin) 0]] \<and> sk_closing t0 \<and>
    sv_objects w' c1 = Some t1 \<and> sk_out t1 = sk_out s1 @ xs1 @ [[gameresult (GetWinner (gi_game gi)) (\<not> allin) 1]] \<and> sk_closing t1 \<and>
    redis_up (en_srv E) store (sv_redis w') \<and>
    store (rd_server (sv_redis w')) = put_session i1 k1 keyword_match (put_session i0 k0 keyword_match (store (rd_server (sv_redis w)))) \<and>
    dm_rel (bt_sessions w') = {e \<in> dm_rel (bt_sessions w). fst e \<noteq> i0 \<and> fst e \<noteq> i1} \<and>
    bt_gamepool w' = ReleaseTimer g (bt_gamepool w)"
proof -
  let ?win = "GetWinner (gi_game gi)" and ?ps = "[(i0, Some c0), (i1, Some c1)]"
  obtain w1 where c: "battle_conclude E ?win (\<not> allin) ?ps w =
      acts [battle_leave E (gameresult ?win (\<not> allin) 0) (i0, Some c0), battle_leave E (gameresult ?win (\<not> allin) 1) (i1, Some c1)] w1"
    "chatter (en_sql E) w w1"
    using conclude_run [OF assms(11,12), of ?win "\<not> allin" ?ps] by auto
  note f = chatter_frame [OF c(2)]
  obtain xs0 xs1 where s: "seated w1 g i0 k0 c0 (s0\<lparr>sk_out := sk_out s0 @ xs0\<rparr>)" "seated w1 g i1 k1 c1 (s1\<lparr>sk_out := sk_out s1 @ xs1\<rparr>)"
    using seated_chatter [OF _ c(2)] assms(7,8) by blast
  obtain w2 t0 t1 where l: "acts [battle_leave E (gameresult ?win (\<not> allin) 0) (i0, Some c0), battle_leave E (gameresult ?win (\<not> allin) 1) (i1, Some c1)] w1 = (Inr (), w2)"
    "sv_objects w2 c0 = Some t0" "sk_out t0 = (sk_out s0 @ xs0) @ [[gameresult ?win (\<not> allin) 0]]" "sk_closing t0"
    "sv_objects w2 c1 = Some t1" "sk_out t1 = (sk_out s1 @ xs1) @ [[gameresult ?win (\<not> allin) 1]]" "sk_closing t1"
    "redis_up (en_srv E) store (sv_redis w2)"
    "store (rd_server (sv_redis w2)) = put_session i1 k1 keyword_match (put_session i0 k0 keyword_match (store (rd_server (sv_redis w))))"
    "bt_sessions w2 = snd (EraseLKey None i1 (snd (EraseLKey None i0 (bt_sessions w))))" "bt_gamepool w2 = bt_gamepool w"
    using leaves_run [OF _ _ s assms(9,10), of E store "gameresult ?win (\<not> allin) 0" "gameresult ?win (\<not> allin) 1"] assms(1,2) f by auto
  have lk: "lock (Some c0) w = Some c0" "lock (Some c1) w = Some c1" using assms(7,8) by (simp_all add: lock_def seated_def live_def)
  have "battle_over E g allin w = (Inr (), battle_clean g i0 i1 w2)"
    using c(1) l(1) lk
    unfolding battle_over_def bind_side [OF assms(3,4)] side_of [OF assms(4,5)] side_of [OF assms(4,6)] fst_conv snd_conv
    by (simp add: db_bind_def [of "db_catch _ _"] db_catch_def db_bind_def [of "in_game _ _"] in_game_read [OF assms(3)]
        db_bind_def [of "battle_conclude _ _ _ _"] db_return_def db_bind_modify db_bind_drop db_bind_return battle_clean_def)
  moreover have "dm_rel (bt_sessions (battle_clean g i0 i1 w2)) = {e \<in> dm_rel (bt_sessions w). fst e \<noteq> i0 \<and> fst e \<noteq> i1}"
    using assms(2) by (auto simp: battle_clean_def l(10) rel_EraseLKey wf_intros)
  ultimately show ?thesis
    using l by (intro exI [of _ "battle_clean g i0 i1 w2"] exI [of _ t0] exI [of _ t1] exI [of _ xs0] exI [of _ xs1])
      (simp add: battle_clean_def)
qed

text \<open>The whole handler of the timer whose round ends the game.\<close>

lemma game_ends_run:
  assumes "redis_up (en_srv E) store (sv_redis w)" "battle_inv {} w" "bt_games w g = Some gi"
    and "dm_rel (gi_session gi) = {(i0, 0, Some c0), (i1, 1, Some c1)}"
    and "seated w g i0 k0 c0 s0" "seated w g i1 k1 c1 s1" "i0 \<noteq> i1" "c0 \<noteq> c1"
    and "archives (en_sql E)" "pool_good (en_sql E) (sv_pool w)" "process (gi_game gi) = (True, gm)"
  shows "\<exists>w' t0 t1 xs0 xs1. battle_wait_ends E g False w = (Inr (), w') \<and> battle_inv {} w' \<and>
    sv_objects w' c0 = Some t0 \<and> sk_out t0 = sk_out s0 @ xs0 @ [[gameresult (GetWinner gm) False 0]] \<and> sk_closing t0 \<and>
    sv_objects w' c1 = Some t1 \<and> sk_out t1 = sk_out s1 @ xs1 @ [[gameresult (GetWinner gm) False 1]] \<and> sk_closing t1 \<and>
    redis_up (en_srv E) store (sv_redis w') \<and>
    store (rd_server (sv_redis w')) = put_session i1 k1 keyword_match (put_session i0 k0 keyword_match (store (rd_server (sv_redis w)))) \<and>
    dm_rel (bt_sessions w') = {e \<in> dm_rel (bt_sessions w). fst e \<noteq> i0 \<and> fst e \<noteq> i1} \<and>
    bt_gamepool w' = ReleaseTimer g (bt_gamepool w)"
proof -
  let ?gi = "gi\<lparr>gi_timer := (gi_timer gi)\<lparr>tm_wait := Idle\<rparr>\<rparr>"
  let ?w0 = "w\<lparr>bt_games := (bt_games w)(g \<mapsto> ?gi)\<rparr>"
  let ?gi1 = "?gi\<lparr>gi_Previous_AllIn := True\<rparr>"
  let ?w1 = "w\<lparr>bt_games := (bt_games w)(g \<mapsto> ?gi1)\<rparr>"
  have ok: "game_ok gi" using battle_inv_game [OF assms(2,3)] .
  then have ok0: "game_ok ?gi" "game_ok ?gi1" by (simp_all add: game_ok_def)
  have lk: "lock (Some c0) ?w0 = Some c0" "lock (Some c1) ?w0 = Some c1" "is_open c0 ?w0" "is_open c1 ?w0"
    using assms(5,6) by (simp_all add: lock_def seated_def live_def is_open_def)
  have "isAllIn ?w0 ?gi = (True, ?gi)"
    using step_isAllIn [OF ok0(1), of ?w0] game_players(1) [OF ok0(1)] assms(4) lk
    by (auto simp: isAllIn_def list_all_iff case_prod_beta prod_eq_iff)
  then have allin: "battle_allin g ?w0 = (Inr (gi_Previous_AllIn gi, True), ?w1)"
    by (simp add: battle_allin_def on_game_def)
  let ?gi2 = "no_achievements (?gi1\<lparr>gi_game := gm\<rparr>)"
  let ?w2 = "w\<lparr>bt_games := (bt_games w)(g \<mapsto> ?gi2)\<rparr>"
  obtain w3 where r: "battle_round E g ?w1 = (Inr True, w3)" "chatter (en_sql E) ?w2 w3"
    using round_run [of ?w1 g ?gi1 E True gm] ok0(2) assms(10,11) by auto
  note f = chatter_frame [OF r(2)]
  have ok2: "game_ok ?gi2" using wf_process [of "gi_game gi"] ok assms(11) by (simp add: no_achievements_def game_ok_def wf_game_def)
  have win: "GetWinner (gi_game ?gi2) = GetWinner gm" by (simp add: no_achievements_def GetWinner_def)
  have sess: "gi_session ?gi2 = gi_session gi" by (simp add: no_achievements_def)
  have s2: "seated ?w2 g i0 k0 c0 s0" "seated ?w2 g i1 k1 c1 s1" using assms(5,6) by (simp_all add: seated_def live_def)
  obtain xs0 xs1 where s: "seated w3 g i0 k0 c0 (s0\<lparr>sk_out := sk_out s0 @ xs0\<rparr>)" "seated w3 g i1 k1 c1 (s1\<lparr>sk_out := sk_out s1 @ xs1\<rparr>)"
    using seated_chatter [OF _ r(2)] s2 by blast
  obtain w4 t0 t1 ys0 ys1 where o: "battle_over E g True w3 = (Inr (), w4)"
    "sv_objects w4 c0 = Some t0" "sk_out t0 = (sk_out s0 @ xs0) @ ys0 @ [[gameresult (GetWinner gm) False 0]]" "sk_closing t0"
    "sv_objects w4 c1 = Some t1" "sk_out t1 = (sk_out s1 @ xs1) @ ys1 @ [[gameresult (GetWinner gm) False 1]]" "sk_closing t1"
    "redis_up (en_srv E) store (sv_redis w4)"
    "store (rd_server (sv_redis w4)) = put_session i1 k1 keyword_match (put_session i0 k0 keyword_match (store (rd_server (sv_redis w))))"
    "dm_rel (bt_sessions w4) = {e \<in> dm_rel (bt_sessions w). fst e \<noteq> i0 \<and> fst e \<noteq> i1}" "bt_gamepool w4 = ReleaseTimer g (bt_gamepool w)"
    using over_ends [OF _ _ _ ok2 _ _ s assms(7,8,9) chatter_good [OF r(2)], of store True] f sess assms(1,4) win battle_inv_wf [OF assms(2)]
    by auto
  have "battle_game_handler E g False ?w0 = (Inr (), w4)"
    using allin r(1) o(1)
    by (simp add: battle_game_handler_def db_bind_def [of "battle_allin _"] db_bind_def [of "battle_round _ _"])
  then have run: "battle_wait_ends E g False w = (Inr (), w4)"
    using assms(3) by (simp add: battle_wait_ends_def timer_thread_def upd_game_def run_defs)
  show ?thesis
    using run o wait_ends_inv [OF assms(2) run]
    by (intro exI [of _ w4] exI [of _ t0] exI [of _ t1] exI [of _ "xs0 @ ys0"] exI [of _ "xs1 @ ys1"]) simp
qed

lemma seated_cookies:
  "dm_wf (bt_sessions w) \<Longrightarrow> seated w g i0 k0 c0 s0 \<Longrightarrow> seated w g i1 k1 c1 s1 \<Longrightarrow> i0 \<noteq> i1 \<Longrightarrow> k0 \<noteq> k1"
  using demap.right_unique [of "bt_sessions w" i0 k0 "Some g" i1 "Some g"] by (auto simp: seated_def)

text \<open>
  C10. The end of a game: when the round that the timer starts decides the game or is the last one, both players are connected, Redis is up
  and the database answers, then the last message of either player is its result (won, lost or a draw, by the winner of the
  rules), after which it is closed; both sessions in Redis are given to the match server, they are gone
  here, and the timer of the game has left the pool.
\<close>

theorem battle_game_ends:
  assumes "redis_up (en_srv E) store (sv_redis w)" "battle_inv {} w" "bt_games w g = Some gi"
    and "dm_rel (gi_session gi) = {(i0, 0, Some c0), (i1, 1, Some c1)}"
    and "seated w g i0 k0 c0 s0" "seated w g i1 k1 c1 s1" "i0 \<noteq> i1" "c0 \<noteq> c1"
    and "archives (en_sql E)" "pool_good (en_sql E) (sv_pool w)" "process (gi_game gi) = (True, gm)"
  shows "\<exists>w' t0 t1 xs0 xs1. battle_wait_ends E g False w = (Inr (), w') \<and> battle_inv {} w' \<and>
    sv_objects w' c0 = Some t0 \<and> sk_out t0 = sk_out s0 @ xs0 @ [[gameresult (GetWinner gm) False 0]] \<and> sk_closing t0 \<and>
    sv_objects w' c1 = Some t1 \<and> sk_out t1 = sk_out s1 @ xs1 @ [[gameresult (GetWinner gm) False 1]] \<and> sk_closing t1 \<and>
    has_session (store (rd_server (sv_redis w'))) i0 k0 keyword_match \<and> has_session (store (rd_server (sv_redis w'))) i1 k1 keyword_match \<and>
    dm_rel (bt_sessions w') = {e \<in> dm_rel (bt_sessions w). fst e \<noteq> i0 \<and> fst e \<noteq> i1} \<and>
    bt_gamepool w' = ReleaseTimer g (bt_gamepool w)"
  using game_ends_run [OF assms] seated_cookies [OF battle_inv_wf [OF assms(2)] assms(5-7)] assms(7)
  by (fastforce simp: has_session_def)

text \<open>A game that the player of side 0 has won in the last round.\<close>

definition won_game :: game where
  "won_game = \<lparr>now_round = 10,
     players = [\<lparr>action = MEDITATE, health = 1, energy = 0, target = 1, prev_action = PUNCH, consecutive = 1\<rparr>,
                \<lparr>action = MEDITATE, health = 0, energy = 1, target = 0, prev_action = MEDITATE, consecutive = 2\<rparr>],
     Achievements = []\<rparr>"

lemma won_game_wf: "wf_game won_game"
  by (simp add: won_game_def wf_game_def wf_player_def is_action_def)

lemma won_process: "process (gi_game (arena_game a b won_game)) = (True, won_game)"
  by (simp add: process_def arena_game_def won_game_def)

lemma won_seated:
  "seated (arena a b gm) 0 3 cookie3 0 (the (sv_objects (arena a b gm) 0))"
  "seated (arena a b gm) 0 4 cookie4 1 (the (sv_objects (arena a b gm) 1))"
  using arena_sessions(1) by (simp_all add: seated_def live_def arena_base_def)

lemma won_db: "archives (en_sql auth_example_env)" "pool_good (en_sql auth_example_env) (sv_pool (arena a b gm))"
  by (simp_all add: archives_def pool_good_def auth_example_env_def one_user_sql_def MyPostgresPool_def)

theorem battle_game_ends_witness:
  "\<exists>w' t0 t1 xs0 xs1. battle_wait_ends auth_example_env 0 False (arena (Some 0) (Some 1) won_game) = (Inr (), w') \<and>
     sv_objects w' 0 = Some t0 \<and> sk_out t0 = xs0 @ [[GAME_FINISHED_WIN]] \<and>
     sv_objects w' 1 = Some t1 \<and> sk_out t1 = xs1 @ [[GAME_FINISHED_LOOSE]] \<and> dm_rel (bt_sessions w') = {}"
proof -
  let ?w = "arena (Some 0) (Some 1) won_game" and ?gi = "arena_game (Some 0) (Some 1) won_game"
  have win: "GetWinner won_game = 0" by (simp add: GetWinner_def won_game_def)
  let ?s0 = "the (sv_objects ?w 0)" and ?s1 = "the (sv_objects ?w 1)"
  have s: "sk_out ?s0 = []" "sk_out ?s1 = []" by (simp_all add: arena_base_def)
  have g: "bt_games ?w 0 = Some ?gi" by simp
  have "\<exists>w' t0 t1 xs0 xs1. battle_wait_ends auth_example_env 0 False ?w = (Inr (), w') \<and>
     sv_objects w' 0 = Some t0 \<and> sk_out t0 = sk_out ?s0 @ xs0 @ [[gameresult (GetWinner won_game) False 0]] \<and>
     sv_objects w' 1 = Some t1 \<and> sk_out t1 = sk_out ?s1 @ xs1 @ [[gameresult (GetWinner won_game) False 1]] \<and>
     dm_rel (bt_sessions w') = {e \<in> dm_rel (bt_sessions ?w). fst e \<noteq> 3 \<and> fst e \<noteq> 4}"
    using battle_game_ends [OF _ arena_inv [OF won_game_wf] g arena_seats(1) won_seated _ _ won_db won_process, of id] arena_redis by auto
  then show ?thesis using s arena_sessions(1) by (fastforce simp: gameresult_def win)
qed

end
