(* ===== verification/Config.thy ===== *)
theory Config
  imports Decimal
begin

text \<open>
  The configuration file of the servers, \<open>utils/ConfigParser.cpp\<close>: lines of the form \<open>key = value\<close> with
  comments after \<open>#\<close> and values that may stand in quotes. The static dictionary is a map. A position that
  a search does not find (\<open>npos\<close>) is \<open>None\<close>. A file is the text it holds, \<open>None\<close> when it cannot be
  opened; a line is shorter than \<open>2 ^ 31\<close> characters, so that its positions are not changed by their
  conversion to \<open>int\<close>.
\<close>

section \<open>Strings\<close>

fun find_first :: "(char \<Rightarrow> bool) \<Rightarrow> string \<Rightarrow> nat option" where
  "find_first P [] = None"
| "find_first P (c # s) = (if P c then Some 0 else map_option Suc (find_first P s))"

definition find_first_of :: "string \<Rightarrow> string \<Rightarrow> nat option" where
  "find_first_of cs = find_first (\<lambda>c. c \<in> set cs)"

definition find_first_not_of :: "string \<Rightarrow> string \<Rightarrow> nat option" where
  "find_first_not_of cs = find_first (\<lambda>c. c \<notin> set cs)"

definition find_last_not_of :: "string \<Rightarrow> string \<Rightarrow> nat option" where
  "find_last_not_of cs s = map_option (\<lambda>i. length s - 1 - i) (find_first_not_of cs (rev s))"

text \<open>\<open>s.erase(pos)\<close>, which throws for a position behind the end, and \<open>s.erase(0, n)\<close>.\<close>

definition erase_from :: "nat option \<Rightarrow> string \<Rightarrow> string result" where
  "erase_from pos s = (case pos of
       Some p \<Rightarrow> if p \<le> length s then Inr (take p s) else Inl (Out_of_range ''basic_string::erase'')
     | None \<Rightarrow> Inl (Out_of_range ''basic_string::erase''))"

definition erase_front :: "nat option \<Rightarrow> string \<Rightarrow> string" where
  "erase_front n s = (case n of Some n \<Rightarrow> drop n s | None \<Rightarrow> [])"

text \<open>\<open>npos + 1\<close> is \<open>0\<close>.\<close>

definition after :: "nat option \<Rightarrow> nat option" where
  "after pos = Some (case pos of Some p \<Rightarrow> Suc p | None \<Rightarrow> 0)"

definition trimmer :: string where
  "trimmer = [CHR '' '', CHR 0x09, CHR 0x0A, CHR 0x0D, CHR 0x0C, CHR 0x0B]"

abbreviation (input) dquote :: char where "dquote \<equiv> CHR 0x22"
abbreviation (input) squote :: char where "squote \<equiv> CHR 0x27"

section \<open>Lines\<close>

definition cfg_trim :: "string \<Rightarrow> string result" where
  "cfg_trim src = bind_result (erase_from (after (find_last_not_of trimmer src)) src)
     (\<lambda>src. Inr (erase_front (find_first_not_of trimmer src) src))"

definition delete_comment :: "string \<Rightarrow> string result" where
  "delete_comment src = (case find_first_of ''#'' src of
       None \<Rightarrow> Inr src
     | Some pos \<Rightarrow> erase_from (find_first_of ''#'' src) src)"

fun check_loop :: "char \<Rightarrow> nat \<Rightarrow> string \<Rightarrow> char \<times> nat" where
  "check_loop quotes num_of_equal [] = (quotes, num_of_equal)"
| "check_loop quotes num_of_equal (c # line) =
     (if \<not> num_of_equal < 2 then (quotes, num_of_equal)
      else if quotes \<noteq> CHR 0x00 then check_loop (if quotes = c then CHR 0x00 else quotes) num_of_equal line
      else if c = dquote \<or> c = squote then check_loop c num_of_equal line
      else if c = CHR ''='' then check_loop quotes (num_of_equal + 1) line
      else check_loop quotes num_of_equal line)"

definition check_line :: "string \<Rightarrow> bool" where
  "check_line line = (let (quotes, num_of_equal) = check_loop (CHR 0x00) 0 line in num_of_equal = 1 \<and> quotes = CHR 0x00)"

definition cfg_split :: "string \<Rightarrow> (string \<times> string) result" where
  "cfg_split src = (case find_first_of ''='' src of
       None \<Rightarrow> Inr ([], src)
     | Some equal \<Rightarrow>
         bind_result (erase_from (Some equal) src) (\<lambda>front.
         bind_result (cfg_trim front) (\<lambda>front.
         bind_result (cfg_trim (erase_front (Some (equal + 1)) src)) (\<lambda>end.
         if find_first_of [dquote, squote] end \<noteq> None then
           (let end = erase_front (after (find_first_of [dquote, squote] end)) end
            in bind_result (erase_from (find_first_of [squote, dquote] end) end) (\<lambda>end. Inr (front, end)))
         else Inr (front, end)))))"

section \<open>The dictionary\<close>

type_synonym dict = "string \<Rightarrow> string option"

text \<open>\<open>std::getline\<close> until it fails: what follows the last line break counts unless it is empty.\<close>

function getlines :: "string \<Rightarrow> string list" where
  "getlines s = (if s = [] then []
     else takeWhile (\<lambda>c. c \<noteq> CHR 0x0A) s # getlines (tl (dropWhile (\<lambda>c. c \<noteq> CHR 0x0A) s)))"
  by pat_completeness auto
termination
  by (relation "measure length")
    (auto, metis One_nat_def diff_less dropWhile_eq_Nil_conv le_neq_implies_less length_dropWhile_le
       length_greater_0_conv less_imp_diff_less zero_less_one)

declare getlines.simps [simp del]

definition dict_insert :: "string \<Rightarrow> string \<Rightarrow> dict \<Rightarrow> dict" where
  "dict_insert key value d = (if d key = None then d(key \<mapsto> value) else d)"

definition read_line :: "string \<Rightarrow> dict \<Rightarrow> unit result \<times> dict" where
  "read_line line d =
     (case bind_result (delete_comment line) cfg_trim of
        Inl e \<Rightarrow> (Inl e, d)
      | Inr line \<Rightarrow>
          if \<not> check_line line then (Inr (), d)
          else case cfg_split line of
              Inl e \<Rightarrow> (Inl e, d)
            | Inr (key, value) \<Rightarrow> if length key \<le> 0 then (Inr (), d) else (Inr (), dict_insert key value d))"

fun read_lines :: "string list \<Rightarrow> dict \<Rightarrow> unit result \<times> dict" where
  "read_lines [] d = (Inr (), d)"
| "read_lines (l # ls) d = (case read_line l d of (Inl e, d) \<Rightarrow> (Inl e, d) | (Inr _, d) \<Rightarrow> read_lines ls d)"

definition ReadFile :: "string option \<Rightarrow> dict \<Rightarrow> bool result \<times> dict" where
  "ReadFile file d = (case file of
       None \<Rightarrow> (Inr False, d)
     | Some txt \<Rightarrow> (case read_lines (getlines txt) d of (Inl e, d) \<Rightarrow> (Inl e, d) | (Inr _, d) \<Rightarrow> (Inr True, d)))"

definition GetString :: "string \<Rightarrow> string \<Rightarrow> dict \<Rightarrow> string" where
  "GetString key default_value d = (case d key of None \<Rightarrow> default_value | Some v \<Rightarrow> v)"

definition GetInt :: "string \<Rightarrow> int \<Rightarrow> dict \<Rightarrow> int" where
  "GetInt key default_value d = (case d key of
       None \<Rightarrow> default_value
     | Some v \<Rightarrow> (case stoi v of Inl _ \<Rightarrow> default_value | Inr result \<Rightarrow> result))"

text \<open>\<open>stod\<close> is the conversion of the standard library to \<open>double\<close>, or its exception.\<close>

definition GetDouble :: "(string \<Rightarrow> 'f result) \<Rightarrow> string \<Rightarrow> 'f \<Rightarrow> dict \<Rightarrow> 'f" where
  "GetDouble stod key default_value d = (case d key of
       None \<Rightarrow> default_value
     | Some v \<Rightarrow> (case stod v of Inl _ \<Rightarrow> default_value | Inr result \<Rightarrow> result))"

section \<open>What the string operations do\<close>

abbreviation (input) ws :: "char \<Rightarrow> bool" where "ws c \<equiv> c \<in> set trimmer"

lemma find_first_None: "find_first P s = None \<longleftrightarrow> (\<forall>c\<in>set s. \<not> P c)"
  by (induction s) auto

lemma find_first_takeWhile: "c \<in> set s \<Longrightarrow> P c \<Longrightarrow> find_first P s = Some (length (takeWhile (\<lambda>c. \<not> P c) s))"
  by (induction s) auto

lemma find_first_append: "\<forall>c\<in>set s. \<not> P c \<Longrightarrow> P c \<Longrightarrow> find_first P (s @ c # t) = Some (length s)"
  by (induction s) auto

lemma find_first_less: "find_first P s = Some i \<Longrightarrow> i < length s"
  by (induction s arbitrary: i) (auto split: if_splits)

lemma erase_front_find: "erase_front (find_first P s) s = dropWhile (\<lambda>c. \<not> P c) s"
proof (induction s)
  case (Cons c s)
  then show ?case by (cases "find_first P s") (auto simp: erase_front_def)
qed (simp add: erase_front_def)

text \<open>A string without the white space around it.\<close>

definition strip :: "string \<Rightarrow> string" where
  "strip s = dropWhile ws (rev (dropWhile ws (rev s)))"

lemma take_last_not: "take (length s - length (takeWhile P (rev s))) s = rev (dropWhile P (rev s))"
  by (simp add: dropWhile_eq_drop rev_drop)

lemma erase_trailing: "erase_from (after (find_last_not_of trimmer src)) src = Inr (rev (dropWhile ws (rev src)))"
proof (cases "find_first_not_of trimmer (rev src)")
  case None
  then have "\<forall>c\<in>set (rev src). ws c" by (simp add: find_first_not_of_def find_first_None)
  then have "dropWhile ws (rev src) = []" by simp
  then show ?thesis by (simp add: erase_from_def after_def find_last_not_of_def None)
next
  case (Some i)
  then have "\<exists>c\<in>set (rev src). \<not> ws c"
    using find_first_None [of "\<lambda>c. \<not> ws c" "rev src"] by (auto simp: find_first_not_of_def)
  then have i: "i = length (takeWhile ws (rev src))" "i < length src"
    using Some find_first_takeWhile [of _ "rev src" "\<lambda>c. \<not> ws c"] find_first_less [of "\<lambda>c. \<not> ws c" "rev src" i]
    by (auto simp: find_first_not_of_def)
  then have "take (length src - i) src = rev (dropWhile ws (rev src))"
    using take_last_not [of src ws] by simp
  with i(2) show ?thesis
    by (simp add: erase_from_def after_def find_last_not_of_def Some Suc_diff_Suc)
qed

lemma cfg_trim_strip [simp]: "cfg_trim s = Inr (strip s)"
proof -
  have "erase_front (find_first_not_of trimmer r) r = dropWhile ws r" for r
    unfolding find_first_not_of_def erase_front_find by simp
  then show ?thesis by (simp add: cfg_trim_def erase_trailing strip_def)
qed

lemma delete_comment_takeWhile [simp]: "delete_comment s = Inr (takeWhile (\<lambda>c. c \<noteq> CHR ''#'') s)"
proof (cases "CHR ''#'' \<in> set s")
  case True
  then have "find_first (\<lambda>c. c = CHR ''#'') s = Some (length (takeWhile (\<lambda>c. c \<noteq> CHR ''#'') s))"
    using find_first_takeWhile [of "CHR ''#''" s "\<lambda>c. c = CHR ''#''"] by simp
  then show ?thesis
    by (simp add: delete_comment_def find_first_of_def erase_from_def length_takeWhile_le takeWhile_eq_take [symmetric])
next
  case False
  then have "find_first (\<lambda>c. c = CHR ''#'') s = None" by (auto simp: find_first_None)
  moreover have w: "takeWhile (\<lambda>c. c \<noteq> CHR ''#'') s = s" using False by (subst takeWhile_eq_all_conv) auto
  ultimately show ?thesis unfolding w by (simp add: delete_comment_def find_first_of_def)
qed

section \<open>The language of the file\<close>

text \<open>
  What a line means, independently of how it is read: white space and a comment may surround everything,
  a key and a value without quotes have no white space at their ends, a value in quotes is taken as it is.
\<close>

definition blank :: "string \<Rightarrow> bool" where
  "blank p = (\<forall>c\<in>set p. ws c)"

definition remark :: "string \<Rightarrow> bool" where
  "remark s = (s = [] \<or> hd s = CHR ''#'')"

definition no_edges :: "string \<Rightarrow> bool" where
  "no_edges s = (s = [] \<or> \<not> ws (hd s) \<and> \<not> ws (last s))"

definition bare :: "string \<Rightarrow> bool" where
  "bare s = (no_edges s \<and> (\<forall>c\<in>set s. c \<notin> {CHR ''='', CHR ''#'', dquote, squote}))"

definition quotable :: "string \<Rightarrow> bool" where
  "quotable s = (\<forall>c\<in>set s. c \<notin> {CHR ''#'', dquote, squote})"

inductive line_denotes :: "string \<Rightarrow> (string \<times> string) option \<Rightarrow> bool" where
  Blank: "blank p \<Longrightarrow> remark r \<Longrightarrow> line_denotes (p @ r) None"
| Plain: "blank p1 \<Longrightarrow> blank p2 \<Longrightarrow> blank p3 \<Longrightarrow> blank p4 \<Longrightarrow> remark r \<Longrightarrow> bare k \<Longrightarrow> k \<noteq> [] \<Longrightarrow> bare v \<Longrightarrow>
    line_denotes (p1 @ k @ p2 @ ''='' @ p3 @ v @ p4 @ r) (Some (k, v))"
| Quoted: "blank p1 \<Longrightarrow> blank p2 \<Longrightarrow> blank p3 \<Longrightarrow> blank p4 \<Longrightarrow> remark r \<Longrightarrow> bare k \<Longrightarrow> k \<noteq> [] \<Longrightarrow>
    q \<in> {dquote, squote} \<Longrightarrow> quotable v \<Longrightarrow>
    line_denotes (p1 @ k @ p2 @ ''='' @ p3 @ [q] @ v @ [q] @ p4 @ r) (Some (k, v))"

text \<open>The text between the surrounding white space is found again.\<close>

lemma dropWhile_blank [simp]: "blank p \<Longrightarrow> dropWhile ws (p @ s) = dropWhile ws s"
  by (auto simp: blank_def dropWhile_append2)

lemma blank_rev [simp]: "blank (rev p) = blank p"
  by (simp add: blank_def)

lemma strip_padded: "blank p \<Longrightarrow> blank q \<Longrightarrow> no_edges s \<Longrightarrow> strip (p @ s @ q) = s"
proof (cases "s = []")
  case True
  assume "blank p" "blank q"
  then have d: "dropWhile ws (rev q @ rev p) = []" by (auto simp: blank_def)
  show ?thesis unfolding strip_def True append_Nil rev_append d by simp
next
  case False
  assume a: "blank p" "blank q" "no_edges s"
  then have "dropWhile ws (rev s @ rev p) = rev s @ rev p"
    using False by (cases s rule: rev_cases) (auto simp: no_edges_def)
  then show ?thesis using a False by (cases s) (auto simp: strip_def no_edges_def)
qed

lemma takeWhile_remark: "remark r \<Longrightarrow> \<forall>c\<in>set s. c \<noteq> CHR ''#'' \<Longrightarrow> takeWhile (\<lambda>c. c \<noteq> CHR ''#'') (s @ r) = s"
  by (cases r) (auto simp: remark_def takeWhile_append2)

lemma trimmer_plain: "set trimmer \<inter> {CHR ''='', CHR ''#'', dquote, squote} = {}"
  by (simp add: trimmer_def)

lemma blank_chars: "blank p \<Longrightarrow> c \<in> set p \<Longrightarrow> c \<notin> {CHR ''='', CHR ''#'', dquote, squote}"
  using trimmer_plain by (auto simp only: blank_def)

lemma check_loop_plain: "\<forall>c\<in>set s. c \<notin> {CHR ''='', dquote, squote} \<Longrightarrow> n < 2 \<Longrightarrow> check_loop (CHR 0x00) n (s @ t) = check_loop (CHR 0x00) n t"
  by (induction s) auto

lemma check_loop_quoted: "q \<notin> set v \<Longrightarrow> q \<noteq> CHR 0x00 \<Longrightarrow> n < 2 \<Longrightarrow> check_loop q n (v @ q # t) = check_loop (CHR 0x00) n t"
  by (induction v) auto

text \<open>The value in quotes, and a value without.\<close>

definition unquote :: "string \<Rightarrow> string result" where
  "unquote s = (if find_first_of [dquote, squote] s \<noteq> None then
       erase_from (find_first_of [squote, dquote] (erase_front (after (find_first_of [dquote, squote] s)) s))
         (erase_front (after (find_first_of [dquote, squote] s)) s)
     else Inr s)"

lemma cfg_split_at:
  assumes "CHR ''='' \<notin> set a"
  shows "cfg_split (a @ ''='' @ b) = bind_result (unquote (strip b)) (\<lambda>v. Inr (strip a, v))"
proof -
  have "find_first_of ''='' (a @ ''='' @ b) = Some (length a)"
    using assms by (auto simp: find_first_of_def intro: find_first_append)
  then show ?thesis
    by (simp add: cfg_split_def erase_from_def erase_front_def [of "Some _"] unquote_def Let_def)
qed

lemma unquote_bare: "\<forall>c\<in>set v. c \<notin> {dquote, squote} \<Longrightarrow> unquote v = Inr v"
  by (simp add: unquote_def find_first_of_def find_first_None)

lemma unquote_quoted:
  assumes "q \<in> {dquote, squote}" "q' \<in> {dquote, squote}" "\<forall>c\<in>set v. c \<notin> {dquote, squote}"
  shows "unquote (q # v @ q' # t) = Inr v"
proof -
  have "find_first_of [dquote, squote] (q # v @ q' # t) = Some 0"
    using assms(1) by (auto simp: find_first_of_def)
  moreover have "find_first_of [squote, dquote] (v @ q' # t) = Some (length v)"
    using assms(2,3) by (auto simp: find_first_of_def intro!: find_first_append)
  ultimately show ?thesis
    by (simp add: unquote_def after_def erase_front_def erase_from_def)
qed

lemma unquote_open:
  assumes "q \<in> {dquote, squote}" "\<forall>c\<in>set b. c \<notin> {dquote, squote}" "\<forall>c\<in>set t. c \<notin> {dquote, squote}"
  shows "unquote (b @ q # t) = Inl (Out_of_range ''basic_string::erase'')"
proof -
  have "find_first_of [dquote, squote] (b @ q # t) = Some (length b)"
    using assms(1,2) by (auto simp: find_first_of_def intro!: find_first_append)
  moreover have "find_first_of [squote, dquote] t = None"
    using assms(3) by (auto simp: find_first_of_def find_first_None)
  ultimately show ?thesis
    by (simp add: unquote_def after_def erase_front_def erase_from_def)
qed

section \<open>Reading a line\<close>

lemma read_line_run:
  assumes "remark r" "\<forall>c\<in>set s. c \<noteq> CHR ''#''"
  shows "read_line (s @ r) d =
     (if \<not> check_line (strip s) then (Inr (), d)
      else case cfg_split (strip s) of
          Inl e \<Rightarrow> (Inl e, d)
        | Inr (key, value) \<Rightarrow> if key = [] then (Inr (), d) else (Inr (), dict_insert key value d))"
  by (simp add: read_line_def takeWhile_remark [OF assms] split: sum.split prod.split)

lemma dropWhile_stop: "\<not> P x \<Longrightarrow> dropWhile P (s @ x # t) = dropWhile P s @ x # t"
  by (induction s) auto

definition rstrip :: "string \<Rightarrow> string" where
  "rstrip b = rev (dropWhile ws (rev b))"

lemma strip_rstrip [simp]: "strip (rstrip b) = strip b"
  by (simp add: strip_def rstrip_def)

lemma set_rstrip: "c \<in> set (rstrip b) \<Longrightarrow> c \<in> set b"
  by (auto simp: rstrip_def dest: set_dropWhileD)

lemma rstrip_stop: "\<not> ws q \<Longrightarrow> blank p \<Longrightarrow> rstrip (s @ q # p) = s @ [q]"
  using dropWhile_blank [of "rev p" "[]"] by (simp add: rstrip_def dropWhile_stop)

lemma ws_plain [simp]: "\<not> ws (CHR ''='')" "\<not> ws dquote" "\<not> ws squote"
  using trimmer_plain by auto

lemma strip_equal:
  assumes "blank p" "k \<noteq> []" "\<not> ws (hd k)"
  shows "strip (p @ k @ ''='' @ b) = k @ ''='' @ rstrip b"
proof -
  have "rev (dropWhile ws (rev (p @ k @ ''='' @ b))) = p @ k @ ''='' @ rstrip b"
    by (simp add: dropWhile_stop rstrip_def)
  then show ?thesis using assms by (cases k) (simp_all add: strip_def)
qed

text \<open>The line of a setting comes down to its value.\<close>

lemma read_setting:
  assumes "blank p1" "blank p2" "remark r" "bare k" "k \<noteq> []" "\<forall>c\<in>set b. c \<noteq> CHR ''#''"
    and "check_loop (CHR 0x00) 1 (rstrip b) = (CHR 0x00, 1)" "unquote (strip b) = Inr v"
  shows "read_line (p1 @ (k @ p2) @ ''='' @ b @ r) d = (Inr (), dict_insert k v d)"
proof -
  have k: "\<not> ws (hd (k @ p2))" "k @ p2 \<noteq> []" "strip (k @ p2) = k" "CHR ''='' \<notin> set (k @ p2)"
    using assms(2,4,5) strip_padded [of "[]" p2 k] blank_chars [OF assms(2)]
    by (auto simp: bare_def no_edges_def blank_def)
  have kp: "\<forall>c\<in>set (k @ p2). c \<notin> {CHR ''='', dquote, squote}"
    using assms(2,4) blank_chars by (auto simp: bare_def)
  have c: "\<forall>c\<in>set (p1 @ (k @ p2) @ ''='' @ b). c \<noteq> CHR ''#''"
    using assms(1,2,4,6) blank_chars by (auto simp: bare_def)
  have s: "strip (p1 @ (k @ p2) @ ''='' @ b) = (k @ p2) @ ''='' @ rstrip b"
    by (rule strip_equal [OF assms(1) k(2,1)])
  have "check_line ((k @ p2) @ ''='' @ rstrip b)"
    unfolding check_line_def check_loop_plain [OF kp zero_less_numeral] using assms(7) by simp
  then show ?thesis
    using read_line_run [OF assms(3) c, of d] assms(5,8) k(3)
    unfolding s cfg_split_at [OF k(4)] by simp
qed

lemma read_denoted:
  assumes "line_denotes l m"
  shows "read_line l d = (Inr (), case m of None \<Rightarrow> d | Some (k, v) \<Rightarrow> dict_insert k v d)"
  using assms
proof cases
  case (Blank p r)
  have "strip p = []" using strip_padded [of p "[]" "[]"] Blank(3) by (simp add: blank_def no_edges_def)
  moreover have "\<forall>c\<in>set p. c \<noteq> CHR ''#''" using blank_chars [OF Blank(3)] by auto
  ultimately show ?thesis using read_line_run [OF Blank(4), of p d] Blank(1,2) by (simp add: check_line_def)
next
  case (Plain p1 p2 p3 p4 r k v)
  have b: "\<forall>c\<in>set (p3 @ v @ p4). c \<notin> {CHR ''='', CHR ''#'', dquote, squote}"
    using Plain(5,6,10) blank_chars by (auto simp: bare_def)
  then have "\<forall>c\<in>set (rstrip (p3 @ v @ p4)). c \<notin> {CHR ''='', dquote, squote}" using set_rstrip by fast
  from check_loop_plain [OF this, of 1 "[]"]
  have "check_loop (CHR 0x00) 1 (rstrip (p3 @ v @ p4)) = (CHR 0x00, 1)" by simp
  moreover have "unquote (strip (p3 @ v @ p4)) = Inr v"
    using strip_padded [OF Plain(5,6)] Plain(10) by (simp add: bare_def unquote_bare)
  ultimately show ?thesis
    using read_setting [OF Plain(3,4,7,8,9), of "p3 @ v @ p4" v d] b Plain(1,2) by simp
next
  case (Quoted p1 p2 p3 p4 r k q v)
  let ?b = "p3 @ [q] @ v @ [q] @ p4"
  have q: "\<not> ws q" "q \<noteq> CHR 0x00" "q \<notin> set v" using Quoted(10,11) ws_plain(2,3) unfolding quotable_def by fastforce+
  have p3: "\<forall>c\<in>set p3. c \<notin> {CHR ''='', dquote, squote}" using Quoted(5) blank_chars by auto
  have "rstrip ?b = p3 @ q # v @ q # []" using rstrip_stop [OF q(1) Quoted(6), of "p3 @ [q] @ v"] by simp
  then have "check_loop (CHR 0x00) 1 (rstrip ?b) = (CHR 0x00, 1)"
    using Quoted(10) check_loop_plain [OF p3, of 1] check_loop_quoted [OF q(3,2), of 1 "[]"] by auto
  moreover have "strip ?b = q # v @ [q]"
    using strip_padded [OF Quoted(5,6), of "q # v @ [q]"] q(1) by (simp add: no_edges_def)
  then have "unquote (strip ?b) = Inr v"
    using unquote_quoted [OF Quoted(10,10), of v "[]"] Quoted(11) by (simp add: quotable_def)
  moreover have "\<forall>c\<in>set ?b. c \<noteq> CHR ''#''"
    using Quoted(5,6,10,11) blank_chars by (auto simp: quotable_def)
  ultimately show ?thesis
    using read_setting [OF Quoted(3,4,7,8,9), of ?b v d] Quoted(1,2) by simp
qed

section \<open>Reading a file\<close>

definition settings :: "(string \<times> string) option list \<Rightarrow> (string \<times> string) list" where
  "settings ms = List.map_filter id ms"

lemma settings_simps [simp]:
  "settings [] = []" "settings (None # ms) = settings ms" "settings (Some p # ms) = p # settings ms"
  by (simp_all add: settings_def List.map_filter_def)

lemma read_lines_denoted: "list_all2 line_denotes ls ms \<Longrightarrow> read_lines ls d = (Inr (), map_of (settings ms) ++ d)"
proof (induction arbitrary: d rule: list_all2_induct)
  case (Cons l ls m ms)
  have "map_of (settings ms) ++ dict_insert k v d = map_of ((k, v) # settings ms) ++ d" for k v
    by (auto simp: dict_insert_def map_add_def fun_eq_iff split: option.split)
  then show ?case
    using Cons by (auto simp: read_denoted split: option.split)
qed simp

text \<open>
  C30. A file whose lines are settings, comments and empty lines is read without an error, and then every
  key has the value of its first setting, also as a number, and every other key the default.
\<close>

theorem config_read_back:
  assumes "list_all2 line_denotes (getlines txt) ms"
  shows "\<exists>d. ReadFile (Some txt) Map.empty = (Inr True, d) \<and>
    (\<forall>k dflt. GetString k dflt d = (case map_of (settings ms) k of None \<Rightarrow> dflt | Some v \<Rightarrow> v)) \<and>
    (\<forall>k i dflt. map_of (settings ms) k = Some (to_string_int i) \<and> 0 \<le> i \<and> i < 2 ^ 31 \<longrightarrow> GetInt k dflt d = i)"
  using read_lines_denoted [OF assms, of Map.empty]
  by (auto simp: ReadFile_def GetString_def GetInt_def stoi_to_string)

definition config_example :: string where
  "config_example = ''port = 80 # of the clients'' @ [CHR 0x0A] @ ''name='' @ [dquote] @ ''a = b'' @ [dquote]"

theorem config_read_back_witness:
  "\<exists>d. ReadFile (Some config_example) Map.empty = (Inr True, d) \<and> GetInt ''port'' 0 d = 80 \<and> GetString ''name'' [] d = ''a = b''"
proof -
  have l: "getlines config_example = [''port = 80 # of the clients'', ''name='' @ [dquote] @ ''a = b'' @ [dquote]]"
    by (simp add: config_example_def getlines.simps)
  have a: "line_denotes ('''' @ ''port'' @ '' '' @ ''='' @ '' '' @ ''80'' @ '' '' @ ''# of the clients'') (Some (''port'', ''80''))"
    by (rule line_denotes.Plain) (simp_all add: blank_def remark_def bare_def no_edges_def trimmer_def)
  have b: "line_denotes ('''' @ ''name'' @ '''' @ ''='' @ '''' @ [dquote] @ ''a = b'' @ [dquote] @ '''' @ '''') (Some (''name'', ''a = b''))"
    by (rule line_denotes.Quoted) (simp_all add: blank_def remark_def bare_def no_edges_def trimmer_def quotable_def)
  have "to_string_int 80 = ''80''" by code_simp
  with config_read_back [of config_example "[Some (''port'', ''80''), Some (''name'', ''a = b'')]"] a b
  show ?thesis unfolding l by force
qed

section \<open>An equal sign in a quoted key\<close>

lemma bare_chars: "bare s \<Longrightarrow> c \<in> set s \<Longrightarrow> c \<notin> {CHR ''='', CHR ''#'', dquote, squote}"
  unfolding bare_def by (elim conjE) (rule bspec)

lemma bare_no_quote: "bare s \<Longrightarrow> q \<in> {dquote, squote} \<Longrightarrow> q \<notin> set s"
  unfolding bare_def by blast

lemma rstrip_inner: "\<not> ws x \<Longrightarrow> no_edges v \<Longrightarrow> rstrip (s @ x # v) = s @ x # v"
  by (cases v rule: rev_cases) (auto simp: rstrip_def no_edges_def dropWhile_stop)

lemma getlines_one: "l \<noteq> [] \<Longrightarrow> CHR 0x0A \<notin> set l \<Longrightarrow> getlines l = [l]"
proof -
  assume a: "l \<noteq> []" "CHR 0x0A \<notin> set l"
  then have w: "takeWhile (\<lambda>c. c \<noteq> CHR 0x0A) l = l" "dropWhile (\<lambda>c. c \<noteq> CHR 0x0A) l = []"
    by (auto simp: takeWhile_eq_all_conv)
  show ?thesis unfolding getlines.simps [of l] w using a(1) by (simp add: getlines.simps)
qed

text \<open>
  An equal sign inside a quoted key passes the check of the line, which does not count it, but the line is
  split there: the closing quote is then taken for an opening one, and the search for its end makes
  \<open>erase\<close> throw, so that the file is not read.
\<close>

theorem config_quoted_equal:
  assumes "q \<in> {dquote, squote}" "bare a" "bare b" "bare v" "CHR 0x0A \<notin> set (a @ b @ v)"
  shows "ReadFile (Some ([q] @ a @ ''='' @ b @ [q] @ ''='' @ v)) d = (Inl (Out_of_range ''basic_string::erase''), d)"
proof -
  let ?e = "b @ q # ''='' @ v"
  have q: "\<not> ws q" "q \<noteq> CHR 0x00" "q \<noteq> CHR ''#''" "q \<noteq> CHR ''=''" "q \<noteq> CHR 0x0A" "q \<in> {dquote, squote}"
    using assms(1) by auto
  have qs: "q \<notin> set (a @ ''='' @ b)" using q(4) bare_no_quote [OF assms(2) q(6)] bare_no_quote [OF assms(3) q(6)] by simp
  have c: "\<forall>c\<in>set (a @ b @ v). c \<notin> {CHR ''='', CHR ''#'', dquote, squote}" "no_edges b" "no_edges v"
    using bare_chars [OF assms(2)] bare_chars [OF assms(3)] bare_chars [OF assms(4)] assms(3,4)
    by (metis Un_iff set_append, simp_all only: bare_def)
  have e: "rstrip ?e = ?e" "strip ?e = ?e"
    using rstrip_inner [of "CHR ''=''" v "b @ [q]"] strip_padded [of "[]" "[]" ?e] q(1) c(2,3)
    by (auto simp: no_edges_def blank_def hd_append)
  have s: "strip ([] @ (q # a) @ ''='' @ ?e) = (q # a) @ ''='' @ ?e"
    using strip_equal [of "[]" "q # a" ?e] q(1) e(1) by (simp add: blank_def)
  have "check_loop (CHR 0x00) 1 (v @ []) = (CHR 0x00, 1)"
    using c(1) by (subst check_loop_plain) auto
  then have "check_line ((q # a) @ ''='' @ ?e)"
    using q(6) check_loop_quoted [OF qs q(2), of 0 "''='' @ v"] by (auto simp: check_line_def)
  moreover have "unquote ?e = Inl (Out_of_range ''basic_string::erase'')"
    using c(1) by (intro unquote_open [OF q(6)]) auto
  moreover have n: "CHR ''='' \<notin> set (q # a)" using q(4) c(1) by auto
  moreover have h: "\<forall>c\<in>set ((q # a) @ ''='' @ ?e). c \<noteq> CHR ''#''" using q(3) c(1) by auto
  ultimately have "read_line ((q # a) @ ''='' @ ?e) d = (Inl (Out_of_range ''basic_string::erase''), d)"
    using read_line_run [of "[]" "(q # a) @ ''='' @ ?e" d] s cfg_split_at [OF n, of ?e] e(2) by (simp add: remark_def)
  moreover have "getlines ((q # a) @ ''='' @ ?e) = [(q # a) @ ''='' @ ?e]"
    using assms(5) q(5) by (intro getlines_one) auto
  ultimately show ?thesis by (simp add: ReadFile_def)
qed

theorem config_quoted_equal_witness:
  "ReadFile (Some ([dquote] @ ''a'' @ ''='' @ ''b'' @ [dquote] @ ''='' @ ''c'')) Map.empty = (Inl (Out_of_range ''basic_string::erase''), Map.empty)"
  by (rule config_quoted_equal) (simp_all add: bare_def no_edges_def trimmer_def)

end
