(* ===== verification/Options.thy ===== *)
theory Options
  imports Config StdMap
begin

unbundle bit_operations_syntax

text \<open>
  How a server is started: the arguments of the command line (\<open>utils/GetArg.cpp\<close>, \<open>templates/MyServerOpt.cpp\<close>), the
  priorities of the log (\<open>utils/Logger.cpp\<close>), the way into the background (\<open>utils/Daemonizer.cpp\<close>) and the main
  function of the servers (\<open>templates/MyMain.cpp\<close>).

  The C library is outside: \<open>getopt_long\<close> is the list of what its calls give (the option, its argument
  and the argument of the command line it was read from), \<open>fork\<close> and \<open>setsid\<close> are their results. What
  \<open>syslog\<close> and the standard output are given is recorded.
\<close>

section \<open>Logger\<close>

datatype LogType = default_type | info_type | auth_type | error_type | debug_type

fun log_value :: "LogType \<Rightarrow> int" where
  "log_value default_type = -1"
| "log_value info_type = 0"
| "log_value auth_type = 1"
| "log_value error_type = 2"
| "log_value debug_type = 3"

lemma log_value_inject: "log_value a = log_value b \<longleftrightarrow> a = b"
  by (cases a; cases b) simp_all

instantiation LogType :: linorder
begin

definition less_eq_LogType :: "LogType \<Rightarrow> LogType \<Rightarrow> bool" where
  "less_eq_LogType a b = (log_value a \<le> log_value b)"

definition less_LogType :: "LogType \<Rightarrow> LogType \<Rightarrow> bool" where
  "less_LogType a b = (log_value a < log_value b)"

instance
  by standard (auto simp: less_eq_LogType_def less_LogType_def log_value_inject)

end

abbreviation (input) LOG_ERR :: int where "LOG_ERR \<equiv> 3"
abbreviation (input) LOG_INFO :: int where "LOG_INFO \<equiv> 6"
abbreviation (input) LOG_DEBUG :: int where "LOG_DEBUG \<equiv> 7"
abbreviation (input) LOG_AUTH :: int where "LOG_AUTH \<equiv> 32"

text \<open>\<open>isVerbose\<close> has no value until the log is opened. \<open>lg_syslog\<close> and \<open>lg_cout\<close> are what has been written.\<close>

record logger =
  lg_ports :: "(LogType, int) smap"
  lg_service_name :: string
  lg_isOpened :: bool
  lg_isVerbose :: "bool option"
  lg_syslog :: "(int \<times> string) list"
  lg_cout :: "string list"

definition Logger :: logger where
  "Logger = \<lparr>lg_ports = fold (\<lambda>t. smap_insert t (-1)) [default_type, info_type, auth_type, error_type, debug_type] [],
     lg_service_name = [], lg_isOpened = False, lg_isVerbose = None, lg_syslog = [], lg_cout = []\<rparr>"

definition GetLogPort :: "int \<Rightarrow> int" where
  "GetLogPort port = (let port = (if port < 0 \<or> port > 7 then 0 else port) in push_bit 3 (port + 16))"

definition GetType :: "string \<Rightarrow> LogType" where
  "GetType name =
     (if name = ''default'' then default_type
      else if name = ''info'' then info_type
      else if name = ''auth'' then auth_type
      else if name = ''error'' then error_type
      else if name = ''debug'' then debug_type
      else default_type)"

text \<open>\<open>ports[type]\<close>, and an assignment to it.\<close>

definition lg_port :: "LogType \<Rightarrow> logger \<Rightarrow> int \<times> logger" where
  "lg_port t lg = (let (p, m) = smap_at 0 t (lg_ports lg) in (p, lg\<lparr>lg_ports := m\<rparr>))"

definition set_port :: "LogType \<Rightarrow> int \<Rightarrow> logger \<Rightarrow> logger" where
  "set_port t p lg = lg\<lparr>lg_ports := smap_put t p (lg_ports lg)\<rparr>"

definition ConfigPort :: "LogType \<Rightarrow> int \<Rightarrow> logger \<Rightarrow> logger" where
  "ConfigPort type port lg =
     (let (tp, lg) = (if port \<le> 0 then lg_port default_type lg else (GetLogPort port, lg));
          tp = (case type of
              default_type \<Rightarrow> tp
            | info_type \<Rightarrow> tp OR LOG_INFO
            | auth_type \<Rightarrow> (if port < 0 then LOG_INFO OR LOG_AUTH else tp OR LOG_INFO) OR LOG_ERR
            | error_type \<Rightarrow> tp OR LOG_ERR
            | debug_type \<Rightarrow> tp OR LOG_DEBUG)
      in set_port type tp lg)"

fun open_ports :: "LogType list \<Rightarrow> logger \<Rightarrow> logger" where
  "open_ports [] lg = lg"
| "open_ports (t # ts) lg =
     (let (p, lg) = lg_port t lg in open_ports ts (if p < 0 then ConfigPort t p lg else lg))"

definition OpenLog :: "string \<Rightarrow> bool \<Rightarrow> logger \<Rightarrow> logger" where
  "OpenLog name verbose lg =
     (let lg = lg\<lparr>lg_service_name := name, lg_isVerbose := Some verbose\<rparr>;
          (a, lg) = lg_port auth_type lg;
          lg = (if a < 0 then set_port auth_type (LOG_INFO OR LOG_AUTH) lg else lg);
          lg = open_ports (map fst (lg_ports lg)) lg;
          (d, lg) = lg_port default_type lg;
          lg = set_port default_type (d OR LOG_INFO) lg
      in if d OR LOG_INFO \<ge> 0 then lg\<lparr>lg_isOpened := True\<rparr> else lg)"

fun type2str :: "LogType \<Rightarrow> string" where
  "type2str info_type = ''INFO''"
| "type2str auth_type = ''AUTH''"
| "type2str error_type = ''ERROR''"
| "type2str debug_type = ''DEBUG''"
| "type2str default_type = ''DEFAULT''"

definition Logger_log :: "string \<Rightarrow> LogType \<Rightarrow> logger \<Rightarrow> unit result \<times> logger" where
  "Logger_log content type lg = (case lg_isVerbose lg of
       None \<Rightarrow> (Inl (Undefined ''isVerbose has no value''), lg)
     | Some verbose \<Rightarrow>
         (let lg = (if verbose then lg\<lparr>lg_cout := lg_cout lg @ [lg_service_name lg @ ''['' @ type2str type @ ''] '' @ content]\<rparr> else lg)
          in if lg_isOpened lg then
               (let (p, lg) = lg_port type lg in (Inr (), lg\<lparr>lg_syslog := lg_syslog lg @ [(p, content)]\<rparr>))
             else (Inr (), lg)))"

section \<open>Arguments\<close>

definition splitarg :: "string \<Rightarrow> (string \<times> string) option" where
  "splitarg input = (case find_first_of ''='' input of
       None \<Rightarrow> None
     | Some ptr \<Rightarrow> if ptr \<le> 0 \<or> ptr \<ge> length input then None else Some (take ptr input, drop (ptr + 1) input))"

text \<open>\<open>std::atoi\<close>: the number at the front, \<open>0\<close> without one; a number that does not fit is not defined.\<close>

definition atoi :: "string \<Rightarrow> int result" where
  "atoi s = (case strto s of
       None \<Rightarrow> Inr 0
     | Some (neg, n) \<Rightarrow>
         (let i = (if neg then - int n else int n)
          in if i < - (2 ^ 31) \<or> i \<ge> 2 ^ 31 then Inl (Undefined ''atoi'') else Inr i))"

text \<open>One call of \<open>getopt_long\<close>: the option character, \<open>optarg\<close>, and \<open>argv[optind - 1]\<close> after the call.\<close>

type_synonym getopt = "char \<times> string option \<times> string"

definition the_arg :: "string option \<Rightarrow> string result" where
  "the_arg arg = (case arg of None \<Rightarrow> Inl (Undefined ''optarg is null'') | Some s \<Rightarrow> Inr s)"

record server_opt =
  daemon_flag :: bool
  pid_flag :: bool
  pid_path :: string
  conf_path :: string
  verbose_flag :: bool

definition ClearOpt :: server_opt where
  "ClearOpt = \<lparr>daemon_flag = False, pid_flag = False, pid_path = [], conf_path = [], verbose_flag = False\<rparr>"

definition server_arg :: "getopt \<Rightarrow> server_opt \<times> logger \<Rightarrow> unit result \<times> server_opt \<times> logger" where
  "server_arg g st =
     (case g of (c, optarg, arg) \<Rightarrow> case st of (opt, lg) \<Rightarrow>
        if c = CHR ''d'' then (Inr (), opt\<lparr>daemon_flag := True\<rparr>, lg)
        else if c = CHR ''p'' then
          (case the_arg optarg of
             Inl e \<Rightarrow> (Inl e, opt\<lparr>pid_flag := True\<rparr>, lg)
           | Inr s \<Rightarrow> (Inr (), opt\<lparr>pid_flag := True, pid_path := s\<rparr>, lg))
        else if c = CHR ''c'' then
          (case the_arg optarg of Inl e \<Rightarrow> (Inl e, opt, lg) | Inr s \<Rightarrow> (Inr (), opt\<lparr>conf_path := s\<rparr>, lg))
        else if c = CHR ''L'' then
          (case optarg of
             None \<Rightarrow> (Inl (StackTraceExcept (''There is no Argument : '' @ arg)), opt, lg)
           | Some s \<Rightarrow> (case splitarg s of
                 None \<Rightarrow> (Inl (StackTraceExcept (''Parse Failed : '' @ arg)), opt, lg)
               | Some (var, value) \<Rightarrow> (case atoi value of
                     Inl e \<Rightarrow> (Inl e, opt, lg)
                   | Inr port \<Rightarrow> (Inr (), opt, ConfigPort (GetType var) port lg))))
        else if c = CHR ''v'' then (Inr (), opt\<lparr>verbose_flag := True\<rparr>, lg)
        else if c = CHR ''?'' then (Inl (StackTraceExcept (''Unknown Argument : '' @ arg)), opt, lg)
        else (Inl (StackTraceExcept (''getopt_long gets error('' @ to_string_nat (of_char c) @ '') : '' @ arg)), opt, lg))"

fun server_GetArgs :: "getopt list \<Rightarrow> server_opt \<times> logger \<Rightarrow> unit result \<times> server_opt \<times> logger" where
  "server_GetArgs [] st = (Inr (), st)"
| "server_GetArgs (g # gs) st = (case server_arg g st of (Inl e, st) \<Rightarrow> (Inl e, st) | (Inr _, st) \<Rightarrow> server_GetArgs gs st)"

definition MyServerOpt :: "getopt list \<Rightarrow> logger \<Rightarrow> unit result \<times> server_opt \<times> logger" where
  "MyServerOpt gs lg = server_GetArgs gs (ClearOpt, lg)"

section \<open>Starting a server\<close>

text \<open>\<open>sys\<close> gives the results of the two calls of \<open>fork\<close>, of \<open>setsid\<close>, and the \<open>errno\<close> of a failure.\<close>

record sys =
  sys_fork1 :: int
  sys_setsid :: int
  sys_fork2 :: int
  sys_errno :: int
  sys_writable :: "string \<Rightarrow> bool"
  sys_file :: "string \<Rightarrow> string option"

definition Daemonizer :: "sys \<Rightarrow> bool result" where
  "Daemonizer sys =
     (if sys_fork1 sys < 0 then Inl (StackTraceExcept (''Fork Failed : '' @ to_string_int (sys_errno sys)))
      else if sys_fork1 sys > 0 then Inr False
      else if sys_setsid sys = -1 then Inl (StackTraceExcept ''setsid() Failed'')
      else if sys_fork2 sys < 0 then Inl (StackTraceExcept (''Fork Failed : '' @ to_string_int (sys_errno sys)))
      else if sys_fork2 sys > 0 then Inr False
      else Inr True)"

definition Create_PidFile :: "sys \<Rightarrow> string \<Rightarrow> unit result" where
  "Create_PidFile sys path =
     (if \<not> sys_writable sys path then Inl (StackTraceExcept (''Pid File Open Failed : '' @ to_string_int (sys_errno sys)))
      else Inr ())"

text \<open>
  The main function of a server. \<open>process\<close> and \<open>stop\<close> are the functions of the server it is given; the state
  \<open>'w\<close> is what they work on. The dispositions of the signals are the record's: \<open>mm_int\<close> and \<open>mm_term\<close> say that
  the handler is set, \<open>mm_pid\<close> is the file the process id was written to.
\<close>

record 'w main_state =
  mm_logger :: logger
  mm_dict :: dict
  mm_int :: bool
  mm_term :: bool
  mm_pid :: "string option"
  mm_world :: 'w

definition main_try ::
  "sys \<Rightarrow> string \<Rightarrow> getopt list \<Rightarrow> (dict \<Rightarrow> 'w \<Rightarrow> unit result \<times> 'w) \<Rightarrow> 'w main_state \<Rightarrow> bool result \<times> 'w main_state" where
  "main_try sys service_name gs process st =
     (case MyServerOpt gs (mm_logger st) of
        (Inl e, _, lg) \<Rightarrow> (Inl e, st\<lparr>mm_logger := lg\<rparr>)
      | (Inr _, opts, lg) \<Rightarrow>
          (let st = st\<lparr>mm_logger := OpenLog service_name (verbose_flag opts) lg\<rparr>;
               bg = (if daemon_flag opts then Daemonizer sys else Inr True)
           in case bg of
                Inl e \<Rightarrow> (Inl e, st)
              | Inr False \<Rightarrow> (Inr False, st)
              | Inr True \<Rightarrow>
                  (let st = st\<lparr>mm_int := mm_int st \<or> \<not> daemon_flag opts, mm_term := True\<rparr>
                   in case if pid_flag opts then Create_PidFile sys (pid_path opts) else Inr () of
                        Inl e \<Rightarrow> (Inl e, st)
                      | Inr _ \<Rightarrow>
                          (let st = (if pid_flag opts then st\<lparr>mm_pid := Some (pid_path opts)\<rparr> else st)
                           in case ReadFile (sys_file sys (conf_path opts)) (mm_dict st) of
                                (Inl e, d) \<Rightarrow> (Inl e, st\<lparr>mm_dict := d\<rparr>)
                              | (Inr False, d) \<Rightarrow> (Inl (Runtime_error ''Cannot Open Config File''), st\<lparr>mm_dict := d\<rparr>)
                              | (Inr True, d) \<Rightarrow>
                                  (case process d (mm_world st) of
                                     (r, w) \<Rightarrow> (bind_result r (\<lambda>_. Inr True), st\<lparr>mm_dict := d, mm_world := w\<rparr>))))))"

fun exn_what :: "exn \<Rightarrow> string" where
  "exn_what (Out_of_range s) = s"
| "exn_what (Runtime_error s) = s"
| "exn_what (Invalid_argument s) = s"
| "exn_what (StackTraceExcept s) = s"
| "exn_what (Undefined s) = s"
| "exn_what (Waits_forever s) = s"

fun is_exception :: "exn \<Rightarrow> bool" where
  "is_exception (Undefined _) = False"
| "is_exception (Waits_forever _) = False"
| "is_exception _ = True"

definition main_log :: "exn \<Rightarrow> logger \<Rightarrow> unit result \<times> logger" where
  "main_log e = (case e of
       StackTraceExcept s \<Rightarrow> Logger_log s info_type
     | _ \<Rightarrow> Logger_log (''[Standard Exception] : '' @ exn_what e) error_type)"

definition MyMain_main ::
  "sys \<Rightarrow> string \<Rightarrow> getopt list \<Rightarrow> (dict \<Rightarrow> 'w \<Rightarrow> unit result \<times> 'w) \<Rightarrow> ('w \<Rightarrow> unit result \<times> 'w) \<Rightarrow> 'w main_state
   \<Rightarrow> int result \<times> 'w main_state" where
  "MyMain_main sys service_name gs process stop st =
     (case main_try sys service_name gs process st of
        (Inr False, st) \<Rightarrow> (Inr 0, st)
      | (Inr True, st) \<Rightarrow> (case stop (mm_world st) of (r, w) \<Rightarrow> (bind_result r (\<lambda>_. Inr 0), st\<lparr>mm_world := w\<rparr>))
      | (Inl e, st) \<Rightarrow>
          if \<not> is_exception e then (Inl e, st)
          else case main_log e (mm_logger st) of
              (Inl f, lg) \<Rightarrow> (Inl f, st\<lparr>mm_logger := lg\<rparr>)
            | (Inr _, lg) \<Rightarrow> (case stop (mm_world st) of
                (r, w) \<Rightarrow> (bind_result r (\<lambda>_. Inr (-1)), st\<lparr>mm_logger := lg, mm_world := w\<rparr>)))"

text \<open>The handler of \<open>SIGINT\<close> (\<open>2\<close>) and \<open>SIGTERM\<close> (\<open>15\<close>), which stops the server and sets the signal back.\<close>

definition signal_handler :: "('w \<Rightarrow> unit result \<times> 'w) \<Rightarrow> int \<Rightarrow> 'w main_state \<Rightarrow> unit result \<times> 'w main_state" where
  "signal_handler stop signal_code st =
     (if signal_code = 15 \<or> signal_code = 2 then
        (case stop (mm_world st) of
           (Inl e, w) \<Rightarrow> (Inl e, st\<lparr>mm_world := w\<rparr>)
         | (Inr _, w) \<Rightarrow> (Inr (), if signal_code = 15 then st\<lparr>mm_world := w, mm_term := False\<rparr> else st\<lparr>mm_world := w, mm_int := False\<rparr>))
      else (Inr (), st))"

section \<open>Priorities of the log\<close>

text \<open>The severity of each type of message, as \<open>ConfigPort\<close> computes it.\<close>

fun severity :: "LogType \<Rightarrow> int" where
  "severity default_type = 0"
| "severity info_type = 6"
| "severity auth_type = 7"
| "severity error_type = 3"
| "severity debug_type = 7"

definition local_port :: "int \<Rightarrow> int \<Rightarrow> bool" where
  "local_port s p = (\<exists>f. 16 \<le> f \<and> f \<le> 23 \<and> p = 8 * f + s)"

lemma local_facility: "16 \<le> f \<Longrightarrow> f \<le> 23 \<Longrightarrow> f \<in> {16, 17, 18, 19, 20, 21, 22, 23 :: int}"
  by (simp, arith)

lemma local_port_cases: "local_port s p \<Longrightarrow> p \<in> (\<lambda>f. 8 * f + s) ` {16, 17, 18, 19, 20, 21, 22, 23}"
  using local_facility by (force simp: local_port_def)

lemma local_port_or:
  assumes "local_port 0 p"
  shows "local_port 6 (p OR 6)" "local_port 3 (p OR 3)" "local_port 7 (p OR 7)" "local_port 7 ((p OR 6) OR 3)"
  using local_port_cases [OF assms] by (auto simp: local_port_def)

lemma local_port_GetLogPort: "local_port 0 (GetLogPort p)"
proof -
  have "\<exists>q. 0 \<le> q \<and> q \<le> 7 \<and> GetLogPort p = push_bit 3 (q + 16)"
    by (auto simp: GetLogPort_def Let_def intro: exI [of _ "0 :: int"] exI [of _ p])
  then obtain q where "0 \<le> q" "q \<le> 7" "GetLogPort p = 8 * (q + 16)" by (auto simp: push_bit_eq_mult)
  then show ?thesis unfolding local_port_def by (intro exI [of _ "q + 16"]) simp
qed

text \<open>The ports of the five types, each either not set (\<open>-1\<close>) or a facility for local use with its severity.\<close>

definition ports :: "int \<Rightarrow> int \<Rightarrow> int \<Rightarrow> int \<Rightarrow> int \<Rightarrow> (LogType, int) smap" where
  "ports d i a e g = [(default_type, d), (info_type, i), (auth_type, a), (error_type, e), (debug_type, g)]"

definition ports_ok :: "(LogType, int) smap \<Rightarrow> bool" where
  "ports_ok m \<longleftrightarrow> (\<exists>d i a e g. m = ports d i a e g \<and> (d = -1 \<or> local_port 0 d) \<and> (i = -1 \<or> local_port 6 i) \<and>
     (a = -1 \<or> a = 39 \<or> local_port 7 a) \<and> (e = -1 \<or> local_port 3 e) \<and> (g = -1 \<or> local_port 7 g))"

lemma ports_okI:
  "d = -1 \<or> local_port 0 d \<Longrightarrow> i = -1 \<or> local_port 6 i \<Longrightarrow> a = -1 \<or> a = 39 \<or> local_port 7 a \<Longrightarrow>
   e = -1 \<or> local_port 3 e \<Longrightarrow> g = -1 \<or> local_port 7 g \<Longrightarrow> ports_ok (ports d i a e g)"
  unfolding ports_ok_def by blast

lemmas logger_defs = lg_port_def set_port_def smap_at_def ports_def less_LogType_def

lemma Logger_ports: "lg_ports Logger = ports (-1) (-1) (-1) (-1) (-1)"
  by (simp add: Logger_def smap_insert_def ports_def less_LogType_def)

lemma ports_ok_Logger: "ports_ok (lg_ports Logger)"
  unfolding ports_ok_def Logger_ports by blast

lemma or_minus: "(-1 :: int) OR x = -1" "(38 :: int) OR 3 = 39" "(6 :: int) OR 32 = 38"
  by simp_all

lemma ports_ok_ConfigPort:
  assumes "ports_ok (lg_ports lg)"
  shows "ports_ok (lg_ports (ConfigPort t p lg))"
proof -
  obtain d i a e g where m: "lg_ports lg = ports d i a e g" "d = -1 \<or> local_port 0 d" "i = -1 \<or> local_port 6 i"
    "a = -1 \<or> a = 39 \<or> local_port 7 a" "e = -1 \<or> local_port 3 e" "g = -1 \<or> local_port 7 g"
    using assms unfolding ports_ok_def by blast
  define tp where "tp = (if p \<le> 0 then d else GetLogPort p)"
  have tp: "tp = -1 \<or> local_port 0 tp" using m(2) local_port_GetLogPort by (simp add: tp_def)
  have "lg_ports (ConfigPort t p lg) = (case t of
      default_type \<Rightarrow> ports tp i a e g
    | info_type \<Rightarrow> ports d (tp OR 6) a e g
    | auth_type \<Rightarrow> ports d i (if p < 0 then 39 else (tp OR 6) OR 3) e g
    | error_type \<Rightarrow> ports d i a (tp OR 3) g
    | debug_type \<Rightarrow> ports d i a e (tp OR 7))"
    using m(1) by (cases t) (simp_all add: ConfigPort_def tp_def logger_defs)
  moreover have "tp OR 6 = -1 \<or> local_port 6 (tp OR 6)" "tp OR 3 = -1 \<or> local_port 3 (tp OR 3)"
    "tp OR 7 = -1 \<or> local_port 7 (tp OR 7)" "(tp OR 6) OR 3 = -1 \<or> local_port 7 ((tp OR 6) OR 3)"
    using tp local_port_or by (auto simp: or_minus)
  ultimately show ?thesis
    using m(2-6) tp by (cases t) (simp_all add: ports_okI, blast intro: ports_okI)
qed

lemma fold_ConfigPort:
  assumes "ports_ok (lg_ports lg)"
  shows "ports_ok (lg_ports (fold (\<lambda>(t, p). ConfigPort t p) cs lg))"
  using assms by (induction cs arbitrary: lg) (auto simp: ports_ok_ConfigPort)

text \<open>What \<open>OpenLog\<close> makes of the ports.\<close>

lemma OpenLog_ports:
  assumes "lg_ports lg = ports d i a e g"
  shows "lg_ports (OpenLog nm v lg) = ports (d OR 6) (if i < 0 then d OR 6 else i) (if a < 0 then 38 else a)
      (if e < 0 then d OR 3 else e) (if g < 0 then d OR 7 else g)"
    and "lg_isOpened (OpenLog nm v lg) \<longleftrightarrow> lg_isOpened lg \<or> 0 \<le> d OR 6"
  using assms by (simp_all add: OpenLog_def ConfigPort_def logger_defs Let_def)

lemma ConfigPort_default:
  assumes "ports_ok (lg_ports lg)"
  shows "smap_find default_type (lg_ports (ConfigPort t p lg)) =
     (if t = default_type \<and> 0 < p then Some (GetLogPort p) else smap_find default_type (lg_ports lg))"
proof -
  obtain d i a e g where "lg_ports lg = ports d i a e g" using assms unfolding ports_ok_def by blast
  then show ?thesis by (cases t) (simp_all add: ConfigPort_def logger_defs)
qed

lemma fold_ConfigPort_default:
  assumes "ports_ok (lg_ports lg)"
  shows "smap_find default_type (lg_ports (fold (\<lambda>(t, p). ConfigPort t p) cs lg)) = Some (-1) \<longleftrightarrow>
     smap_find default_type (lg_ports lg) = Some (-1) \<and> (\<forall>p. (default_type, p) \<in> set cs \<longrightarrow> p \<le> 0)"
  using assms
proof (induction cs arbitrary: lg)
  case (Cons c cs)
  obtain t p where c: "c = (t, p)" by (cases c)
  have "GetLogPort p \<noteq> -1" using local_port_GetLogPort [of p] by (auto simp: local_port_def)
  then show ?case
    using Cons.IH [OF ports_ok_ConfigPort [OF Cons.prems, of t p]]
    by (auto simp: c ConfigPort_default [OF Cons.prems])
qed simp

fun opened_severity :: "LogType \<Rightarrow> int" where
  "opened_severity default_type = 6"
| "opened_severity info_type = 6"
| "opened_severity auth_type = 7"
| "opened_severity error_type = 3"
| "opened_severity debug_type = 7"

lemma local_port_pos: "local_port s p \<Longrightarrow> 0 \<le> s \<Longrightarrow> 0 \<le> p"
  by (auto simp: local_port_def)



section \<open>The start of a server\<close>

lemma OpenLog_verbose: "lg_isVerbose (OpenLog nm v lg) = Some v"
proof -
  have port: "lg_isVerbose (snd (lg_port t lg)) = lg_isVerbose lg" for t lg
    by (simp add: lg_port_def split: prod.split)
  have config: "lg_isVerbose (ConfigPort t p lg) = lg_isVerbose lg" for t p lg
    using port [of default_type lg] by (cases t) (auto simp: ConfigPort_def set_port_def Let_def split: prod.split)
  have ports: "lg_isVerbose (open_ports ts lg) = lg_isVerbose lg" for ts lg
    by (induction ts arbitrary: lg) (auto simp: config Let_def lg_port_def split: prod.split)
  show ?thesis
    by (auto simp: OpenLog_def Let_def set_port_def lg_port_def ports split: prod.split)
qed

lemma Logger_log_open: "lg_isVerbose lg = Some v \<Longrightarrow> \<exists>lg'. Logger_log c t lg = (Inr (), lg')"
  by (auto simp: Logger_log_def Let_def split: prod.split)

lemma main_log_open: "lg_isVerbose lg = Some v \<Longrightarrow> \<exists>lg'. main_log e lg = (Inr (), lg')"
  by (auto simp: main_log_def Logger_log_open split: exn.split)

text \<open>
  A server that is started with well-formed options and a readable configuration file runs with exactly the
  settings of the file; whether it ends by itself or by an exception, it is stopped once, and the exit code
  tells the two apart.
\<close>

theorem server_configured:
  assumes "MyServerOpt gs (mm_logger st) = (Inr (), opts, lg)" "daemon_flag opts \<longrightarrow> Daemonizer sys = Inr True"
    and "pid_flag opts \<longrightarrow> sys_writable sys (pid_path opts)" "sys_file sys (conf_path opts) = Some txt"
    and "list_all2 line_denotes (getlines txt) ms" "mm_dict st = Map.empty"
    and "process (map_of (settings ms)) (mm_world st) = (r, w)" "stop w = (Inr (), w')" "\<forall>e. r = Inl e \<longrightarrow> is_exception e"
  shows "\<exists>st'. MyMain_main sys nm gs process stop st = (Inr (if r = Inr () then 0 else -1), st') \<and>
    mm_world st' = w' \<and> mm_dict st' = map_of (settings ms) \<and> mm_term st' \<and> (pid_flag opts \<longrightarrow> mm_pid st' = Some (pid_path opts))"
proof -
  let ?lg = "OpenLog nm (verbose_flag opts) lg"
  have rd: "ReadFile (Some txt) Map.empty = (Inr True, map_of (settings ms))"
    using read_lines_denoted [OF assms(5), of Map.empty] by (simp add: ReadFile_def)
  have bg: "(if daemon_flag opts then Daemonizer sys else Inr True) = Inr True" using assms(2) by simp
  obtain st1 where t: "main_try sys nm gs process st = (bind_result r (\<lambda>_. Inr True), st1)" "mm_world st1 = w"
    "mm_dict st1 = map_of (settings ms)" "mm_term st1" "mm_logger st1 = ?lg" "pid_flag opts \<longrightarrow> mm_pid st1 = Some (pid_path opts)"
    using assms(1,3,4,6,7) by (cases "pid_flag opts") (auto simp: main_try_def bg rd Create_PidFile_def Let_def)
  show ?thesis
  proof (cases r)
    case (Inl e)
    then obtain lg' where "main_log e ?lg = (Inr (), lg')" using main_log_open [OF OpenLog_verbose] by blast
    then show ?thesis using t Inl assms(8,9) by (simp add: MyMain_main_def)
  next
    case (Inr u)
    then show ?thesis using t assms(8) by (simp add: MyMain_main_def)
  qed
qed

definition config_file :: sys where
  "config_file = \<lparr>sys_fork1 = 0, sys_setsid = 0, sys_fork2 = 0, sys_errno = 0, sys_writable = (\<lambda>_. True),
     sys_file = (\<lambda>path. if path = ''drgb.conf'' then Some ''Machine_ID = 3'' else None)\<rparr>"

definition before_main :: "nat main_state" where
  "before_main = \<lparr>mm_logger = Logger, mm_dict = Map.empty, mm_int = False, mm_term = False, mm_pid = None, mm_world = 0\<rparr>"

theorem server_configured_witness:
  "\<exists>st'. MyMain_main config_file ''battle'' [(CHR ''d'', None, ''-d''), (CHR ''c'', Some ''drgb.conf'', ''drgb.conf'')]
      (\<lambda>d w. (Inr (), nat (GetInt ''Machine_ID'' 1 d))) (\<lambda>w. (Inr (), w + 10)) before_main = (Inr 0, st') \<and> mm_world st' = 13"
proof -
  let ?gs = "[(CHR ''d'', None, ''-d''), (CHR ''c'', Some ''drgb.conf'', ''drgb.conf'')]"
  have o: "MyServerOpt ?gs (mm_logger before_main) = (Inr (), ClearOpt\<lparr>daemon_flag := True, conf_path := ''drgb.conf''\<rparr>, Logger)"
    by (simp add: MyServerOpt_def server_arg_def the_arg_def before_main_def)
  have "line_denotes ('''' @ ''Machine_ID'' @ '' '' @ ''='' @ '' '' @ ''3'' @ '''' @ '''') (Some (''Machine_ID'', ''3''))"
    by (rule line_denotes.Plain) (simp_all add: blank_def remark_def bare_def no_edges_def trimmer_def)
  then have l: "list_all2 line_denotes (getlines ''Machine_ID = 3'') [Some (''Machine_ID'', ''3'')]"
    by (simp add: getlines.simps)
  have "GetInt ''Machine_ID'' 1 (map_of (settings [Some (''Machine_ID'', ''3'')])) = 3"
    by (simp add: GetInt_def) code_simp
  then show ?thesis
    using server_configured [of ?gs before_main _ _ config_file "''Machine_ID = 3''" _ "\<lambda>d w. (Inr (), nat (GetInt ''Machine_ID'' 1 d))" "Inr ()" 3
        "\<lambda>w. (Inr (), w + 10)" 13 "''battle''", OF o _ _ _ l]
    by (simp add: config_file_def ClearOpt_def Daemonizer_def before_main_def) blast
qed

text \<open>
  An option that is not known is reported before the log is opened: the report reads the flag \<open>isVerbose\<close>,
  which has no value yet, and the server is not stopped.
\<close>

theorem main_bad_option:
  assumes "mm_logger st = Logger"
  shows "MyMain_main sys nm ((CHR ''?'', optarg, arg) # gs) process stop st = (Inl (Undefined ''isVerbose has no value''), st)"
  using assms by (simp add: MyMain_main_def main_try_def MyServerOpt_def server_arg_def main_log_def Logger_log_def Logger_def)

theorem main_bad_option_witness:
  "MyMain_main config_file ''battle'' [(CHR ''?'', None, ''-x'')] (\<lambda>d w. (Inr (), w)) (\<lambda>w. (Inr (), w)) before_main =
     (Inl (Undefined ''isVerbose has no value''), before_main)"
  by (rule main_bad_option) (simp add: before_main_def)

end
