(* ===== verification/Manager.thy ===== *)
theory Manager
  imports Options Codes "HOL-Library.Char_ord" "HOL-Library.Sublist"
begin

text \<open>
  The manager, a program that asks a server about its load: the command line of \<open>manager/main.cpp\<close> with the
  arguments of \<open>manager/MgrOpt.cpp\<close>, and the two ends of the service in \<open>manager/ManagerServiceClient.cpp\<close> and
  \<open>manager/ManagerServiceServer.cpp\<close>. gRPC is outside: a call is a function of the state \<open>'w\<close> of the server
  that gives a status (its code and its message) and the reply. What is printed is recorded.
\<close>

section \<open>The service\<close>

text \<open>The handlers that a server gives to \<open>ManagerServiceServer\<close>; the messages carry 32-bit numbers.\<close>

record ('e, 'w) mgr_handlers =
  handler_GetUsage :: "'w \<Rightarrow> nat"
  handler_CheckAccount :: "Account_ID_t \<Rightarrow> 'w \<Rightarrow> ('e + bool) \<times> 'w"
  handler_GetClientUsage :: "'w \<Rightarrow> nat"
  handler_GetConnectUsage :: "'w \<Rightarrow> (string, nat) smap \<times> 'w"

definition srv_GetUsage :: "('e, 'w) mgr_handlers \<Rightarrow> 'w \<Rightarrow> ('e + 32 word) \<times> 'w" where
  "srv_GetUsage h w = (Inr (word_of_nat (handler_GetUsage h w)), w)"

definition srv_CheckAccount :: "('e, 'w) mgr_handlers \<Rightarrow> Account_ID_t \<Rightarrow> 'w \<Rightarrow> ('e + bool) \<times> 'w" where
  "srv_CheckAccount h i w = handler_CheckAccount h i w"

definition srv_GetClientUsage :: "('e, 'w) mgr_handlers \<Rightarrow> 'w \<Rightarrow> ('e + 32 word) \<times> 'w" where
  "srv_GetClientUsage h w = (Inr (word_of_nat (handler_GetClientUsage h w)), w)"

definition srv_GetConnectUsage :: "('e, 'w) mgr_handlers \<Rightarrow> 'w \<Rightarrow> ('e + (string, 32 word) smap) \<times> 'w" where
  "srv_GetConnectUsage h w = (let (connected, w) = handler_GetConnectUsage h w
     in (Inr (map (\<lambda>(k, n). (k, word_of_nat n)) connected), w))"

type_synonym status = "int \<times> string"

record 'w mgr_stub =
  stub_GetUsage :: "'w \<Rightarrow> (status \<times> 32 word) \<times> 'w"
  stub_CheckAccount :: "Account_ID_t \<Rightarrow> 'w \<Rightarrow> (status \<times> bool) \<times> 'w"
  stub_GetClientUsage :: "'w \<Rightarrow> (status \<times> 32 word) \<times> 'w"
  stub_GetConnectUsage :: "'w \<Rightarrow> (status \<times> (string \<times> 32 word) list) \<times> 'w"

text \<open>A status that is not \<open>OK\<close> becomes an error with the message of the status.\<close>

definition checked :: "(int \<Rightarrow> string) \<Rightarrow> (status \<times> 'a) \<times> 'w \<Rightarrow> (error_code + 'a) \<times> 'w" where
  "checked strerror c = (case c of (((code, msg), reply), w) \<Rightarrow>
     if code \<noteq> 0 then (Inl (SetMessage msg (ErrorCode_errno strerror code)), w) else (Inr reply, w))"

definition cl_GetUsage :: "(int \<Rightarrow> string) \<Rightarrow> 'w mgr_stub \<Rightarrow> 'w \<Rightarrow> (error_code + nat) \<times> 'w" where
  "cl_GetUsage strerror s w = (case checked strerror (stub_GetUsage s w) of (r, w) \<Rightarrow> (map_sum id unat r, w))"

definition cl_CheckAccount :: "(int \<Rightarrow> string) \<Rightarrow> 'w mgr_stub \<Rightarrow> Account_ID_t \<Rightarrow> 'w \<Rightarrow> (error_code + bool) \<times> 'w" where
  "cl_CheckAccount strerror s i w = checked strerror (stub_CheckAccount s i w)"

definition cl_GetClientUsage :: "(int \<Rightarrow> string) \<Rightarrow> 'w mgr_stub \<Rightarrow> 'w \<Rightarrow> (error_code + nat) \<times> 'w" where
  "cl_GetClientUsage strerror s w = (case checked strerror (stub_GetClientUsage s w) of (r, w) \<Rightarrow> (map_sum id unat r, w))"

definition cl_GetConnectUsage :: "(int \<Rightarrow> string) \<Rightarrow> 'w mgr_stub \<Rightarrow> 'w \<Rightarrow> (error_code + (string, nat) smap) \<times> 'w" where
  "cl_GetConnectUsage strerror s w = (case checked strerror (stub_GetConnectUsage s w) of (r, w) \<Rightarrow>
     (map_sum id (\<lambda>ps. fold (\<lambda>(k, n). smap_insert k (unat n)) ps []) r, w))"

section \<open>Commands\<close>

abbreviation (input) INQ_QUIT :: byte where "INQ_QUIT \<equiv> 0"
abbreviation (input) INQ_EXIT :: byte where "INQ_EXIT \<equiv> 1"
abbreviation (input) INQ_ACCOUNT_CHECK :: byte where "INQ_ACCOUNT_CHECK \<equiv> 131"
abbreviation (input) INQ_USAGE :: byte where "INQ_USAGE \<equiv> 134"
abbreviation (input) INQ_CLIENTUSAGE :: byte where "INQ_CLIENTUSAGE \<equiv> 135"
abbreviation (input) INQ_CONNUSAGE :: byte where "INQ_CONNUSAGE \<equiv> 136"

definition cmdtable :: "(string, byte) smap" where
  "cmdtable = fold (\<lambda>(name, code). smap_insert name code)
     [(''client'', INQ_CLIENTUSAGE), (''connect'', INQ_CONNUSAGE), (''usage'', INQ_USAGE), (''account'', INQ_ACCOUNT_CHECK),
      (''help'', ERR_DB_FAILED), (''quit'', INQ_QUIT), (''exit'', INQ_EXIT)] []"

fun str_cmp :: "string \<Rightarrow> string \<Rightarrow> nat" where
  "str_cmp (a # exp) (b # ctr) = (if a \<noteq> b then 0 else Suc (str_cmp exp ctr))"
| "str_cmp _ _ = 0"

text \<open>\<open>std::max_element\<close>: the first of the largest.\<close>

fun max_element :: "('k \<times> nat) \<Rightarrow> ('k \<times> nat) list \<Rightarrow> 'k \<times> nat" where
  "max_element m [] = m"
| "max_element m (p # ps) = max_element (if snd m < snd p then p else m) ps"

definition resolve :: "(string, byte) smap \<Rightarrow> string \<Rightarrow> byte result" where
  "resolve table command = (case smap_find command table of
       Some header \<Rightarrow> Inr header
     | None \<Rightarrow>
         (let compare = fold (\<lambda>(name, code). smap_insert code (str_cmp command name)) table []
          in case compare of
               [] \<Rightarrow> Inl (Undefined ''max_element of an empty range'')
             | p # ps \<Rightarrow>
                 (let answer = max_element p ps;
                      count = length (filter (\<lambda>q. snd q = snd answer) compare)
                  in if count > 1 then Inr ERR_PROTOCOL_VIOLATION else Inr (fst answer))))"

definition GetRequest :: "string \<Rightarrow> byte result" where
  "GetRequest command = resolve cmdtable command"

text \<open>A line is cut at every white space character; empty pieces are left out.\<close>

function split_words :: "string \<Rightarrow> string list" where
  "split_words input = (case find_first_of trimmer input of
       Some split_pos \<Rightarrow> (if take split_pos input \<noteq> [] then [take split_pos input] else []) @ split_words (drop (split_pos + 1) input)
     | None \<Rightarrow> if length input > 0 then [input] else [])"
  by pat_completeness auto
termination
  by (relation "measure length") (auto simp: find_first_of_def dest: find_first_less)

declare split_words.simps [simp del]

text \<open>The state of the program: the queue of commands, the shell mode, what is printed, and the server.\<close>

record 'w manager =
  mg_commands :: "string list"
  mg_shell_mode :: bool
  mg_cout :: string
  mg_cerr :: "string list"
  mg_server :: 'w

definition put :: "string \<Rightarrow> 'w manager \<Rightarrow> 'w manager" where
  "put s m = m\<lparr>mg_cout := mg_cout m @ s\<rparr>"

definition say :: "string \<Rightarrow> 'w manager \<Rightarrow> 'w manager" where
  "say s = put (s @ [CHR 0x0A])"

definition ShowCommands :: "'w manager \<Rightarrow> 'w manager" where
  "ShowCommands = fold say
     [''<Commands>'',
      [CHR 0x09] @ ''client'' @ [CHR 0x09, CHR 0x09, CHR 0x09] @ ''Get How many clients are connected.'',
      [CHR 0x09] @ ''connect'' @ [CHR 0x09, CHR 0x09, CHR 0x09] @ ''Get How many machines are connected with as what name.'',
      [CHR 0x09] @ ''usage'' @ [CHR 0x09, CHR 0x09, CHR 0x09] @ ''Get Usage of the machine. It will only works for '' @ [squote] @ ''battle'' @ [squote] @ '' Server.'',
      [CHR 0x09] @ ''account <id>'' @ [CHR 0x09] @ ''Find Account if it is connected.'']"

definition ShowHowToUse :: "string \<Rightarrow> 'w manager \<Rightarrow> 'w manager" where
  "ShowHowToUse prog_name m = ShowCommands (fold say
     [''[Usage] : '' @ prog_name @ '' [-<option> <arg>] [<command> ...]'', [], ''<Options>'',
      [CHR 0x09] @ ''-a, --address'' @ [CHR 0x09, CHR 0x09] @ ''Address of target machine. Default Value is '' @ [dquote] @ ''localhost'' @ [dquote] @ ''.'',
      [CHR 0x09] @ ''-p, --port'' @ [CHR 0x09, CHR 0x09, CHR 0x09] @ ''Port of target machine. Default Value is '' @ [dquote] @ ''52431'' @ [dquote] @ ''.'',
      [CHR 0x09] @ ''-s, --shell'' @ [CHR 0x09, CHR 0x09, CHR 0x09] @ ''Shell mode. Command like shell. If there are no command argument, it will on automatically.'', []] m)"

definition ErrorCodeExcept :: "error_code \<Rightarrow> exn" where
  "ErrorCodeExcept ec = StackTraceExcept (''['' @ m_type_str ec @ ''] ('' @ to_string_int (m_code ec) @ '') '' @ m_message ec)"

text \<open>One request to the server: \<open>call\<close> is a method of the client, \<open>show\<close> prints its answer.\<close>

definition ask :: "('w \<Rightarrow> (error_code + 'a) \<times> 'w) \<Rightarrow> ('a \<Rightarrow> 'w manager \<Rightarrow> 'w manager) \<Rightarrow> 'w manager \<Rightarrow> unit result \<times> 'w manager" where
  "ask call show m = (case call (mg_server m) of
       (Inl ec, w) \<Rightarrow> (Inl (ErrorCodeExcept ec), m\<lparr>mg_server := w\<rparr>)
     | (Inr answer, w) \<Rightarrow> (Inr (), show answer (m\<lparr>mg_server := w\<rparr>)))"

definition mgr_Process :: "(int \<Rightarrow> string) \<Rightarrow> 'w mgr_stub \<Rightarrow> 'w manager \<Rightarrow> unit result \<times> 'w manager" where
  "mgr_Process strerror client m =
     (case mg_commands m of
        [] \<Rightarrow> (Inl (Undefined ''front of an empty queue''), m)
      | command # rest \<Rightarrow>
          (case GetRequest command of
             Inl e \<Rightarrow> (Inl e, m)
           | Inr request \<Rightarrow>
               (let m = m\<lparr>mg_commands := rest\<rparr> in
                if request = INQ_USAGE then
                  ask (cl_GetUsage strerror client) (\<lambda>n. say (''[Mgr] : Server Usage : '' @ to_string_nat n)) m
                else if request = INQ_ACCOUNT_CHECK then
                  (case rest of
                     [] \<Rightarrow> (Inl (StackTraceExcept (command @ '' : Argument Required'')), ShowCommands m)
                   | argument # rest \<Rightarrow>
                       (let m = m\<lparr>mg_commands := rest\<rparr> in
                        case stoull argument of
                          Inl e \<Rightarrow> (Inl e, m)
                        | Inr i \<Rightarrow> ask (cl_CheckAccount strerror client i)
                            (\<lambda>found. say (''[Mgr] : Account '' @ to_string_nat (unat i) @ (if found then '' Found'' else '' Not Found''))) m))
                else if request = INQ_CLIENTUSAGE then
                  ask (cl_GetClientUsage strerror client) (\<lambda>n. say (''[Mgr] : Clients : '' @ to_string_nat n)) m
                else if request = INQ_CONNUSAGE then
                  ask (cl_GetConnectUsage strerror client)
                    (\<lambda>answer m. if length answer > 0
                        then fold (\<lambda>(k, n). say (k @ '' : '' @ to_string_nat n)) answer (say ''[Mgr] : Connections'' m)
                        else say ''No Connection'' (say ''[Mgr] : Connections'' m)) m
                else if request = ERR_DB_FAILED then (Inr (), ShowCommands (put ''[Mgr] : '' m))
                else if request = INQ_QUIT \<or> request = INQ_EXIT then (Inr (), m\<lparr>mg_shell_mode := False\<rparr>)
                else (Inl (StackTraceExcept (''Unknown Command '' @ [dquote] @ command @ [dquote])), ShowCommands m))))"

section \<open>The main loop\<close>

lemma ask_commands: "ask call show m = (r, m') \<Longrightarrow> (\<And>a m. mg_commands (show a m) = mg_commands m) \<Longrightarrow> mg_commands m' = mg_commands m"
  by (auto simp: ask_def split: prod.splits sum.splits)

lemma mg_commands_say [simp]: "mg_commands (say s m) = mg_commands m"
  by (simp add: say_def put_def)

lemma mg_commands_say_all [simp]: "mg_commands (fold (\<lambda>(k, n). say (f k n)) ps m) = mg_commands m"
  by (induction ps arbitrary: m) auto

lemma mg_commands_put [simp]: "mg_commands (put s m) = mg_commands m"
  by (simp add: put_def)

lemma mg_commands_ShowCommands [simp]: "mg_commands (ShowCommands m) = mg_commands m"
  by (simp add: ShowCommands_def)

lemma mgr_Process_shrinks:
  assumes "mgr_Process strerror client m = (Inr u, m')"
  shows "length (mg_commands m') < length (mg_commands m)"
proof -
  obtain command rest where c: "mg_commands m = command # rest"
    using assms by (cases "mg_commands m") (auto simp: mgr_Process_def)
  have "length (mg_commands m') \<le> length rest"
    using assms unfolding mgr_Process_def c
    by (auto simp: Let_def dest!: ask_commands split: sum.splits if_splits list.splits)
  then show ?thesis by (simp add: c)
qed

function process_all :: "(int \<Rightarrow> string) \<Rightarrow> 'w mgr_stub \<Rightarrow> 'w manager \<Rightarrow> unit result \<times> 'w manager" where
  "process_all strerror client m =
     (if mg_commands m = [] then (Inr (), m)
      else case mgr_Process strerror client m of
          (Inl e, m') \<Rightarrow> (Inl e, m')
        | (Inr _, m') \<Rightarrow> process_all strerror client m')"
  by pat_completeness auto
termination
  by (relation "measure (\<lambda>(_, _, m). length (mg_commands m))") (auto dest: mgr_Process_shrinks [OF sym])

declare process_all.simps [simp del]

text \<open>
  The loop of \<open>main\<close>: \<open>input\<close> is the line that has been read, \<open>lines\<close> are those that \<open>std::getline\<close> will still give. An
  exception of a command ends the run over the queue, and what is left in the queue stays there.
\<close>

fun mgr_loop :: "(int \<Rightarrow> string) \<Rightarrow> 'w mgr_stub \<Rightarrow> string \<Rightarrow> string list \<Rightarrow> 'w manager \<Rightarrow> 'w manager" where
  "mgr_loop strerror client input lines m =
     (let (r, m) = process_all strerror client (m\<lparr>mg_commands := mg_commands m @ split_words input\<rparr>);
          m = (case r of Inl e \<Rightarrow> m\<lparr>mg_cerr := mg_cerr m @ [exn_what e]\<rparr> | Inr _ \<Rightarrow> m)
      in if \<not> mg_shell_mode m then m
         else let m = put ''[Command] : '' m
              in case lines of
                   [] \<Rightarrow> m
                 | l # ls \<Rightarrow> if length l > 0 then mgr_loop strerror client l ls m else m)"

declare mgr_loop.simps [simp del]

section \<open>Arguments of the program\<close>

record mgr_opt =
  mo_addr :: string
  mo_port :: int
  mo_shell_mode :: bool
  mo_commands :: "string list"

definition mgr_ClearOpt :: mgr_opt where
  "mgr_ClearOpt = \<lparr>mo_addr = ''localhost'', mo_port = 52431, mo_shell_mode = False, mo_commands = []\<rparr>"

definition mgr_arg :: "getopt \<Rightarrow> mgr_opt \<Rightarrow> mgr_opt result" where
  "mgr_arg g opt = (case g of (c, optarg, arg) \<Rightarrow>
     if c = CHR ''a'' then bind_result (the_arg optarg) (\<lambda>s. Inr (opt\<lparr>mo_addr := s\<rparr>))
     else if c = CHR ''p'' then bind_result (the_arg optarg) (\<lambda>s. bind_result (atoi s) (\<lambda>n. Inr (opt\<lparr>mo_port := n\<rparr>)))
     else if c = CHR ''s'' then Inr (opt\<lparr>mo_shell_mode := True\<rparr>)
     else if c = CHR ''?'' then Inl (StackTraceExcept (''Unknown Argument : '' @ arg))
     else Inl (StackTraceExcept (''getopt_long gets error('' @ to_string_nat (of_char c) @ '') : '' @ arg)))"

fun mgr_args :: "getopt list \<Rightarrow> mgr_opt \<Rightarrow> mgr_opt result" where
  "mgr_args [] opt = Inr opt"
| "mgr_args (g # gs) opt = bind_result (mgr_arg g opt) (mgr_args gs)"

text \<open>\<open>rest\<close> are the arguments that are not options.\<close>

definition mgr_GetArgs :: "getopt list \<Rightarrow> string list \<Rightarrow> mgr_opt \<Rightarrow> mgr_opt result" where
  "mgr_GetArgs gs rest opt = bind_result (mgr_args gs opt) (\<lambda>opt.
     let opt = opt\<lparr>mo_commands := mo_commands opt @ rest\<rparr>
     in Inr (if mo_commands opt = [] then opt\<lparr>mo_shell_mode := True\<rparr> else opt))"

text \<open>\<open>connect\<close> is the channel to the server at an address.\<close>

definition mgr_main ::
  "(int \<Rightarrow> string) \<Rightarrow> (string \<Rightarrow> 'w mgr_stub) \<Rightarrow> string \<Rightarrow> getopt list \<Rightarrow> string list \<Rightarrow> string list \<Rightarrow> 'w manager \<Rightarrow> int \<times> 'w manager" where
  "mgr_main strerror connect prog_name gs rest lines m =
     (case mgr_GetArgs gs rest mgr_ClearOpt of
        Inl e \<Rightarrow> (-1, ShowHowToUse prog_name (m\<lparr>mg_cerr := mg_cerr m @ [exn_what e]\<rparr>))
      | Inr opt \<Rightarrow>
          (0, mgr_loop strerror (connect (mo_addr opt @ '':'' @ to_string_int (mo_port opt))) [] lines
                (m\<lparr>mg_commands := mo_commands opt, mg_shell_mode := mo_shell_mode opt \<or> mo_commands opt = []\<rparr>)))"

section \<open>Which command is meant\<close>

text \<open>\<open>c\<close> begins with something that only the command \<open>n\<close> begins with.\<close>

definition abbreviates :: "string set \<Rightarrow> string \<Rightarrow> string \<Rightarrow> bool" where
  "abbreviates names c n \<longleftrightarrow> n \<in> names \<and> (\<exists>p. prefix p c \<and> prefix p n \<and> (\<forall>n'\<in>names. prefix p n' \<longrightarrow> n' = n))"

lemma prefix_str_cmp: "prefix p c \<Longrightarrow> prefix p n \<longleftrightarrow> length p \<le> str_cmp c n"
proof (induction p arbitrary: c n)
  case (Cons a p)
  then obtain c' where "c = a # c'" "prefix p c'" by (cases c) auto
  then show ?case using Cons.IH [of c'] by (cases n) auto
qed simp

lemma str_cmp_le: "str_cmp c n \<le> length c"
  by (induction c n rule: str_cmp.induct) auto

lemma abbreviates_best: "abbreviates names c n \<longleftrightarrow> n \<in> names \<and> (\<forall>n'\<in>names. n' \<noteq> n \<longrightarrow> str_cmp c n' < str_cmp c n)"
proof
  assume r: "n \<in> names \<and> (\<forall>n'\<in>names. n' \<noteq> n \<longrightarrow> str_cmp c n' < str_cmp c n)"
  let ?p = "take (str_cmp c n) c"
  have p: "prefix ?p c" by (rule take_is_prefix)
  have "length ?p = str_cmp c n" using str_cmp_le [of c n] by simp
  then have le: "prefix ?p n'' \<longleftrightarrow> str_cmp c n \<le> str_cmp c n''" for n''
    using prefix_str_cmp [OF p, of n''] by simp
  have "n' = n" if "n' \<in> names" "prefix ?p n'" for n' using r that le [of n'] by fastforce
  with r p le [of n] show "abbreviates names c n" unfolding abbreviates_def by blast
next
  assume "abbreviates names c n"
  then obtain p where p: "n \<in> names" "prefix p c" "prefix p n" "\<forall>n'\<in>names. prefix p n' \<longrightarrow> n' = n"
    unfolding abbreviates_def by blast
  have "length p \<le> str_cmp c n" using prefix_str_cmp [OF p(2)] p(3) by simp
  moreover have "str_cmp c n' < length p" if "n' \<in> names" "n' \<noteq> n" for n'
    using prefix_str_cmp [OF p(2), of n'] p(4) that by auto
  ultimately show "n \<in> names \<and> (\<forall>n'\<in>names. n' \<noteq> n \<longrightarrow> str_cmp c n' < str_cmp c n)"
    using p(1) by fastforce
qed

lemma smap_find_fold_insert:
  "smap_find k (fold (\<lambda>(k, v). smap_insert k v) kvs m) = (case smap_find k m of Some v \<Rightarrow> Some v | None \<Rightarrow> map_of kvs k)"
  by (induction kvs arbitrary: m) (auto split: option.split)

lemma smap_ok_fold_insert: "smap_ok m \<Longrightarrow> smap_ok (fold (\<lambda>(k, v). smap_insert k v) kvs m)"
  by (induction kvs arbitrary: m) auto

lemma max_element_in: "max_element m ps \<in> set (m # ps)"
  by (induction ps arbitrary: m) auto

lemma max_element_max: "q \<in> set (m # ps) \<Longrightarrow> snd q \<le> snd (max_element m ps)"
proof (induction ps arbitrary: m q)
  case (Cons p ps)
  have "snd (if snd m < snd p then p else m) \<le> snd (max_element (if snd m < snd p then p else m) ps)"
    by (rule Cons.IH) simp
  then show ?case using Cons.IH [of q "if snd m < snd p then p else m"] Cons.prems by (auto split: if_splits)
qed simp

text \<open>The table of the comparison has an entry for each command.\<close>

lemma compare_entries:
  assumes "distinct (map snd table)"
  shows "smap_ok (fold (\<lambda>(name, code). smap_insert code (f name)) table [])"
    and "set (fold (\<lambda>(name, code). smap_insert code (f name)) table []) = (\<lambda>(name, code). (code, f name)) ` set table"
proof -
  let ?kvs = "map (\<lambda>(name, code). (code, f name)) table"
  let ?m = "fold (\<lambda>(k, v). smap_insert k v) ?kvs []"
  have eq: "fold (\<lambda>(name, code). smap_insert code (f name)) table [] = ?m"
    by (simp add: fold_map case_prod_unfold comp_def)
  show ok: "smap_ok (fold (\<lambda>(name, code). smap_insert code (f name)) table [])"
    unfolding eq by (rule smap_ok_fold_insert) simp
  have "distinct (map fst ?kvs)" using assms by (simp add: comp_def case_prod_unfold)
  then have "(k, v) \<in> set ?m \<longleftrightarrow> (k, v) \<in> set ?kvs" for k v
    using smap_find_set [OF ok [unfolded eq], of k v] by (simp add: smap_find_fold_insert)
  then show "set (fold (\<lambda>(name, code). smap_insert code (f name)) table []) = (\<lambda>(name, code). (code, f name)) ` set table"
    unfolding eq set_map [symmetric] by (intro set_eqI) (simp only: split_paired_all)
qed

lemma resolve_found: "smap_find c table = Some v \<Longrightarrow> resolve table c = Inr v"
  by (simp add: resolve_def)

lemma count_twice:
  assumes "distinct xs" "a \<in> set xs" "P a"
  shows "length (filter P xs) > 1 \<longleftrightarrow> (\<exists>q\<in>set xs. P q \<and> q \<noteq> a)"
proof -
  have "length (filter P xs) = card {q \<in> set xs. P q}"
    using assms(1) by (metis (no_types) distinct_card distinct_filter set_filter)
  also have "{q \<in> set xs. P q} = insert a {q \<in> set xs. P q \<and> q \<noteq> a}" using assms(2,3) by blast
  also have "card \<dots> = Suc (card {q \<in> set xs. P q \<and> q \<noteq> a})" by (subst card_insert_disjoint) auto
  finally show ?thesis by (auto simp: card_gt_0_iff)
qed

lemma distinct_pairs:
  assumes "distinct (map fst t)" "distinct (map snd t)" "(n, v) \<in> set t" "(n', v') \<in> set t"
  shows "n = n' \<longleftrightarrow> v = v'"
  using assms by (metis eq_key_imp_eq_value inj_onD distinct_map prod.inject snd_conv)

text \<open>A command that is not in the table: the best entry decides, unless there are two.\<close>

lemma resolve_missing:
  assumes "distinct (map fst table)" "distinct (map snd table)" "table \<noteq> []" "smap_find c table = None"
  obtains n v where "(n, v) \<in> set table" "\<forall>n'\<in>fst ` set table. str_cmp c n' \<le> str_cmp c n"
    "resolve table c = Inr (if \<exists>n'\<in>fst ` set table. n' \<noteq> n \<and> str_cmp c n' = str_cmp c n then ERR_PROTOCOL_VIOLATION else v)"
proof -
  let ?m = "fold (\<lambda>(name, code). smap_insert code (str_cmp c name)) table []"
  have m: "smap_ok ?m" "set ?m = (\<lambda>(name, code). (code, str_cmp c name)) ` set table"
    by (rule compare_entries [OF assms(2)])+
  obtain p ps where pm: "?m = p # ps" using m(2) assms(3) by (cases ?m) auto
  define a where "a = max_element p ps"
  have a: "a \<in> set ?m" "\<And>q. q \<in> set ?m \<Longrightarrow> snd q \<le> snd a"
    unfolding a_def pm by (rule max_element_in, rule max_element_max)
  then obtain n v where nv: "(n, v) \<in> set table" "a = (v, str_cmp c n)" using m(2) by auto
  have "distinct ?m" using smap_ok_distinct [OF m(1)] by (simp add: distinct_map)
  then have "length (filter (\<lambda>q. snd q = snd a) ?m) > 1 \<longleftrightarrow> (\<exists>q\<in>set ?m. snd q = snd a \<and> q \<noteq> a)"
    by (rule count_twice [OF _ a(1)]) simp
  also have "\<dots> \<longleftrightarrow> (\<exists>n'\<in>fst ` set table. n' \<noteq> n \<and> str_cmp c n' = str_cmp c n)"
    (is "?twice = ?tie")
  proof
    assume ?twice
    then obtain n' v' where q: "(n', v') \<in> set table" "str_cmp c n' = str_cmp c n" "v' \<noteq> v" unfolding m(2) nv(2) by auto blast
    then have "n' \<noteq> n" using distinct_pairs [OF assms(1,2) nv(1)] by blast
    with q show ?tie by force
  next
    assume ?tie
    then obtain n' v' where q: "(n', v') \<in> set table" "str_cmp c n' = str_cmp c n" "n' \<noteq> n" by auto
    then have "v' \<noteq> v" using distinct_pairs [OF assms(1,2) nv(1)] by blast
    with q show ?twice unfolding m(2) nv(2) by force
  qed
  finally have tie: "length (filter (\<lambda>q. snd q = snd a) ?m) > 1 \<longleftrightarrow> (\<exists>n'\<in>fst ` set table. n' \<noteq> n \<and> str_cmp c n' = str_cmp c n)" .
  have "resolve table c = Inr (if length (filter (\<lambda>q. snd q = snd a) ?m) > 1 then ERR_PROTOCOL_VIOLATION else v)"
    using nv(2) assms(4) unfolding resolve_def Let_def by (simp add: pm a_def)
  moreover have "\<forall>n'\<in>fst ` set table. str_cmp c n' \<le> str_cmp c n" using a(2) unfolding m(2) nv(2) by force
  ultimately show thesis using that [OF nv(1)] unfolding tie by blast
qed

lemma resolve_spec:
  assumes "distinct (map fst table)" "distinct (map snd table)" "table \<noteq> []" "smap_find c table = None"
  shows "resolve table c = Inr r \<longleftrightarrow>
     (\<exists>n. (n, r) \<in> set table \<and> abbreviates (fst ` set table) c n) \<or>
     r = ERR_PROTOCOL_VIOLATION \<and> (\<nexists>n. abbreviates (fst ` set table) c n)"
proof -
  obtain n v where nv: "(n, v) \<in> set table" "\<forall>n'\<in>fst ` set table. str_cmp c n' \<le> str_cmp c n"
    "resolve table c = Inr (if \<exists>n'\<in>fst ` set table. n' \<noteq> n \<and> str_cmp c n' = str_cmp c n then ERR_PROTOCOL_VIOLATION else v)"
    using resolve_missing [OF assms] by blast
  have n: "n \<in> fst ` set table" using nv(1) by force
  have only: "abbreviates (fst ` set table) c n0 \<Longrightarrow> n0 = n" for n0
    using nv(2) n unfolding abbreviates_best by (metis leD)
  have best: "abbreviates (fst ` set table) c n \<longleftrightarrow> \<not> (\<exists>n'\<in>fst ` set table. n' \<noteq> n \<and> str_cmp c n' = str_cmp c n)"
    using nv(2) n unfolding abbreviates_best by (metis le_neq_implies_less less_irrefl)
  show ?thesis
  proof (cases "abbreviates (fst ` set table) c n")
    case True
    have "resolve table c = Inr v" by (rule nv(3) [unfolded if_not_P [OF iffD1 [OF best True]]])
    moreover have "(\<exists>n0. (n0, r) \<in> set table \<and> abbreviates (fst ` set table) c n0) \<longleftrightarrow> v = r"
      using True only nv(1) distinct_pairs [OF assms(1,2) nv(1)] by blast
    ultimately show ?thesis using True by (metis Inr_inject)
  next
    case False
    then have e: "\<exists>n'\<in>fst ` set table. n' \<noteq> n \<and> str_cmp c n' = str_cmp c n" using best by blast
    have "resolve table c = Inr ERR_PROTOCOL_VIOLATION" by (rule nv(3) [unfolded if_P [OF e]])
    moreover have "\<nexists>n. abbreviates (fst ` set table) c n" using False only by blast
    ultimately show ?thesis by auto
  qed
qed

text \<open>Where no command begins with another one, a whole command abbreviates itself.\<close>

lemma resolve_abbreviation:
  assumes "smap_ok table" "distinct (map snd table)" "table \<noteq> []"
    and "\<forall>n\<in>fst ` set table. \<forall>n'\<in>fst ` set table. prefix n n' \<longrightarrow> n' = n"
  shows "resolve table c = Inr r \<longleftrightarrow>
     (\<exists>n. (n, r) \<in> set table \<and> abbreviates (fst ` set table) c n) \<or>
     r = ERR_PROTOCOL_VIOLATION \<and> (\<nexists>n. abbreviates (fst ` set table) c n)"
proof (cases "smap_find c table")
  case None
  show ?thesis by (rule resolve_spec [OF smap_ok_distinct [OF assms(1)] assms(2,3) None])
next
  case (Some v)
  then have cv: "(c, v) \<in> set table" using smap_find_set [OF assms(1)] by simp
  then have "c \<in> fst ` set table" by force
  with assms(4) have self: "abbreviates (fst ` set table) c c" unfolding abbreviates_def by blast
  moreover have "n = c" if "abbreviates (fst ` set table) c n" for n
    using self that unfolding abbreviates_best by (metis less_asym)
  ultimately have "(\<exists>n. (n, r) \<in> set table \<and> abbreviates (fst ` set table) c n) \<longleftrightarrow> v = r"
    using cv distinct_pairs [OF smap_ok_distinct [OF assms(1)] assms(2) cv] by blast
  then show ?thesis using resolve_found [OF Some] self by (metis Inr_inject)
qed

lemma cmdtable_eq:
  "cmdtable = [(''account'', INQ_ACCOUNT_CHECK), (''client'', INQ_CLIENTUSAGE), (''connect'', INQ_CONNUSAGE), (''exit'', INQ_EXIT),
     (''help'', ERR_DB_FAILED), (''quit'', INQ_QUIT), (''usage'', INQ_USAGE)]"
  by code_simp

text \<open>
  The manager takes a word for the command that it abbreviates: the one command that begins with some
  beginning of the word. A word that abbreviates no command is refused as \<open>ERR_PROTOCOL_VIOLATION\<close>.
\<close>

theorem manager_resolves:
  "GetRequest c = Inr r \<longleftrightarrow>
     (\<exists>n. (n, r) \<in> set cmdtable \<and> abbreviates (fst ` set cmdtable) c n) \<or>
     r = ERR_PROTOCOL_VIOLATION \<and> (\<forall>n. \<not> abbreviates (fst ` set cmdtable) c n)"
proof -
  have "smap_ok cmdtable" unfolding cmdtable_def by (rule smap_ok_fold_insert) simp
  moreover have "distinct (map snd cmdtable)" "cmdtable \<noteq> []" by (simp_all add: cmdtable_eq)
  moreover have "\<forall>n\<in>fst ` set cmdtable. \<forall>n'\<in>fst ` set cmdtable. prefix n n' \<longrightarrow> n' = n"
    by (simp add: cmdtable_eq)
  ultimately show ?thesis
    unfolding GetRequest_def using resolve_abbreviation [of cmdtable c r] by simp
qed

theorem manager_resolves_witness: "GetRequest ''us'' = Inr INQ_USAGE"
proof -
  have "prefix ''u'' ''us'' \<and> prefix ''u'' ''usage'' \<and> (\<forall>n'\<in>fst ` set cmdtable. prefix ''u'' n' \<longrightarrow> n' = ''usage'')"
    by (simp add: cmdtable_eq)
  then have "abbreviates (fst ` set cmdtable) ''us'' ''usage''"
    unfolding abbreviates_def by (intro conjI exI [of _ "''u''"]) (auto simp: cmdtable_eq)
  then show "GetRequest ''us'' = Inr INQ_USAGE"
    unfolding manager_resolves by (auto simp: cmdtable_eq)
qed

section \<open>Words of a line\<close>

lemma find_ws: "find_first_of trimmer s = find_first ws s"
  by (simp add: find_first_of_def)

lemma split_words_word: "\<forall>c\<in>set s. \<not> ws c \<Longrightarrow> s \<noteq> [] \<Longrightarrow> split_words s = [s]"
  using find_first_None [of ws s] by (subst split_words.simps) (simp add: find_ws)

lemma split_words_step:
  assumes "\<forall>c\<in>set s. \<not> ws c" "ws c"
  shows "split_words (s @ c # t) = (if s = [] then [] else [s]) @ split_words t"
  using find_first_append [OF assms] by (subst split_words.simps) (simp add: find_ws)

lemma split_words_blank: "blank p \<Longrightarrow> split_words (p @ s) = split_words s"
proof (induction p)
  case (Cons c p)
  then show ?case using split_words_step [of "[]" c "p @ s"] by (simp add: blank_def)
qed simp

text \<open>A word is found again between any white space.\<close>

lemma split_words_Cons:
  assumes "\<forall>c\<in>set w. \<not> ws c" "w \<noteq> []" "blank p" "blank q" "q \<noteq> []"
  shows "split_words (p @ w @ q @ s) = w # split_words s"
proof -
  obtain c q' where q: "q = c # q'" using assms(5) by (cases q) auto
  then have "ws c" "blank q'" using assms(4) by (simp_all add: blank_def)
  then show ?thesis
    using split_words_blank [OF assms(3)] split_words_step [OF assms(1) \<open>ws c\<close>, of "q' @ s"] split_words_blank [of q' s] assms(2)
    by (simp add: q)
qed

section \<open>Asking a server\<close>

text \<open>
  What gRPC promises: a call whose status is \<open>OK\<close> has run the method of the service once and carries its reply; the entries
  of a map come in any order.
\<close>

definition delivers :: "('e, 'w) mgr_handlers \<Rightarrow> 'w mgr_stub \<Rightarrow> bool" where
  "delivers h s \<longleftrightarrow>
     (\<forall>w st r w'. stub_GetUsage s w = ((st, r), w') \<and> fst st = 0 \<longrightarrow> srv_GetUsage h w = (Inr r, w')) \<and>
     (\<forall>i w st r w'. stub_CheckAccount s i w = ((st, r), w') \<and> fst st = 0 \<longrightarrow> srv_CheckAccount h i w = (Inr r, w')) \<and>
     (\<forall>w st r w'. stub_GetClientUsage s w = ((st, r), w') \<and> fst st = 0 \<longrightarrow> srv_GetClientUsage h w = (Inr r, w')) \<and>
     (\<forall>w st r w'. stub_GetConnectUsage s w = ((st, r), w') \<and> fst st = 0 \<longrightarrow>
        (\<exists>r'. srv_GetConnectUsage h w = (Inr r', w') \<and> set r = set r' \<and> length r = length r'))"

text \<open>What the manager relies on: a server in a consistent state knows its accounts and names its connections once.\<close>

locale managed_server =
  fixes h :: "('e, 'w) mgr_handlers"
    and inv :: "'w \<Rightarrow> bool"
    and accounts :: "'w \<Rightarrow> Account_ID_t set"
    and connections :: "'w \<Rightarrow> (string, nat) smap"
  assumes check: "inv w \<Longrightarrow> handler_CheckAccount h i w = (Inr (i \<in> accounts w), w)"
    and connect: "inv w \<Longrightarrow> handler_GetConnectUsage h w = (connections w, w)"
    and connections_ok: "inv w \<Longrightarrow> smap_ok (connections w)"
begin

lemma account_found:
  assumes "inv w" "delivers h client" "stub_CheckAccount client i w = (((0, msg), r), w')"
  shows "cl_CheckAccount strerror client i w = (Inr (i \<in> accounts w), w)"
proof -
  have "srv_CheckAccount h i w = (Inr r, w')" using assms(2,3) unfolding delivers_def by (metis fst_conv)
  then have "r = (i \<in> accounts w)" "w' = w" using check [OF assms(1)] by (auto simp: srv_CheckAccount_def)
  then show ?thesis by (simp add: cl_CheckAccount_def checked_def assms(3))
qed

lemma connections_found:
  assumes "inv w" "delivers h client" "stub_GetConnectUsage client w = (((0, msg), r), w')"
  shows "cl_GetConnectUsage strerror client w = (Inr (map (\<lambda>(k, n). (k, n mod 2 ^ 32)) (connections w)), w)"
proof -
  let ?c = "connections w" and ?m = "fold (\<lambda>(k, n). smap_insert k (unat n)) r []"
  obtain r' where r': "srv_GetConnectUsage h w = (Inr r', w')" "set r = set r'" "length r = length r'"
    using assms(2,3) unfolding delivers_def by (metis fst_conv)
  then have e: "r' = map (\<lambda>(k, n). (k, word_of_nat n)) ?c" "w' = w"
    using connect [OF assms(1)] by (auto simp: srv_GetConnectUsage_def)
  have d: "distinct (map fst ?c)" by (rule smap_ok_distinct [OF connections_ok [OF assms(1)]])
  have "fst ` set r = fst ` set ?c" unfolding r'(2) e(1) by force
  then have "card (set (map fst r)) = length (map fst r)"
    using d r'(3) e(1) by (metis distinct_card length_map set_map)
  then have dr: "distinct (map fst r)" by (rule card_distinct)
  let ?kvs = "map (\<lambda>(k, n). (k, unat n)) r" and ?d = "map (\<lambda>(k, n). (k, n mod 2 ^ 32)) ?c"
  have m: "?m = fold (\<lambda>(k, v). smap_insert k v) ?kvs []" by (simp add: fold_map comp_def case_prod_unfold)
  have "set ?kvs = set ?d"
    unfolding set_map r'(2) e(1) image_image by (rule image_cong) (auto simp: unat_of_nat)
  then have "map_of ?kvs = map_of ?d"
    using d dr by (subst map_of_inject_set) (simp_all add: comp_def case_prod_unfold)
  then have "smap_find k ?m = smap_find k ?d" for k
    unfolding m smap_find_fold_insert by (simp add: smap_find_map_of)
  moreover have "smap_ok ?m" unfolding m by (rule smap_ok_fold_insert) simp
  moreover have "smap_ok ?d" using connections_ok [OF assms(1)] by (simp add: smap_ok_def comp_def case_prod_unfold)
  ultimately have "?m = ?d" by (intro smap.entries_eqI) simp_all
  then show ?thesis by (simp add: cl_GetConnectUsage_def checked_def assms(3) e(2))
qed

lemma account_command:
  assumes "inv (mg_server m)" "delivers h client" "stub_CheckAccount client i (mg_server m) = (((0, msg), r), w')"
  shows "\<exists>m'. mgr_main strerror (\<lambda>_. client) prog [] [''account'', to_string_nat (unat i)] lines m = (0, m') \<and> mg_server m' = mg_server m \<and>
    mg_cerr m' = mg_cerr m \<and>
    mg_cout m' = mg_cout m @ ''[Mgr] : Account '' @ to_string_nat (unat i) @ (if i \<in> accounts (mg_server m) then '' Found'' else '' Not Found'') @ [CHR 0x0A]"
proof -
  have g: "GetRequest ''account'' = Inr INQ_ACCOUNT_CHECK" by code_simp
  have s: "split_words [] = []" by (simp add: split_words.simps find_first_of_def)
  show ?thesis
    using account_found [OF assms]
    by (simp add: mgr_main_def mgr_GetArgs_def mgr_ClearOpt_def mgr_loop.simps process_all.simps mgr_Process_def g s Let_def
        stoull_to_string ask_def say_def put_def)
qed

end

text \<open>A channel that loses nothing keeps this promise; a method that throws gives the status \<open>UNKNOWN\<close>.\<close>

definition direct :: "('e, 'w) mgr_handlers \<Rightarrow> 'w mgr_stub" where
  "direct h = \<lparr>
     stub_GetUsage = (\<lambda>w. case srv_GetUsage h w of (Inr r, w') \<Rightarrow> (((0, []), r), w') | (Inl _, w') \<Rightarrow> (((2, []), 0), w')),
     stub_CheckAccount = (\<lambda>i w. case srv_CheckAccount h i w of (Inr r, w') \<Rightarrow> (((0, []), r), w') | (Inl _, w') \<Rightarrow> (((2, []), False), w')),
     stub_GetClientUsage = (\<lambda>w. case srv_GetClientUsage h w of (Inr r, w') \<Rightarrow> (((0, []), r), w') | (Inl _, w') \<Rightarrow> (((2, []), 0), w')),
     stub_GetConnectUsage = (\<lambda>w. case srv_GetConnectUsage h w of (Inr r, w') \<Rightarrow> (((0, []), r), w') | (Inl _, w') \<Rightarrow> (((2, []), []), w'))\<rparr>"

lemma delivers_direct: "delivers h (direct h)"
  by (auto simp: delivers_def direct_def split: prod.splits sum.splits)

end
