(* ===== verification/ManagedServers.thy ===== *)
theory ManagedServers
  imports Manager MatchSessions BattleSessions
begin

text \<open>
  The three servers as the manager sees them: what each gives to its service, and what the manager prints.
\<close>

section \<open>Handlers\<close>

definition match_handlers :: "(db_exn, ('r, 'd) match) mgr_handlers" where
  "match_handlers = \<lparr>handler_GetUsage = (\<lambda>_. 0), handler_CheckAccount = match_CheckAccount,
     handler_GetClientUsage = GetClientUsage, handler_GetConnectUsage = match_GetConnectUsage\<rparr>"

definition battle_handlers :: "(db_exn, ('r, 'd) battle) mgr_handlers" where
  "battle_handlers = \<lparr>handler_GetUsage = battle_GetUsage, handler_CheckAccount = battle_CheckAccount,
     handler_GetClientUsage = GetClientUsage, handler_GetConnectUsage = (\<lambda>w. (battle_GetConnectUsage w, w))\<rparr>"

text \<open>The accounts that have a session.\<close>

definition match_accounts :: "('r, 'd) match \<Rightarrow> Account_ID_t set" where
  "match_accounts w = fst ` dm_rel (mt_sessions w)"

definition battle_accounts :: "('r, 'd) battle \<Rightarrow> Account_ID_t set" where
  "battle_accounts w = fst ` dm_rel (bt_sessions w)"

lemma server_ConnectUsage_ok: "smap_ok (server_ConnectUsage w)"
  by (simp add: server_ConnectUsage_def)

lemma smap_ok_fold_seeds: "smap_ok m \<Longrightarrow> smap_ok (fold (\<lambda>s. smap_insert (f s) n) ss m)"
  by (induction ss arbitrary: m) auto

lemma match_CheckAccount_run: "match_inv w \<Longrightarrow> match_CheckAccount i w = (Inr (i \<in> match_accounts w), w)"
  using find_account [of w i] FindLKey_wf [of "mt_sessions w" None i] dm_rel_left [of "mt_sessions w" i]
  by (simp add: match_CheckAccount_def db_bind_def db_return_def match_accounts_def match_inv_def)

lemma battle_CheckAccount_run: "battle_inv {} w \<Longrightarrow> battle_CheckAccount i w = (Inr (i \<in> battle_accounts w), w)"
  using FindLKey_wf [of "bt_sessions w" None i] dm_rel_left [of "bt_sessions w" i]
  by (simp add: battle_CheckAccount_def bt_on_sessions_def db_bind_def db_return_def battle_accounts_def battle_inv_def)

lemma match_GetConnectUsage_run:
  assumes "dm_wf (ms_streams (mt_service w))"
  shows "match_GetConnectUsage w = (fst (match_GetConnectUsage w), w)" "smap_ok (fst (match_GetConnectUsage w))"
  using GetAll_wf [OF assms, of 0] server_ConnectUsage_ok [of w]
  by (simp_all add: match_GetConnectUsage_def GetStreams_def smap_ok_fold_seeds)

interpretation match_managed: managed_server match_handlers "\<lambda>w. match_inv w \<and> dm_wf (ms_streams (mt_service w))"
  match_accounts "\<lambda>w. fst (match_GetConnectUsage w)"
  by unfold_locales (simp_all add: match_handlers_def match_CheckAccount_run match_GetConnectUsage_run(1) [symmetric] match_GetConnectUsage_run(2))

interpretation battle_managed: managed_server battle_handlers "battle_inv {}" battle_accounts battle_GetConnectUsage
  by unfold_locales (simp_all add: battle_handlers_def battle_CheckAccount_run battle_GetConnectUsage_def server_ConnectUsage_ok)

section \<open>What the manager prints\<close>

text \<open>
  C32. \<open>account\<close> \<^emph>\<open>id\<close>, given to the manager as its arguments, prints whether the battle server it is connected to has a session for the
  account, whatever the number, and changes nothing there.
\<close>

theorem manager_finds_account:
  assumes "battle_inv {} (mg_server m)" "delivers battle_handlers client"
    and "stub_CheckAccount client i (mg_server m) = (((0, msg), r), w')"
  shows "\<exists>m'. mgr_main strerror (\<lambda>_. client) prog [] [''account'', to_string_nat (unat i)] lines m = (0, m') \<and> mg_server m' = mg_server m \<and>
    mg_cerr m' = mg_cerr m \<and>
    mg_cout m' = mg_cout m @ ''[Mgr] : Account '' @ to_string_nat (unat i) @
      (if \<exists>cookie p. (i, cookie, p) \<in> dm_rel (bt_sessions (mg_server m)) then '' Found'' else '' Not Found'') @ [CHR 0x0A]"
proof -
  have "i \<in> battle_accounts (mg_server m) \<longleftrightarrow> (\<exists>cookie p. (i, cookie, p) \<in> dm_rel (bt_sessions (mg_server m)))"
    by (force simp: battle_accounts_def)
  then show ?thesis using battle_managed.account_command [OF assms, of strerror prog lines] by simp
qed

theorem manager_finds_account_witness:
  "\<exists>m'. mgr_main (\<lambda>_. []) (\<lambda>_. direct battle_handlers) ''drgb_mgr'' [] [''account'', to_string_nat (unat (3 :: Account_ID_t))] []
      \<lparr>mg_commands = [], mg_shell_mode = False, mg_cout = [], mg_cerr = [], mg_server = arena_start\<rparr> = (0, m') \<and>
    mg_cout m' = ''[Mgr] : Account '' @ to_string_nat (unat (3 :: Account_ID_t)) @ '' Not Found'' @ [CHR 0x0A]"
proof -
  let ?m = "\<lparr>mg_commands = [], mg_shell_mode = False, mg_cout = [], mg_cerr = [], mg_server = arena_start\<rparr>"
  have i: "battle_inv {} (mg_server ?m)" by (simp add: battle_inv_def)
  then have c: "stub_CheckAccount (direct battle_handlers) 3 (mg_server ?m) = (((0, []), False), mg_server ?m)"
    by (simp add: direct_def srv_CheckAccount_def battle_handlers_def battle_CheckAccount_run battle_accounts_def)
  have "\<not> (\<exists>cookie p. (3, cookie, p) \<in> dm_rel (bt_sessions (mg_server ?m)))" by simp
  with manager_finds_account [OF i delivers_direct c, of "\<lambda>_. []" "''drgb_mgr''" "[]"]
  show ?thesis unfolding manager.simps if_not_P append_Nil by (simp only: if_False) blast
qed

end
