(* ===== verification/StressClient.thy ===== *)
theory StressClient
  imports Server Manager Double Errors
begin

text \<open>
  The client of the stress test, \<open>test_stress/TestClient.cpp\<close>: a player that logs in, waits for a match, plays random
  actions and starts again. It is the only client of the protocol in the repository.

  A client is a state machine whose steps are the completions of its asynchronous operations. A socket
  is seen through the operation that is pending on it; its key exchange is one operation here (its steps are in the
  theory of the sockets). \<open>ts_clean\<close> is the clean-up handler, called when the socket has been closed.
  The clock, the random numbers, SHA-256 and the resolution of addresses are arguments; the clock and the dice are functions of the
  state of the client. The place in the source that \<open>RecordError\<close> adds to a text is left out.
\<close>

section \<open>State\<close>

abbreviation (input) STATE_CLOSED :: int where "STATE_CLOSED \<equiv> - 1"
abbreviation (input) STATE_RESTART :: int where "STATE_RESTART \<equiv> 0"
abbreviation (input) STATE_LOGIN :: int where "STATE_LOGIN \<equiv> 1"
abbreviation (input) STATE_MATCH :: int where "STATE_MATCH \<equiv> 2"
abbreviation (input) STATE_BATTLE :: int where "STATE_BATTLE \<equiv> 3"
abbreviation (input) STATE_CLOSING :: int where "STATE_CLOSING \<equiv> 4"

datatype tc_clean = Clean_login | Clean_match | Clean_battle | Clean_restart | Clean_shutdown
datatype tc_recv = Recv_auth | Recv_match | Recv_battle
datatype tc_goal = Goal_login | Goal_access tc_recv
datatype tc_pending = Connecting tc_goal | Exchanging tc_goal | Reading tc_recv | Idle

record tc_socket =
  ts_server :: int
  ts_pending :: tc_pending
  ts_open :: bool
  ts_readable :: bool
  ts_closing :: bool
  ts_doclose :: bool
  ts_clean :: "tc_clean option"
  ts_timeout :: bool
  ts_out :: "byte list list"

text \<open>\<open>tc_timer\<close> is the timer of a restart: none yet, or whether a wait is pending. Times are in nanoseconds, delays in seconds.\<close>

record test_client =
  tc_number :: int
  tc_now_state :: int
  tc_id :: "byte list"
  tc_pwd :: "byte list"
  tc_cookie :: Hash_t
  tc_battle_seed :: int
  tc_info :: "Achievement_ID_t \<times> int \<times> int \<times> int"
  tc_enemy_info :: "Achievement_ID_t \<times> int \<times> int \<times> int"
  tc_round :: int
  tc_play :: "byte \<times> int \<times> int"
  tc_enemy_play :: "byte \<times> int \<times> int"
  tc_last_error :: string
  tc_delay_auth :: rat
  tc_delay_match :: rat
  tc_delay_battle :: rat
  tc_delay_reserved :: rat
  tc_delay_start :: int
  tc_timer :: "bool option"
  tc_socket :: "tc_socket option"
  tc_thrown :: "error_code list"

record tc_env =
  te_addrs :: "(string \<times> int) list"
  te_isRunning :: bool
  te_doNotRestart :: bool
  te_now :: "test_client \<Rightarrow> int"
  te_dis :: "test_client \<Rightarrow> nat"
  te_sha :: "byte list \<Rightarrow> Hash_t"
  te_resolves :: "string \<Rightarrow> bool"

definition bytes_of :: "string \<Rightarrow> byte list" where
  "bytes_of s = map (\<lambda>c. word_of_nat (of_char c)) s"

definition TestClient :: "int \<Rightarrow> int \<Rightarrow> test_client" where
  "TestClient now num =
     \<lparr>tc_number = num, tc_now_state = STATE_CLOSED, tc_id = bytes_of (''testbot'' @ to_string_int num), tc_pwd = bytes_of (''testpwd'' @ to_string_int num),
      tc_cookie = [], tc_battle_seed = - 1, tc_info = (0, 0, 0, 0), tc_enemy_info = (0, 0, 0, 0), tc_round = 0, tc_play = (0, 0, 0), tc_enemy_play = (0, 0, 0),
      tc_last_error = [], tc_delay_auth = 0, tc_delay_match = 0, tc_delay_battle = 0, tc_delay_reserved = 0, tc_delay_start = now,
      tc_timer = None, tc_socket = None, tc_thrown = []\<rparr>"

section \<open>Delays and errors\<close>

definition StartRecord :: "tc_env \<Rightarrow> rat \<Rightarrow> (test_client, unit) db" where
  "StartRecord E reserved = modify (\<lambda>t. t\<lparr>tc_delay_start := te_now E t, tc_delay_reserved := reserved\<rparr>)"

definition delayed :: "tc_env \<Rightarrow> rat \<Rightarrow> test_client \<Rightarrow> test_client" where
  "delayed E reserved t =
     (let delay_end = te_now E t;
          delay = fl (fl (of_int (delay_end - tc_delay_start t)) / 1000000000);
          delay = max 0 (fl (delay - tc_delay_reserved t));
          pos = tc_now_state t;
          t = t\<lparr>tc_delay_start := delay_end, tc_delay_reserved := reserved\<rparr>
      in if pos = STATE_LOGIN then t\<lparr>tc_delay_auth := delay\<rparr>
         else if pos = STATE_MATCH then t\<lparr>tc_delay_match := delay\<rparr>
         else if pos = STATE_BATTLE then t\<lparr>tc_delay_battle := delay\<rparr>
         else t)"

definition GetDelay :: "tc_env \<Rightarrow> rat \<Rightarrow> (test_client, unit) db" where
  "GetDelay E reserved = modify (delayed E reserved)"

definition RecordError :: "string \<Rightarrow> (test_client, unit) db" where
  "RecordError reason = modify (\<lambda>t. t\<lparr>tc_last_error := reason\<rparr>)"

definition throw_error :: "error_code \<Rightarrow> (test_client, unit) db" where
  "throw_error ec = modify (\<lambda>t. t\<lparr>tc_thrown := tc_thrown t @ [ec]\<rparr>)"

definition GetStateName :: "int \<Rightarrow> string" where
  "GetStateName state =
     (if state = STATE_CLOSED then ''Closed''
      else if state = STATE_RESTART then ''Restart''
      else if state = STATE_LOGIN then ''Login''
      else if state = STATE_MATCH then ''Match''
      else if state = STATE_BATTLE then ''Batle''
      else ''Unknown'')"

definition set_state :: "int \<Rightarrow> (test_client, unit) db" where
  "set_state s = modify (\<lambda>t. t\<lparr>tc_now_state := s\<rparr>)"

section \<open>Sockets\<close>

definition on_sock :: "(tc_socket \<Rightarrow> tc_socket) \<Rightarrow> (test_client, unit) db" where
  "on_sock f = modify (\<lambda>t. t\<lparr>tc_socket := map_option f (tc_socket t)\<rparr>)"

definition ts_Send :: "byte list \<Rightarrow> tc_socket \<Rightarrow> tc_socket" where
  "ts_Send b s = (if \<not> ts_readable s \<or> ts_closing s then s else s\<lparr>ts_out := ts_out s @ [b]\<rparr>)"

definition ts_SetTimeout :: "tc_socket \<Rightarrow> tc_socket" where
  "ts_SetTimeout s = (if ts_closing s then s else s\<lparr>ts_timeout := True\<rparr>)"

text \<open>The TCP socket is opened by the first attempt to connect, and stays open when the attempt fails.\<close>

definition connect_to :: "tc_env \<Rightarrow> int \<Rightarrow> tc_goal \<Rightarrow> (test_client, unit) db" where
  "connect_to E server goal =
     db_bind (modify (\<lambda>t. t\<lparr>tc_socket := Some \<lparr>ts_server = server, ts_pending = Idle, ts_open = False, ts_readable = False, ts_closing = False,
         ts_doclose = False, ts_clean = None, ts_timeout = False, ts_out = []\<rparr>\<rparr>)) (\<lambda>_.
       if \<not> (0 \<le> server \<and> server < int (length (te_addrs E))) then db_throw (Std (Undefined ''addrs out of range''))
       else if \<not> te_resolves E (fst (te_addrs E ! nat server)) then db_throw (Std (StackTraceExcept ''resolve''))
       else on_sock (\<lambda>s. s\<lparr>ts_pending := Connecting goal, ts_open := True\<rparr>))"

definition LoginProcess :: "tc_env \<Rightarrow> (test_client, unit) db" where
  "LoginProcess E = (if \<not> te_isRunning E then db_return () else connect_to E 0 Goal_login)"

definition AccessProcess :: "tc_env \<Rightarrow> int \<Rightarrow> tc_recv \<Rightarrow> (test_client, unit) db" where
  "AccessProcess E server h = (if \<not> te_isRunning E then db_return () else connect_to E server (Goal_access h))"

text \<open>
  What \<open>DoLogin\<close>, \<open>DoMatch\<close>, \<open>DoBattle\<close>, \<open>DoRestart\<close> and \<open>Shutdown\<close> do once there is no socket: at once, or as the clean-up handler of
  the socket they close.
\<close>

definition run_clean :: "tc_env \<Rightarrow> tc_clean \<Rightarrow> (test_client, unit) db" where
  "run_clean E c = (case c of
       Clean_login \<Rightarrow> acts [set_state STATE_LOGIN, LoginProcess E]
     | Clean_match \<Rightarrow> acts [set_state STATE_MATCH, AccessProcess E 1 Recv_match]
     | Clean_battle \<Rightarrow> db_bind (set_state STATE_BATTLE) (\<lambda>_.
         db_bind (gets tc_battle_seed) (\<lambda>seed. AccessProcess E (1 + seed) Recv_battle))
     | Clean_restart \<Rightarrow> db_bind (set_state STATE_RESTART) (\<lambda>_.
         if te_doNotRestart E then db_return ()
         else db_bind (gets tc_timer) (\<lambda>tm. case tm of
             None \<Rightarrow> db_throw (Std (Undefined ''null timer''))
           | Some _ \<Rightarrow> modify (\<lambda>t. t\<lparr>tc_timer := Some True\<rparr>)))
     | Clean_shutdown \<Rightarrow> set_state STATE_CLOSING)"

definition sock_Close :: "tc_env \<Rightarrow> (test_client, unit) db" where
  "sock_Close E = db_bind (gets tc_socket) (\<lambda>sk. case sk of
       None \<Rightarrow> db_return ()
     | Some s \<Rightarrow>
         if ts_closing s then db_return ()
         else db_bind (on_sock (\<lambda>s. s\<lparr>ts_closing := True, ts_timeout := False\<rparr>)) (\<lambda>_.
           if ts_readable s then on_sock (\<lambda>s. s\<lparr>ts_doclose := True\<rparr>)
           else (case ts_clean s of None \<Rightarrow> db_return () | Some c \<Rightarrow> run_clean E c)))"

definition tc_Close :: "tc_env \<Rightarrow> (test_client, unit) db" where
  "tc_Close E = acts [set_state STATE_CLOSED, modify (\<lambda>t. t\<lparr>tc_timer := Some False\<rparr>), sock_Close E]"

definition do_clean :: "tc_env \<Rightarrow> tc_clean \<Rightarrow> (test_client, unit) db" where
  "do_clean E c = db_bind (gets tc_socket) (\<lambda>sk. case sk of
       None \<Rightarrow> run_clean E c
     | Some s \<Rightarrow> acts [on_sock (\<lambda>s. s\<lparr>ts_clean := Some c\<rparr>), tc_Close E])"

definition DoLogin :: "tc_env \<Rightarrow> (test_client, unit) db" where
  "DoLogin E = (if \<not> te_isRunning E then db_return () else do_clean E Clean_login)"

definition DoMatch :: "tc_env \<Rightarrow> (test_client, unit) db" where
  "DoMatch E = (if \<not> te_isRunning E then db_return () else do_clean E Clean_match)"

definition DoBattle :: "tc_env \<Rightarrow> (test_client, unit) db" where
  "DoBattle E = (if \<not> te_isRunning E then db_return () else do_clean E Clean_battle)"

definition DoRestart :: "tc_env \<Rightarrow> (test_client, unit) db" where
  "DoRestart E = (if \<not> te_isRunning E then db_return () else do_clean E Clean_restart)"

definition Shutdown :: "tc_env \<Rightarrow> (test_client, unit) db" where
  "Shutdown E = do_clean E Clean_shutdown"

definition isConnected :: "test_client \<Rightarrow> bool" where
  "isConnected t = (case tc_socket t of None \<Rightarrow> False | Some s \<Rightarrow> ts_open s)"

section \<open>Messages of the servers\<close>

definition tc_isNormalClose :: "error_code \<Rightarrow> bool" where
  "tc_isNormalClose = isNormalClose 22 1 2 125"

definition tc_send :: "byte_queue \<Rightarrow> (test_client, unit) db" where
  "tc_send q = on_sock (ts_Send (vector q))"

definition account_request :: "tc_env \<Rightarrow> byte \<Rightarrow> test_client \<Rightarrow> byte_queue" where
  "account_request E header t = push_string (tc_id t) (push_default True (te_sha E (tc_pwd t)) (code header))"

definition recv_state :: "tc_recv \<Rightarrow> int" where
  "recv_state h = (case h of Recv_auth \<Rightarrow> STATE_LOGIN | Recv_match \<Rightarrow> STATE_MATCH | Recv_battle \<Rightarrow> STATE_BATTLE)"

definition recv_name :: "tc_recv \<Rightarrow> string" where
  "recv_name h = (case h of Recv_auth \<Rightarrow> ''Login'' | Recv_match \<Rightarrow> ''Match'' | Recv_battle \<Rightarrow> ''Battle'')"

text \<open>A read that failed. \<open>AuthProcess\<close> also cancels the timeout, before anything else.\<close>

definition recv_failed :: "tc_env \<Rightarrow> tc_recv \<Rightarrow> error_code \<Rightarrow> (test_client, unit) db" where
  "recv_failed E h ec =
     db_bind (if tc_isNormalClose ec then db_return ()
              else acts [throw_error ec, RecordError (''Failed '' @ recv_name h @ '' : '' @ message_code ec)]) (\<lambda>_.
     db_bind (gets tc_now_state) (\<lambda>now.
       if now = recv_state h then DoRestart E
       else RecordError (''Late Close at '' @ GetStateName (recv_state h) @ '' to '' @ GetStateName now)))"

text \<open>A header that is not expected.\<close>

definition recv_unknown :: "tc_env \<Rightarrow> byte \<Rightarrow> (test_client, bool) db" where
  "recv_unknown E header =
     db_bind (acts [GetDelay E 0, throw_error (ErrorCode_custom header),
         RecordError (''Failed from Server '' @ to_string_nat (unat header)), DoRestart E]) (\<lambda>_. db_return False)"

text \<open>The handlers of a message; the value says whether the next one is read.\<close>

definition auth_message :: "tc_env \<Rightarrow> byte list \<Rightarrow> (test_client, bool) db" where
  "auth_message E m =
     db_bind (on_sock (\<lambda>s. s\<lparr>ts_timeout := False\<rparr>)) (\<lambda>_.
     db_bind (db_lift (pop_byte (bq_of_vector True m))) (\<lambda>(header, packet).
       if header = ANS_HEARTBEAT then db_bind (tc_send (code ANS_HEARTBEAT)) (\<lambda>_. db_return True)
       else if header \<in> {SUCCESS, ERR_EXIST_ACCOUNT_MATCH, ERR_EXIST_ACCOUNT_BATTLE} then
         db_bind (GetDelay E 0) (\<lambda>_.
         db_bind (db_lift (pop_hash packet)) (\<lambda>(cookie, packet).
         db_bind (modify (\<lambda>t. t\<lparr>tc_cookie := cookie\<rparr>)) (\<lambda>_.
         db_bind (if header = ERR_EXIST_ACCOUNT_BATTLE then db_bind (db_lift (pop_int packet)) (\<lambda>(seed, _). db_return (sint seed))
                  else db_return (- 1)) (\<lambda>seed.
         db_bind (modify (\<lambda>t. t\<lparr>tc_battle_seed := seed\<rparr>)) (\<lambda>_.
         db_bind (if seed < 0 then DoMatch E else DoBattle E) (\<lambda>_. db_return False))))))
       else if header = ERR_NO_MATCH_ACCOUNT then
         db_bind (GetDelay E 0) (\<lambda>_.
         db_bind (gets (account_request E REQ_REGISTER)) (\<lambda>regReq.
         db_bind (acts [on_sock ts_SetTimeout, StartRecord E 0, tc_send regReq]) (\<lambda>_. db_return True)))
       else recv_unknown E header))"

definition pop_info :: "byte_queue \<Rightarrow> ((Achievement_ID_t \<times> int \<times> int \<times> int) \<times> byte_queue) result" where
  "pop_info q =
     bind_result (pop_achieve q) (\<lambda>(nickname, q).
     bind_result (pop_int q) (\<lambda>(win, q).
     bind_result (pop_int q) (\<lambda>(draw, q).
     bind_result (pop_int q) (\<lambda>(loose, q). Inr ((nickname, sint win, sint draw, sint loose), q)))))"

definition pop_play :: "byte_queue \<Rightarrow> ((byte \<times> int \<times> int) \<times> byte_queue) result" where
  "pop_play q =
     bind_result (pop_byte q) (\<lambda>(action, q).
     bind_result (pop_int q) (\<lambda>(health, q).
     bind_result (pop_int q) (\<lambda>(energy, q). Inr ((action, sint health, sint energy), q))))"

definition match_message :: "tc_env \<Rightarrow> byte list \<Rightarrow> (test_client, bool) db" where
  "match_message E m =
     db_bind (db_lift (pop_byte (bq_of_vector True m))) (\<lambda>(header, packet).
       if header = ANS_HEARTBEAT then db_bind (tc_send (code ANS_HEARTBEAT)) (\<lambda>_. db_return True)
       else if header = GAME_PLAYER_INFO then
         db_bind (GetDelay E 0) (\<lambda>_.
         db_bind (db_lift (pop_info packet)) (\<lambda>(info, packet).
         db_bind (acts [modify (\<lambda>t. t\<lparr>tc_info := info\<rparr>), StartRecord E 1, tc_send (code REQ_STARTMATCH)]) (\<lambda>_. db_return True)))
       else if header = ANS_MATCHMADE then
         db_bind (GetDelay E 0) (\<lambda>_.
         db_bind (db_lift (pop_int packet)) (\<lambda>(seed, packet).
         db_bind (acts [modify (\<lambda>t. t\<lparr>tc_battle_seed := sint seed\<rparr>), DoBattle E]) (\<lambda>_. db_return False)))
       else recv_unknown E header)"

definition GetRandomAction :: "tc_env \<Rightarrow> test_client \<Rightarrow> 32 word" where
  "GetRandomAction E t = push_bit (te_dis E t) 1"

definition battle_message :: "tc_env \<Rightarrow> byte list \<Rightarrow> (test_client, bool) db" where
  "battle_message E m =
     db_bind (db_lift (pop_byte (bq_of_vector True m))) (\<lambda>(header, packet).
       if header = ANS_HEARTBEAT then db_bind (tc_send (code ANS_HEARTBEAT)) (\<lambda>_. db_return True)
       else if header = GAME_PLAYER_INFO_NAME then
         db_bind (GetDelay E 15) (\<lambda>_.
         db_bind (db_lift (pop_info packet)) (\<lambda>(info, packet).
         db_bind (modify (\<lambda>t. t\<lparr>tc_info := info\<rparr>)) (\<lambda>_.
         db_bind (db_lift (pop_info packet)) (\<lambda>(enemy, packet).
         db_bind (modify (\<lambda>t. t\<lparr>tc_enemy_info := enemy\<rparr>)) (\<lambda>_. db_return True)))))
       else if header = GAME_PLAYER_DISCONNEDTED then db_bind (GetDelay E 15) (\<lambda>_. db_return True)
       else if header = GAME_PLAYER_ALL_CONNECTED \<or> header = GAME_ROUND_RESULT then
         db_bind (GetDelay E (if header = GAME_ROUND_RESULT then 2 else 4)) (\<lambda>_.
         db_bind (db_lift (pop_int packet)) (\<lambda>(rnd, packet).
         db_bind (modify (\<lambda>t. t\<lparr>tc_round := sint rnd\<rparr>)) (\<lambda>_.
         db_bind (if sint rnd \<ge> 0 then
                    db_bind (db_lift (pop_play packet)) (\<lambda>(mine, packet).
                    db_bind (modify (\<lambda>t. t\<lparr>tc_play := mine\<rparr>)) (\<lambda>_.
                    db_bind (db_lift (pop_play packet)) (\<lambda>(other, packet).
                    modify (\<lambda>t. t\<lparr>tc_enemy_play := other\<rparr>))))
                  else db_return ()) (\<lambda>_.
         db_bind (gets (GetRandomAction E)) (\<lambda>next_action.
         db_bind (tc_send (push_word next_action (code REQ_GAME_ACTION))) (\<lambda>_. db_return True))))))
       else if header \<in> {GAME_FINISHED_WIN, GAME_FINISHED_DRAW, GAME_FINISHED_LOOSE, GAME_CRASHED} then
         db_bind (acts [GetDelay E 0, if header = GAME_CRASHED then RecordError ''Game Crashed'' else db_return (), DoMatch E]) (\<lambda>_. db_return False)
       else if header = GAME_PLAYER_ACHIEVE then db_bind (db_lift (pop_achieve packet)) (\<lambda>_. db_return True)
       else recv_unknown E header)"

definition recv_message :: "tc_env \<Rightarrow> tc_recv \<Rightarrow> byte list \<Rightarrow> (test_client, bool) db" where
  "recv_message E h = (case h of Recv_auth \<Rightarrow> auth_message E | Recv_match \<Rightarrow> match_message E | Recv_battle \<Rightarrow> battle_message E)"

text \<open>
  \<open>AuthProcess\<close>, \<open>MatchProcess\<close>, \<open>BattleProcess\<close>: \<open>StartRecv\<close> does nothing on a socket that is not readable or is closing; it handles the messages
  \<open>ms\<close> that are already in the buffer at once and waits for the next one then.
\<close>

definition tc_can_recv :: "test_client \<Rightarrow> bool" where
  "tc_can_recv t = (case tc_socket t of None \<Rightarrow> False | Some s \<Rightarrow> ts_readable s \<and> \<not> ts_closing s)"

fun start_recv :: "tc_env \<Rightarrow> tc_recv \<Rightarrow> byte list list \<Rightarrow> (test_client, unit) db" where
  "start_recv E h [] =
     db_bind (gets tc_can_recv) (\<lambda>can. if te_isRunning E \<and> can then on_sock (\<lambda>s. s\<lparr>ts_pending := Reading h\<rparr>) else db_return ())"
| "start_recv E h (m # ms) =
     db_bind (gets tc_can_recv) (\<lambda>can.
       if te_isRunning E \<and> can
       then db_bind (recv_message E h m) (\<lambda>go_on. if go_on then start_recv E h ms else db_return ())
       else db_return ())"

section \<open>Completions\<close>

definition failed_step :: "tc_env \<Rightarrow> string \<Rightarrow> error_code \<Rightarrow> (test_client, unit) db" where
  "failed_step E what ec = acts [throw_error ec, RecordError (what @ message_code ec), DoRestart E]"

text \<open>The connection has been made (\<open>ec\<close> is a success), or no address was left to try.\<close>

definition on_connected :: "tc_env \<Rightarrow> tc_goal \<Rightarrow> error_code \<Rightarrow> (test_client, unit) db" where
  "on_connected E goal ec =
     (if \<not> ec_isSuccessed ec then
        db_bind (on_sock (\<lambda>s. s\<lparr>ts_pending := Idle\<rparr>)) (\<lambda>_. failed_step E ''Failed Connect : '' ec)
      else on_sock (\<lambda>s. s\<lparr>ts_readable := True, ts_pending := Exchanging goal\<rparr>))"

definition on_exchanged :: "tc_env \<Rightarrow> tc_goal \<Rightarrow> error_code \<Rightarrow> byte list list \<Rightarrow> (test_client, unit) db" where
  "on_exchanged E goal ec ms =
     db_bind (on_sock (\<lambda>s. s\<lparr>ts_pending := Idle\<rparr>)) (\<lambda>_.
       if \<not> ec_isSuccessed ec then failed_step E ''Failed KeyExchange : '' ec
       else case goal of
           Goal_login \<Rightarrow>
             db_bind (gets (account_request E REQ_LOGIN)) (\<lambda>loginReq.
               acts [on_sock ts_SetTimeout, start_recv E Recv_auth ms, StartRecord E 0, tc_send loginReq])
         | Goal_access h \<Rightarrow>
             db_bind (acts [start_recv E h ms, StartRecord E 0]) (\<lambda>_.
             db_bind (gets tc_cookie) (\<lambda>cookie. tc_send (Create True cookie))))"

definition on_message :: "tc_env \<Rightarrow> tc_recv \<Rightarrow> byte list \<Rightarrow> byte list list \<Rightarrow> (test_client, unit) db" where
  "on_message E h m ms =
     db_bind (on_sock (\<lambda>s. s\<lparr>ts_pending := Idle\<rparr>)) (\<lambda>_.
     db_bind (recv_message E h m) (\<lambda>go_on. if go_on then start_recv E h ms else db_return ()))"

text \<open>\<open>Recv_Handle\<close> closes the socket after the handler.\<close>

definition on_read_error :: "tc_env \<Rightarrow> tc_recv \<Rightarrow> error_code \<Rightarrow> (test_client, unit) db" where
  "on_read_error E h ec =
     acts [on_sock (\<lambda>s. s\<lparr>ts_pending := Idle, ts_timeout := if h = Recv_auth then False else ts_timeout s\<rparr>), recv_failed E h ec, sock_Close E]"

definition on_closed :: "tc_env \<Rightarrow> (test_client, unit) db" where
  "on_closed E =
     db_bind (on_sock (\<lambda>s. s\<lparr>ts_doclose := False, ts_open := False, ts_readable := False\<rparr>)) (\<lambda>_.
     db_bind (gets tc_socket) (\<lambda>sk. case sk of
         None \<Rightarrow> db_return ()
       | Some s \<Rightarrow> (case ts_clean s of None \<Rightarrow> db_return () | Some c \<Rightarrow> run_clean E c)))"

definition on_timeout :: "tc_env \<Rightarrow> (test_client, unit) db" where
  "on_timeout E = acts [on_sock (\<lambda>s. s\<lparr>ts_timeout := False\<rparr>), RecordError ''Timeout at Login'', sock_Close E]"

definition on_restart :: "tc_env \<Rightarrow> (test_client, unit) db" where
  "on_restart E = db_bind (modify (\<lambda>t. t\<lparr>tc_timer := Some False\<rparr>)) (\<lambda>_.
     if te_doNotRestart E \<or> \<not> te_isRunning E then db_return () else LoginProcess E)"

section \<open>Moving from server to server\<close>

lemmas tc_defs = run_defs on_sock_def set_state_def tc_send_def GetDelay_def StartRecord_def RecordError_def throw_error_def Let_def

definition tc_live :: "test_client \<Rightarrow> tc_socket \<Rightarrow> bool" where
  "tc_live t s \<longleftrightarrow> tc_socket t = Some s \<and> ts_readable s \<and> \<not> ts_closing s"

text \<open>The client has arrived at a server: it has sent its cookie and waits for an answer.\<close>

definition tc_at :: "int \<Rightarrow> tc_recv \<Rightarrow> Hash_t \<Rightarrow> test_client \<Rightarrow> bool" where
  "tc_at server h cookie t \<longleftrightarrow> tc_now_state t = recv_state h \<and> tc_cookie t = cookie \<and>
     (\<exists>s. tc_live t s \<and> ts_server s = server \<and> ts_pending s = Reading h \<and> ts_out s = [cookie])"

definition tc_reaches :: "tc_env \<Rightarrow> int \<Rightarrow> bool" where
  "tc_reaches E server \<longleftrightarrow> 0 \<le> server \<and> server < int (length (te_addrs E)) \<and> te_resolves E (fst (te_addrs E ! nat server))"

text \<open>The completions between the last message of one server and the first of the next: closed, connected, keys exchanged.\<close>

definition arrive :: "tc_env \<Rightarrow> tc_recv \<Rightarrow> (test_client, unit) db" where
  "arrive E h = acts [on_closed E, on_connected E (Goal_access h) (ErrorCode_custom SUCCESS),
     on_exchanged E (Goal_access h) (ErrorCode_custom SUCCESS) []]"

definition tc_leaving :: "tc_clean \<Rightarrow> test_client \<Rightarrow> bool" where
  "tc_leaving c t \<longleftrightarrow> (\<exists>s. tc_socket t = Some s \<and> ts_clean s = Some c)"

lemma delayed_fields [simp]:
  "tc_socket (delayed E r t) = tc_socket t" "tc_cookie (delayed E r t) = tc_cookie t" "tc_battle_seed (delayed E r t) = tc_battle_seed t"
  "tc_now_state (delayed E r t) = tc_now_state t" "tc_timer (delayed E r t) = tc_timer t" "tc_info (delayed E r t) = tc_info t"
  "tc_thrown (delayed E r t) = tc_thrown t"
  by (simp_all add: delayed_def Let_def)

lemma do_clean_live [simp]:
  assumes "tc_socket t = Some s" "ts_readable s" "\<not> ts_closing s"
  shows "do_clean E c t = (Inr (), t\<lparr>tc_now_state := STATE_CLOSED, tc_timer := Some False,
     tc_socket := Some (s\<lparr>ts_clean := Some c, ts_closing := True, ts_timeout := False, ts_doclose := True\<rparr>)\<rparr>)"
  using assms by (simp add: do_clean_def tc_Close_def sock_Close_def tc_defs)

lemma vector_Create_bytes: "vector (Create True p) = p"
  by (simp add: vector_def ordered_def)

lemma arrive_run:
  assumes "te_isRunning E" "tc_leaving c t" "tc_reaches E server"
    and "(c, h, server) \<in> {(Clean_match, Recv_match, 1), (Clean_battle, Recv_battle, 1 + tc_battle_seed t)}"
  shows "\<exists>t'. arrive E h t = (Inr (), t') \<and> tc_at server h (tc_cookie t) t'"
  using assms
  by (auto simp: arrive_def on_closed_def on_connected_def on_exchanged_def run_clean_def AccessProcess_def connect_to_def tc_leaving_def
      tc_reaches_def tc_at_def tc_live_def tc_can_recv_def recv_state_def ts_Send_def vector_Create_bytes tc_defs)

lemma pop_answer:
  assumes "length cookie = 32" "length r < 2 ^ 31 - 33"
  shows "pop_byte (bq_of_vector True (h # cookie @ r)) = Inr (h, (bq_of_vector True (h # cookie @ r))\<lparr>bq_ptr := 1\<rparr>)"
    and "pop_hash ((bq_of_vector True (h # cookie @ r))\<lparr>bq_ptr := 1\<rparr>) =
      Inr (cookie, (bq_of_vector True (h # cookie @ r))\<lparr>bq_ptr := 33\<rparr>)"
  using assms pop_byte_packet [of "h # cookie @ r"]
    pop_hash_packet [of "h # cookie @ r" "(bq_of_vector True (h # cookie @ r))\<lparr>bq_ptr := 1\<rparr>"]
  by auto

lemma auth_answer_run:
  assumes "te_isRunning E" "tc_live t s" "length cookie = 32" "header \<in> {SUCCESS, ERR_EXIST_ACCOUNT_MATCH}"
  shows "\<exists>t'. on_message E Recv_auth (header # cookie) [] t = (Inr (), t') \<and> tc_leaving Clean_match t' \<and> tc_cookie t' = cookie"
proof -
  have b: "pop_byte (bq_of_vector True (header # cookie)) = Inr (header, (bq_of_vector True (header # cookie))\<lparr>bq_ptr := 1\<rparr>)"
    and h: "pop_hash ((bq_of_vector True (header # cookie))\<lparr>bq_ptr := 1\<rparr>) = Inr (cookie, (bq_of_vector True (header # cookie))\<lparr>bq_ptr := 33\<rparr>)"
    using pop_answer [OF assms(3), where h = header and r = "[]"] by simp_all
  show ?thesis
    using assms(1,2,4)
    by (auto simp: on_message_def recv_message_def auth_message_def b h DoMatch_def tc_live_def tc_leaving_def tc_defs)
qed

section \<open>An example\<close>

definition stress_env :: tc_env where
  "stress_env = \<lparr>te_addrs = [(''localhost'', 54322), (''localhost'', 54323), (''localhost'', 54324)], te_isRunning = True, te_doNotRestart = False,
     te_now = (\<lambda>_. 0), te_dis = (\<lambda>_. 0), te_sha = (\<lambda>_. replicate 32 9), te_resolves = (\<lambda>_. True)\<rparr>"

definition stress_sock :: tc_socket where
  "stress_sock = \<lparr>ts_server = 0, ts_pending = Exchanging Goal_login, ts_open = True, ts_readable = True, ts_closing = False,
     ts_doclose = False, ts_clean = None, ts_timeout = False, ts_out = []\<rparr>"

definition stress_bot :: test_client where
  "stress_bot = (TestClient 0 1)\<lparr>tc_now_state := STATE_LOGIN, tc_socket := Some stress_sock\<rparr>"

lemma stress_facts:
  "te_isRunning stress_env" "tc_live stress_bot stress_sock" "length (te_sha stress_env p) = 32" "tc_reaches stress_env 1" "tc_reaches stress_env 2"
  by (simp_all add: stress_env_def tc_live_def stress_bot_def stress_sock_def tc_reaches_def)

section \<open>A restart that is lost\<close>

text \<open>Nothing is pending: no operation on the socket, no handshake of a close, no timer.\<close>

definition tc_dead :: "test_client \<Rightarrow> bool" where
  "tc_dead t \<longleftrightarrow> tc_timer t \<noteq> Some True \<and>
     (\<forall>s. tc_socket t = Some s \<longrightarrow> ts_pending s = Idle \<and> ts_closing s \<and> \<not> ts_readable s \<and> \<not> ts_open s \<and> \<not> ts_doclose s \<and> \<not> ts_timeout s)"

text \<open>
  The login after a restart does not set the state back to \<open>STATE_LOGIN\<close>. When the read of this login fails because the connection is
  gone, the client takes it for a late close, does not restart, and nothing is pending any more; nor does the command \<open>restart\<close>
  reach it, which skips the clients in \<open>STATE_RESTART\<close>.
\<close>

theorem restart_lost:
  assumes "te_isRunning E" "\<not> te_doNotRestart E" "tc_reaches E 0" "tc_now_state t = STATE_RESTART"
    and "\<not> ec_isSuccessed ec"
  shows "\<exists>t1 t2. acts [on_restart E, on_connected E Goal_login (ErrorCode_custom SUCCESS),
        on_exchanged E Goal_login (ErrorCode_custom SUCCESS) []] t = (Inr (), t1) \<and> tc_now_state t1 = STATE_RESTART \<and>
      acts [on_sock (\<lambda>s. s\<lparr>ts_open := False, ts_readable := False\<rparr>), on_read_error E Recv_auth ec] t1 = (Inr (), t2) \<and>
      tc_now_state t2 = STATE_RESTART \<and> tc_dead t2"
proof -
  let ?lost = "acts [on_sock (\<lambda>s. s\<lparr>ts_open := False, ts_readable := False\<rparr>), on_read_error E Recv_auth ec]"
  have "\<exists>t1 s. acts [on_restart E, on_connected E Goal_login (ErrorCode_custom SUCCESS),
        on_exchanged E Goal_login (ErrorCode_custom SUCCESS) []] t = (Inr (), t1) \<and> tc_now_state t1 = STATE_RESTART \<and>
      tc_timer t1 = Some False \<and> tc_live t1 s \<and> \<not> ts_doclose s \<and> ts_clean s = None"
    using assms(1-4)
    by (simp add: on_restart_def LoginProcess_def connect_to_def tc_reaches_def on_connected_def on_exchanged_def tc_can_recv_def
        tc_live_def ts_SetTimeout_def ts_Send_def tc_defs)
  then obtain t1 s where t1: "acts [on_restart E, on_connected E Goal_login (ErrorCode_custom SUCCESS),
        on_exchanged E Goal_login (ErrorCode_custom SUCCESS) []] t = (Inr (), t1)" "tc_now_state t1 = STATE_RESTART"
      "tc_timer t1 = Some False" "tc_live t1 s" "\<not> ts_doclose s" "ts_clean s = None" by blast
  have "\<exists>t2. ?lost t1 = (Inr (), t2) \<and> tc_now_state t2 = STATE_RESTART \<and> tc_dead t2"
    using t1(2-6) by (auto simp: on_read_error_def recv_failed_def recv_state_def sock_Close_def tc_live_def tc_dead_def tc_defs)
  with t1(1,2) show ?thesis by blast
qed

theorem restart_lost_witness:
  "\<exists>t1 t2. acts [on_restart stress_env, on_connected stress_env Goal_login (ErrorCode_custom SUCCESS),
        on_exchanged stress_env Goal_login (ErrorCode_custom SUCCESS) []] (stress_bot\<lparr>tc_now_state := STATE_RESTART\<rparr>) = (Inr (), t1) \<and>
      acts [on_sock (\<lambda>s. s\<lparr>ts_open := False, ts_readable := False\<rparr>), on_read_error stress_env Recv_auth (ErrorCode_custom ERR_CONNECTION_CLOSED)] t1 =
        (Inr (), t2) \<and> tc_dead t2"
  using restart_lost [OF stress_facts(1), of "stress_bot\<lparr>tc_now_state := STATE_RESTART\<rparr>" "ErrorCode_custom ERR_CONNECTION_CLOSED"]
  by (force simp: stress_env_def tc_reaches_def)

end
