(* ===== verification/ClientRuns.thy ===== *)
theory ClientRuns
  imports StressClient MatchHandover BattleSessions
begin

text \<open>
  The client of the stress test against the servers: it understands what they send, and follows its session from
  the authentication server to the match server and to the battle server.
\<close>

section \<open>Reading the fields of a message\<close>

definition int32 :: "int \<Rightarrow> bool" where
  "int32 i \<longleftrightarrow> - (2 ^ 31) \<le> i \<and> i < 2 ^ 31"

lemma sint_int32: "int32 i \<Longrightarrow> sint (word_of_int i :: 32 word) = i"
  by (simp add: int32_def int_word_sint)

lemma pop_int_field:
  assumes "bq_wf q" "bq_defaultEndian q" "bq_rest q = obj True (x :: 32 word) @ t"
  shows "\<exists>q'. pop_int q = Inr (x, q') \<and> bq_wf q' \<and> bq_rest q' = t \<and> bq_defaultEndian q'"
  using int_field.pop_field [of q True True x t, OF assms(1)] assms(2,3) by (simp add: ordered_def pop_int_def pop_value_def)

lemma pop_achieve_field:
  assumes "bq_wf q" "bq_defaultEndian q" "bq_rest q = obj True (x :: Achievement_ID_t) @ t"
  shows "\<exists>q'. pop_achieve q = Inr (x, q') \<and> bq_wf q' \<and> bq_rest q' = t \<and> bq_defaultEndian q'"
  using id_field.pop_field [of q True True x t, OF assms(1)] assms(2,3) by (simp add: ordered_def pop_achieve_def pop_value_def)

lemma pop_header:
  assumes "length v < 2 ^ 31 - 1"
  shows "\<exists>q'. pop_byte (bq_of_vector True (h # v)) = Inr (h, q') \<and> bq_wf q' \<and> bq_rest q' = v \<and> bq_defaultEndian q'"
  using pop_byte_packet [of "h # v"] assms by (auto simp: bq_wf_def bq_rest_def)

text \<open>The statistics of a player, as the servers write them.\<close>

definition info_bytes :: "Achievement_ID_t \<times> int \<times> int \<times> int \<Rightarrow> byte list" where
  "info_bytes info = (case info of (nickname, win, draw, loose) \<Rightarrow>
     obj True nickname @ obj True (word_of_int win :: 32 word) @ obj True (word_of_int draw :: 32 word) @ obj True (word_of_int loose :: 32 word))"

definition info_ok :: "Achievement_ID_t \<times> int \<times> int \<times> int \<Rightarrow> bool" where
  "info_ok info = (case info of (nickname, win, draw, loose) \<Rightarrow> int32 win \<and> int32 draw \<and> int32 loose)"

lemma length_info_bytes [simp]: "length (info_bytes info) = 20"
  by (cases info) (simp add: info_bytes_def)

lemma push_default_endian: "bq_defaultEndian (push_default g p q) = bq_defaultEndian q"
  by (simp add: push_default_def)

lemma player_info_bytes: "bq_defaultEndian q \<Longrightarrow> bq_bytes (player_info info q) = bq_bytes q @ info_bytes info"
  by (cases info) (simp add: player_info_def info_bytes_def push_int_def push_word_def push_default_bytes push_default_endian ordered_def)

lemma pop_info_field:
  assumes "bq_wf q" "bq_defaultEndian q" "bq_rest q = info_bytes info @ t" "info_ok info"
  shows "\<exists>q'. pop_info q = Inr (info, q') \<and> bq_wf q' \<and> bq_rest q' = t \<and> bq_defaultEndian q'"
proof -
  obtain nickname win draw loose where info: "info = (nickname, win, draw, loose)" by (cases info)
  obtain q1 where 1: "pop_achieve q = Inr (nickname, q1)" "bq_wf q1" "bq_defaultEndian q1"
    "bq_rest q1 = obj True (word_of_int win :: 32 word) @ obj True (word_of_int draw :: 32 word) @ obj True (word_of_int loose :: 32 word) @ t"
    using pop_achieve_field [OF assms(1,2), of nickname] assms(3) by (auto simp: info info_bytes_def)
  obtain q2 where 2: "pop_int q1 = Inr (word_of_int win, q2)" "bq_wf q2" "bq_defaultEndian q2"
    "bq_rest q2 = obj True (word_of_int draw :: 32 word) @ obj True (word_of_int loose :: 32 word) @ t"
    using pop_int_field [OF 1(2-4)] by blast
  obtain q3 where 3: "pop_int q2 = Inr (word_of_int draw, q3)" "bq_wf q3" "bq_defaultEndian q3"
    "bq_rest q3 = obj True (word_of_int loose :: 32 word) @ t"
    using pop_int_field [OF 2(2-4)] by blast
  obtain q4 where "pop_int q3 = Inr (word_of_int loose, q4)" "bq_wf q4" "bq_defaultEndian q4" "bq_rest q4 = t"
    using pop_int_field [OF 3(2-4)] by blast
  with 1(1) 2(1) 3(1) assms(4) show ?thesis
    by (simp add: pop_info_def info info_ok_def sint_int32)
qed

section \<open>What the servers send\<close>

text \<open>
  The message that greets a player in its battle tells it its own statistics and those of its opponent, in this order, on
  either side of a game made for the two.
\<close>

theorem client_greeted:
  assumes "te_isRunning E" "tc_live t s" "side = 0 \<or> side = 1"
    and "gi_PlayerInfos gi = [player_info left (bq_new True), player_info right (bq_new True)]" "info_ok left" "info_ok right"
  shows "\<exists>t'. on_message E Recv_battle (welcome_packet gi side) [] t = (Inr (), t') \<and> tc_now_state t' = tc_now_state t \<and>
    (tc_info t', tc_enemy_info t') = (if side = 0 then (left, right) else (right, left)) \<and>
    (\<exists>s'. tc_live t' s' \<and> ts_pending s' = Reading Recv_battle)"
proof -
  define mine where "mine = (if side = 0 then left else right)"
  define other where "other = (if side = 0 then right else left)"
  have ok: "info_ok mine" "info_ok other" using assms(5,6) by (simp_all add: mine_def other_def)
  have w: "welcome_packet gi side = GAME_PLAYER_INFO_NAME # info_bytes mine @ info_bytes other"
    using assms(3,4) by (auto simp: welcome_packet_def player_info_bytes bq_new_def mine_def other_def)
  obtain q1 where 1: "pop_byte (bq_of_vector True (GAME_PLAYER_INFO_NAME # info_bytes mine @ info_bytes other)) = Inr (GAME_PLAYER_INFO_NAME, q1)"
    "bq_wf q1" "bq_defaultEndian q1" "bq_rest q1 = info_bytes mine @ info_bytes other"
    using pop_header [of "info_bytes mine @ info_bytes other" GAME_PLAYER_INFO_NAME] by auto
  obtain q2 where 2: "pop_info q1 = Inr (mine, q2)" "bq_wf q2" "bq_defaultEndian q2" "bq_rest q2 = info_bytes other @ []"
    using pop_info_field [OF 1(2-4) ok(1)] by auto
  obtain q3 where 3: "pop_info q2 = Inr (other, q3)" using pop_info_field [OF 2(2-4) ok(2)] by blast
  show ?thesis
    using assms(1-3) 1(1) 2(1) 3
    by (auto simp: w on_message_def recv_message_def battle_message_def tc_live_def tc_can_recv_def mine_def other_def tc_defs)
qed

lemma made_run:
  assumes "te_isRunning E" "tc_live t s" "0 \<le> n" "n < 2 ^ 31"
  shows "\<exists>t'. on_message E Recv_match (made_packet n) [] t = (Inr (), t') \<and> tc_leaving Clean_battle t' \<and> tc_cookie t' = tc_cookie t \<and>
    tc_battle_seed t' = n"
proof -
  obtain q1 where 1: "pop_byte (bq_of_vector True (made_packet n)) = Inr (ANS_MATCHMADE, q1)" "bq_wf q1" "bq_defaultEndian q1"
    "bq_rest q1 = obj True (word_of_int n :: 32 word) @ []"
    using pop_header [of "obj True (word_of_int n :: 32 word)" ANS_MATCHMADE] by (auto simp: made_packet_def)
  obtain q2 where 2: "pop_int q1 = Inr (word_of_int n, q2)" using pop_int_field [OF 1(2-4)] by blast
  have "sint (word_of_int n :: 32 word) = n" using assms(3,4) by (intro sint_int32) (simp add: int32_def)
  then show ?thesis
    using assms(1,2) by (auto simp: on_message_def recv_message_def match_message_def 1(1) 2 DoBattle_def tc_live_def tc_leaving_def tc_defs)
qed

lemma request_bytes: "vector (account_request E header t) = header # te_sha E (tc_pwd t) @ tc_id t"
  by (simp add: account_request_def vector_def push_string_def pushraw_bytes push_default_bytes push_default_endian ordered_def)

lemma login_sent:
  assumes "te_isRunning E" "tc_live t s"
  shows "\<exists>t0 s0. on_exchanged E Goal_login (ErrorCode_custom SUCCESS) [] t = (Inr (), t0) \<and> tc_live t0 s0 \<and>
    ts_pending s0 = Reading Recv_auth \<and> ts_out s0 = ts_out s @ [vector (account_request E REQ_LOGIN t)]"
  using assms
  by (simp add: on_exchanged_def tc_live_def tc_can_recv_def ts_SetTimeout_def ts_Send_def account_request_def tc_defs)

section \<open>The way of a session\<close>

text \<open>
  C13. The client follows its session. After the key exchange with the authentication server it sends a login that this server reads as its
  account and the hash of its password; the answer \<open>SUCCESS\<close> with a cookie takes it to the match server, where it sends this cookie;
  and the message of a made match with the number of a battle server takes it there, with the same cookie.
\<close>

theorem client_follows_session:
  assumes "te_isRunning E" "tc_live t s" "length (te_sha E (tc_pwd t)) = 32" "length (tc_id t) < 2 ^ 30"
    and "length cookie = 32" "0 \<le> n" "n < 2 ^ 31" "tc_reaches E 1" "tc_reaches E (1 + n)"
  shows "\<exists>t0 s0 t1 t2. on_exchanged E Goal_login (ErrorCode_custom SUCCESS) [] t = (Inr (), t0) \<and> tc_live t0 s0 \<and>
      ts_pending s0 = Reading Recv_auth \<and> ts_out s0 = ts_out s @ [vector (account_request E REQ_LOGIN t)] \<and>
      (\<forall>c w. auth_header c (bq_of_vector True (vector (account_request E REQ_LOGIN t))) w = (Inr (REQ_LOGIN, te_sha E (tc_pwd t), tc_id t), w)) \<and>
      acts [on_message E Recv_auth (SUCCESS # cookie) [], arrive E Recv_match] t0 = (Inr (), t1) \<and> tc_at 1 Recv_match cookie t1 \<and>
      acts [on_message E Recv_match (made_packet n) [], arrive E Recv_battle] t1 = (Inr (), t2) \<and> tc_at (1 + n) Recv_battle cookie t2"
proof -
  obtain t0 s0 where 0: "on_exchanged E Goal_login (ErrorCode_custom SUCCESS) [] t = (Inr (), t0)" "tc_live t0 s0"
    "ts_pending s0 = Reading Recv_auth" "ts_out s0 = ts_out s @ [vector (account_request E REQ_LOGIN t)]"
    using login_sent [OF assms(1,2)] by blast
  have h: "auth_header c (bq_of_vector True (vector (account_request E REQ_LOGIN t))) w = (Inr (REQ_LOGIN, te_sha E (tc_pwd t), tc_id t), w)"
    for c and w :: "('r, 'd) auth"
    unfolding request_bytes by (rule auth_header_login [OF assms(3,4)])
  obtain u where 1: "on_message E Recv_auth (SUCCESS # cookie) [] t0 = (Inr (), u)" "tc_leaving Clean_match u" "tc_cookie u = cookie"
    using auth_answer_run [OF assms(1) 0(2) assms(5), of SUCCESS] by auto
  obtain t1 where 2: "arrive E Recv_match u = (Inr (), t1)" "tc_at 1 Recv_match cookie t1"
    using arrive_run [OF assms(1) 1(2) assms(8), of Recv_match] 1(3) by auto
  then obtain s1 where s1: "tc_live t1 s1" "tc_cookie t1 = cookie" by (auto simp: tc_at_def)
  obtain v where 3: "on_message E Recv_match (made_packet n) [] t1 = (Inr (), v)" "tc_leaving Clean_battle v" "tc_cookie v = cookie" "tc_battle_seed v = n"
    using made_run [OF assms(1) s1(1) assms(6,7)] s1(2) by auto
  obtain t2 where 4: "arrive E Recv_battle v = (Inr (), t2)" "tc_at (1 + n) Recv_battle cookie t2"
    using arrive_run [OF assms(1) 3(2) assms(9), of Recv_battle] 3(3,4) by auto
  show ?thesis using 0 h 1(1) 2 3(1) 4 by (auto simp: run_defs)
qed

theorem client_follows_session_witness:
  "\<exists>t0 t1 t2. on_exchanged stress_env Goal_login (ErrorCode_custom SUCCESS) [] stress_bot = (Inr (), t0) \<and>
      acts [on_message stress_env Recv_auth (SUCCESS # replicate 32 7) [], arrive stress_env Recv_match] t0 = (Inr (), t1) \<and>
      acts [on_message stress_env Recv_match (made_packet 1) [], arrive stress_env Recv_battle] t1 = (Inr (), t2) \<and> tc_at 2 Recv_battle (replicate 32 7) t2"
proof -
  have "length (tc_id stress_bot) < 2 ^ 30"
    by (simp add: stress_bot_def TestClient_def bytes_of_def to_string_int_def digits.simps)
  then show ?thesis
    using client_follows_session [OF stress_facts(1-3) _ _ _ _ stress_facts(4), of "replicate 32 7" 1] stress_facts(5) by force
qed

theorem client_greeted_witness:
  "\<exists>t'. on_message stress_env Recv_battle (welcome_packet (GameInfo\<lparr>gi_PlayerInfos := [player_info (1, 5, 0, 2) (bq_new True), player_info (0, 1, 0, 0) (bq_new True)]\<rparr>) 1)
      [] stress_bot = (Inr (), t') \<and> tc_info t' = (0, 1, 0, 0) \<and> tc_enemy_info t' = (1, 5, 0, 2)"
  using client_greeted [OF stress_facts(1,2), of 1 "GameInfo\<lparr>gi_PlayerInfos := [player_info (1, 5, 0, 2) (bq_new True), player_info (0, 1, 0, 0) (bq_new True)]\<rparr>"
      "(1, 5, 0, 2)" "(0, 1, 0, 0)"]
  by (auto simp: info_ok_def int32_def)

end
