(* ===== verification/StressMain.thy ===== *)
theory StressMain
  imports StressClient
begin

text \<open>
  The stress test, \<open>test_stress/main.cpp\<close> and \<open>test_stress/TestOpt.cpp\<close>: a set of clients and the commands that show and restart them. The
  clients run on other threads; between two commands any of their completions may happen. What is printed is recorded.
\<close>

section \<open>Arguments\<close>

record test_opt =
  to_thread_count :: int
  to_client_count :: int
  to_addr :: string

definition test_ClearOpt :: test_opt where
  "test_ClearOpt = \<lparr>to_thread_count = 1, to_client_count = 0, to_addr = ''localhost''\<rparr>"

definition test_arg :: "getopt \<Rightarrow> test_opt \<Rightarrow> test_opt result" where
  "test_arg g opt = (case g of (c, optarg, arg) \<Rightarrow>
     if c = CHR ''t'' then bind_result (the_arg optarg) (\<lambda>s. bind_result (atoi s) (\<lambda>n. Inr (opt\<lparr>to_thread_count := n\<rparr>)))
     else if c = CHR ''n'' then bind_result (the_arg optarg) (\<lambda>s. bind_result (atoi s) (\<lambda>n. Inr (opt\<lparr>to_client_count := n\<rparr>)))
     else if c = CHR ''?'' then Inl (StackTraceExcept (''Unknown Argument : '' @ arg))
     else Inl (StackTraceExcept (''getopt_long gets error('' @ to_string_nat (of_char c) @ '') : '' @ arg)))"

fun test_args :: "getopt list \<Rightarrow> test_opt \<Rightarrow> test_opt result" where
  "test_args [] opt = Inr opt"
| "test_args (g # gs) opt = bind_result (test_arg g opt) (test_args gs)"

definition test_GetArgs :: "getopt list \<Rightarrow> string list \<Rightarrow> test_opt \<Rightarrow> test_opt result" where
  "test_GetArgs gs rest opt = bind_result (test_args gs opt) (\<lambda>opt. case rest of
       [] \<Rightarrow> Inr opt
     | [addr] \<Rightarrow> Inr (opt\<lparr>to_addr := addr\<rparr>)
     | addr # arg # _ \<Rightarrow> Inl (StackTraceExcept (''Unknown Argument : '' @ arg)))"

section \<open>Commands\<close>

abbreviation (input) INQ_INSERT_CLIENT :: byte where "INQ_INSERT_CLIENT \<equiv> 1"
abbreviation (input) INQ_SHOW_CLIENT :: byte where "INQ_SHOW_CLIENT \<equiv> 2"
abbreviation (input) INQ_BRIEF_CLIENTS :: byte where "INQ_BRIEF_CLIENTS \<equiv> 3"
abbreviation (input) INQ_ERROR :: byte where "INQ_ERROR \<equiv> 4"
abbreviation (input) INQ_RESTART :: byte where "INQ_RESTART \<equiv> 5"
abbreviation (input) INQ_DELAY :: byte where "INQ_DELAY \<equiv> 6"
abbreviation (input) INQ_HELP :: byte where "INQ_HELP \<equiv> 8"
abbreviation (input) STRESS_EXIT :: byte where "STRESS_EXIT \<equiv> 9"

definition stress_table :: "(string, byte) smap" where
  "stress_table = fold (\<lambda>(name, code). smap_insert name code)
     [(''insert'', INQ_INSERT_CLIENT), (''show'', INQ_SHOW_CLIENT), (''brief'', INQ_BRIEF_CLIENTS), (''error'', INQ_ERROR), (''restart'', INQ_RESTART),
      (''delay'', INQ_DELAY), (''help'', INQ_HELP), (''quit'', INQ_QUIT), (''exit'', STRESS_EXIT)] []"

definition stress_GetRequest :: "string \<Rightarrow> byte result" where
  "stress_GetRequest command = resolve stress_table command"

record stress =
  sm_clients :: "test_client list"
  sm_id :: int
  sm_recent :: "string list"
  sm_kill :: bool
  sm_out :: "string list"

definition g_Show :: "string \<Rightarrow> (stress, unit) db" where
  "g_Show str = modify (\<lambda>m. m\<lparr>sm_out := sm_out m @ [str]\<rparr>)"

text \<open>An action of the client at a position.\<close>

definition on_client :: "nat \<Rightarrow> (test_client, unit) db \<Rightarrow> (stress, unit) db" where
  "on_client k a m = (if k < length (sm_clients m)
     then (case a (sm_clients m ! k) of (r, t) \<Rightarrow> (r, m\<lparr>sm_clients := (sm_clients m)[k := t]\<rparr>))
     else (Inr (), m))"

text \<open>A client logs in before it is added to the list; an exception of \<open>DoLogin\<close> leaves it out.\<close>

definition insert_client :: "tc_env \<Rightarrow> int \<Rightarrow> (stress, unit) db" where
  "insert_client E now m =
     (case DoLogin E (TestClient now (sm_id m)) of
        (Inl e, t) \<Rightarrow> (Inl e, m\<lparr>sm_id := sm_id m + 1\<rparr>)
      | (Inr _, t) \<Rightarrow> (Inr (), m\<lparr>sm_id := sm_id m + 1, sm_clients := sm_clients m @ [t]\<rparr>))"

primrec insert_clients :: "tc_env \<Rightarrow> int \<Rightarrow> nat \<Rightarrow> (stress, unit) db" where
  "insert_clients E now 0 = db_return ()"
| "insert_clients E now (Suc n) = db_bind (insert_client E now) (\<lambda>_. insert_clients E now n)"

definition show_client :: "test_client \<Rightarrow> string" where
  "show_client t =
     to_string_int (tc_number t) @ '' : '' @
     (if tc_now_state t = -1 then ''Closed'' else if tc_now_state t = 0 then ''ReStart'' else if tc_now_state t = 1 then ''Login''
      else if tc_now_state t = 2 then ''Match'' else if tc_now_state t = 3 then ''Battle'' else ''Unknown'') @
     (if isConnected t then '''' else ''(Disconnected)'')"

text \<open>\<open>std::array<int, 5>\<close>: an index outside of it is undefined.\<close>

definition count_at :: "int \<Rightarrow> int list \<Rightarrow> int list result" where
  "count_at k cs = (if 0 \<le> k \<and> k < int (length cs) then Inr (cs[nat k := cs ! nat k + 1]) else Inl (Undefined ''array index out of range''))"

fun brief_loop :: "test_client list \<Rightarrow> int list \<Rightarrow> int list \<Rightarrow> (int list \<times> int list) result" where
  "brief_loop [] counters discounters = Inr (counters, discounters)"
| "brief_loop (t # ts) counters discounters =
     bind_result (count_at (tc_now_state t + 1) counters) (\<lambda>counters.
     bind_result (if \<not> isConnected t then count_at (tc_now_state t + 1) discounters else Inr discounters) (\<lambda>discounters.
     brief_loop ts counters discounters))"

definition brief_line :: "string \<Rightarrow> nat \<Rightarrow> int list \<Rightarrow> int list \<Rightarrow> string" where
  "brief_line name k counters discounters = name @ '' : '' @ to_string_int (counters ! k) @ '' ('' @ to_string_int (discounters ! k) @ '')''"

definition brief :: "(stress, unit) db" where
  "brief =
     db_bind (gets sm_clients) (\<lambda>clients.
     db_bind (db_lift (brief_loop clients [0, 0, 0, 0, 0] [0, 0, 0, 0, 0])) (\<lambda>(cs, ds).
     acts [g_Show (brief_line ''Closed'' 0 cs ds), g_Show (brief_line ''Restart'' 1 cs ds), g_Show (brief_line ''Login'' 2 cs ds),
       g_Show (brief_line ''Match'' 3 cs ds), g_Show (brief_line ''Battle'' 4 cs ds)]))"

text \<open>\<open>ClearLastError\<close> clears the text when it gets its mutex at once, which it does unless a thread is just recording an error.\<close>

definition show_errors :: "(stress, unit) db" where
  "show_errors =
     db_bind (gets (\<lambda>m. filter (\<lambda>t. tc_last_error t \<noteq> []) (sm_clients m))) (\<lambda>failed.
       if failed = [] then g_Show ''There is no Error''
       else acts (modify (\<lambda>m. m\<lparr>sm_clients := map (\<lambda>t. t\<lparr>tc_last_error := []\<rparr>) (sm_clients m)\<rparr>)
              # map (\<lambda>t. g_Show (to_string_int (tc_number t) @ '' : '' @ tc_last_error t)) failed))"

definition restart_client :: "tc_env \<Rightarrow> (test_client, unit) db" where
  "restart_client E = db_bind (gets (\<lambda>t. tc_now_state t \<noteq> 0 \<and> \<not> isConnected t)) (\<lambda>stopped. if stopped then DoRestart E else db_return ())"

definition restart_clients :: "tc_env \<Rightarrow> (stress, unit) db" where
  "restart_clients E = db_bind (gets (\<lambda>m. length (sm_clients m))) (\<lambda>n. acts (map (\<lambda>k. on_client k (restart_client E)) [0..<n]))"

text \<open>\<open>std::to_string\<close> of a \<open>double\<close> that is not negative: six digits after the point.\<close>

definition to_string_double :: "rat \<Rightarrow> string" where
  "to_string_double x =
     (let n = nat (round_even (x * 1000000)); f = digits (n mod 1000000)
      in digits (n div 1000000) @ ''.'' @ replicate (6 - length f) (CHR ''0'') @ f)"

definition show_delays :: "string list \<Rightarrow> (stress, unit) db" where
  "show_delays command =
     db_bind (gets sm_clients) (\<lambda>clients.
       let maximum = (command \<noteq> [] \<and> str_cmp (hd command) ''max'' > 0);
           calc = (if maximum then max else (\<lambda>a b. fl (a + b)));
           total = (\<lambda>f. fold (\<lambda>t a. calc a (f t)) clients 0);
           result = (\<lambda>f. if clients \<noteq> [] \<and> \<not> maximum then fl (total f / of_nat (length clients)) else total f);
           mode_str = (if clients = [] then '''' else if maximum then ''Max'' else ''Average'')
       in acts [g_Show (''Delay Result : '' @ mode_str),
            g_Show (''Auth Delay : '' @ to_string_double (result tc_delay_auth) @ ''sec''),
            g_Show (''Match Delay : '' @ to_string_double (result tc_delay_match) @ ''sec''),
            g_Show (''Battle Delay : '' @ to_string_double (result tc_delay_battle) @ ''sec'')])"

definition stress_ShowCommands :: "(stress, unit) db" where
  "stress_ShowCommands = acts (map g_Show
     [''<Commands>'',
      [CHR 0x09] @ ''insert <num>'' @ replicate 1 (CHR 0x09) @ ''Insert a New Client.'',
      [CHR 0x09] @ ''show'' @ replicate 3 (CHR 0x09) @ ''Show Every Client with its status.'',
      [CHR 0x09] @ ''brief'' @ replicate 3 (CHR 0x09) @ ''Show brief clients'' @ [squote] @ '' status.'',
      [CHR 0x09] @ ''error'' @ replicate 3 (CHR 0x09) @ ''Show Recent Error Message for every error-occured clients.'',
      [CHR 0x09] @ ''restart'' @ replicate 3 (CHR 0x09) @ ''Restart all stopped clients.'',
      [CHR 0x09] @ ''delay'' @ replicate 3 (CHR 0x09) @ ''Show Average Delay for each server.'',
      [CHR 0x09] @ ''help'' @ replicate 3 (CHR 0x09) @ ''Show Command Instructions.'',
      [CHR 0x09] @ ''quit'' @ replicate 3 (CHR 0x09) @ ''Exit Program''])"

text \<open>One turn of the main loop, for the line \<open>input\<close>; an empty line repeats the last command.\<close>

definition stress_command :: "tc_env \<Rightarrow> int \<Rightarrow> string \<Rightarrow> (stress, unit) db" where
  "stress_command E now input =
     db_bind (gets (\<lambda>m. if split_words input = [] then sm_recent m else split_words input)) (\<lambda>command.
     db_bind (modify (\<lambda>m. m\<lparr>sm_recent := command\<rparr>)) (\<lambda>_.
       case command of
         [] \<Rightarrow> db_throw (Std (Undefined ''front of an empty queue''))
       | cmdstr # command \<Rightarrow>
           db_bind (db_lift (stress_GetRequest cmdstr)) (\<lambda>request.
             if request = INQ_INSERT_CLIENT then
               (let count = (case command of [] \<Rightarrow> 1 | n # _ \<Rightarrow> (case stoi n of Inl _ \<Rightarrow> 1 | Inr n \<Rightarrow> n))
                in acts [insert_clients E now (nat count), g_Show (''Insert '' @ to_string_int count @ '' Clients.'')])
             else if request = INQ_SHOW_CLIENT then
               db_bind (gets sm_clients) (\<lambda>clients. acts (map (\<lambda>t. g_Show (show_client t)) clients))
             else if request = INQ_ERROR then show_errors
             else if request = INQ_BRIEF_CLIENTS then brief
             else if request = INQ_RESTART then restart_clients E
             else if request = INQ_DELAY then show_delays command
             else if request = INQ_HELP then stress_ShowCommands
             else if request = INQ_QUIT \<or> request = STRESS_EXIT then modify (\<lambda>m. m\<lparr>sm_kill := True\<rparr>)
             else g_Show (''Unknown Input : '' @ cmdstr))))"

text \<open>The end of the program, with restarting forbidden: every connected client is shut down.\<close>

definition stress_end :: "tc_env \<Rightarrow> (stress, unit) db" where
  "stress_end E = db_bind (gets (\<lambda>m. length (sm_clients m))) (\<lambda>n.
     acts (map (\<lambda>k. on_client k (db_bind (gets isConnected) (\<lambda>c.
       if c then Shutdown (E\<lparr>te_isRunning := False, te_doNotRestart := True\<rparr>) else db_return ()))) [0..<n]))"

text \<open>The handler of \<open>SIGTERM\<close> (\<open>15\<close>), \<open>SIGINT\<close> (\<open>2\<close>) and \<open>SIGABRT\<close> (\<open>6\<close>).\<close>

definition stress_signal :: "int \<Rightarrow> stress \<Rightarrow> stress" where
  "stress_signal signal_code m = (if signal_code \<in> {15, 2, 6} then m\<lparr>sm_kill := True\<rparr> else m)"

text \<open>The addresses of the three servers, in the order of \<open>addrs\<close>.\<close>

definition stress_addrs :: "string \<Rightarrow> (string \<times> int) list" where
  "stress_addrs addr = [(addr, 54322), (addr, 54323), (addr, 54324)]"

text \<open>The main loop on the lines that are given to it, up to the end or up to the first that is not needed.\<close>

fun stress_loop :: "tc_env \<Rightarrow> int \<Rightarrow> string list \<Rightarrow> (stress, unit) db" where
  "stress_loop E now [] m = (Inr (), m)"
| "stress_loop E now (input # lines) m =
     (if sm_kill m then (Inr (), m) else db_bind (stress_command E now input) (\<lambda>_. stress_loop E now lines) m)"

definition stress_run :: "tc_env \<Rightarrow> int \<Rightarrow> test_opt \<Rightarrow> string list \<Rightarrow> (stress, unit) db" where
  "stress_run E now opt lines =
     acts [insert_clients E now (nat (to_client_count opt)), stress_loop E now lines]"

definition stress_new :: stress where
  "stress_new = \<lparr>sm_clients = [], sm_id = 1, sm_recent = [], sm_kill = False, sm_out = []\<rparr>"

definition stress_main :: "tc_env \<Rightarrow> int \<Rightarrow> getopt list \<Rightarrow> string list \<Rightarrow> string list \<Rightarrow> (stress, int) db" where
  "stress_main E now gs rest lines =
     (case test_GetArgs gs rest test_ClearOpt of
        Inl e \<Rightarrow> if is_exception e then db_bind (g_Show (''[Exception] '' @ exn_what e)) (\<lambda>_. db_return (-1)) else db_throw (Std e)
      | Inr opt \<Rightarrow>
          (let E = E\<lparr>te_addrs := stress_addrs (to_addr opt)\<rparr>
           in db_bind (acts [stress_run E now opt lines, modify (\<lambda>m. m\<lparr>sm_kill := True\<rparr>), stress_end E, modify (\<lambda>m. m\<lparr>sm_clients := []\<rparr>)])
                (\<lambda>_. db_return 0)))"

section \<open>States of the clients\<close>

text \<open>As long as the program runs, a client is in one of five states, and will not be shut down by its socket.\<close>

definition tc_ok :: "test_client \<Rightarrow> bool" where
  "tc_ok t \<longleftrightarrow> tc_now_state t \<in> {-1, 0, 1, 2, 3} \<and> (\<forall>s. tc_socket t = Some s \<longrightarrow> ts_clean s \<noteq> Some Clean_shutdown)"

lemma keeps_gets: "(\<And>w. I w \<Longrightarrow> I (snd (f (g w) w))) \<Longrightarrow> keeps I (db_bind (gets g) f)"
  by (simp add: keeps_def db_bind_def gets_def)

lemma delayed_ok: "tc_ok t \<Longrightarrow> tc_ok (delayed E r t)"
  by (simp add: tc_ok_def)

lemma ok_basic [keeps_intros]:
  "keeps tc_ok (StartRecord E r)" "keeps tc_ok (GetDelay E r)" "keeps tc_ok (RecordError s)" "keeps tc_ok (throw_error ec)"
  "keeps tc_ok (tc_send q)"
  by (auto simp: StartRecord_def GetDelay_def RecordError_def throw_error_def tc_send_def on_sock_def ts_Send_def tc_ok_def intro!: keeps_modify delayed_ok)

lemma ok_modify [keeps_intros]:
  "keeps tc_ok (modify (\<lambda>t. t\<lparr>tc_timer := tm\<rparr>))" "keeps tc_ok (modify (\<lambda>t. t\<lparr>tc_cookie := ck\<rparr>))" "keeps tc_ok (modify (\<lambda>t. t\<lparr>tc_battle_seed := sd\<rparr>))"
  "keeps tc_ok (modify (\<lambda>t. t\<lparr>tc_info := i\<rparr>))" "keeps tc_ok (modify (\<lambda>t. t\<lparr>tc_enemy_info := i\<rparr>))" "keeps tc_ok (modify (\<lambda>t. t\<lparr>tc_round := n\<rparr>))"
  "keeps tc_ok (modify (\<lambda>t. t\<lparr>tc_play := p\<rparr>))" "keeps tc_ok (modify (\<lambda>t. t\<lparr>tc_enemy_play := p\<rparr>))"
  by (auto simp: tc_ok_def intro!: keeps_modify)

lemma ok_sock: "(\<And>s. ts_clean (f s) = ts_clean s) \<Longrightarrow> keeps tc_ok (on_sock f)"
  by (auto simp: on_sock_def tc_ok_def intro!: keeps_modify)

lemma ok_state: "n \<in> {-1, 0, 1, 2, 3} \<Longrightarrow> keeps tc_ok (set_state n)"
  by (auto simp: set_state_def tc_ok_def intro!: keeps_modify)

lemma ok_connect [keeps_intros]: "keeps tc_ok (connect_to E server goal)"
proof -
  have "keeps tc_ok (modify (\<lambda>t. t\<lparr>tc_socket := Some \<lparr>ts_server = server, ts_pending = Idle, ts_open = False, ts_readable = False, ts_closing = False,
         ts_doclose = False, ts_clean = None, ts_timeout = False, ts_out = []\<rparr>\<rparr>))"
    by (auto simp: tc_ok_def intro!: keeps_modify)
  then show ?thesis unfolding connect_to_def by (intro keeps_intros ok_sock) auto
qed

lemma ok_run_clean: "c \<noteq> Clean_shutdown \<Longrightarrow> keeps tc_ok (run_clean E c)"
  by (cases c) (auto simp: run_clean_def LoginProcess_def AccessProcess_def intro!: keeps_intros ok_state split: option.split)

lemma ok_cleaned:
  assumes "tc_ok t" "tc_socket t = Some s"
  shows "keeps tc_ok (case ts_clean s of None \<Rightarrow> db_return () | Some c \<Rightarrow> run_clean E c)"
proof (cases "ts_clean s")
  case (Some c)
  then have "c \<noteq> Clean_shutdown" using assms by (auto simp: tc_ok_def)
  with Some show ?thesis by (simp add: ok_run_clean)
qed (simp add: keeps_basic)

lemma ok_sock_Close [keeps_intros]: "keeps tc_ok (sock_Close E)"
  unfolding sock_Close_def
proof (rule keeps_gets)
  fix t assume t: "tc_ok t"
  show "tc_ok (snd ((case tc_socket t of None \<Rightarrow> db_return () | Some s \<Rightarrow>
      if ts_closing s then db_return ()
      else db_bind (on_sock (\<lambda>s. s\<lparr>ts_closing := True, ts_timeout := False\<rparr>)) (\<lambda>_.
        if ts_readable s then on_sock (\<lambda>s. s\<lparr>ts_doclose := True\<rparr>)
        else (case ts_clean s of None \<Rightarrow> db_return () | Some c \<Rightarrow> run_clean E c))) t))"
  proof (cases "tc_socket t")
    case None
    then show ?thesis using t by (simp add: db_return_def)
  next
    case (Some s)
    from ok_cleaned [OF t this] have "keeps tc_ok (if ts_closing s then db_return ()
      else db_bind (on_sock (\<lambda>s. s\<lparr>ts_closing := True, ts_timeout := False\<rparr>)) (\<lambda>_.
        if ts_readable s then on_sock (\<lambda>s. s\<lparr>ts_doclose := True\<rparr>)
        else (case ts_clean s of None \<Rightarrow> db_return () | Some c \<Rightarrow> run_clean E c)))"
      by (intro keeps_if keeps_bind keeps_basic(1) ok_sock) auto
    then show ?thesis using t Some by (simp add: keeps_def)
  qed
qed

lemma ok_do_clean: "c \<noteq> Clean_shutdown \<Longrightarrow> keeps tc_ok (do_clean E c)"
proof -
  assume c: "c \<noteq> Clean_shutdown"
  then have "keeps tc_ok (on_sock (\<lambda>s. s\<lparr>ts_clean := Some c\<rparr>))" by (auto simp: on_sock_def tc_ok_def intro!: keeps_modify)
  with c show ?thesis unfolding do_clean_def tc_Close_def by (auto intro!: keeps_intros ok_state ok_run_clean)
qed

lemma ok_do [keeps_intros]: "keeps tc_ok (DoLogin E)" "keeps tc_ok (DoMatch E)" "keeps tc_ok (DoBattle E)" "keeps tc_ok (DoRestart E)"
  unfolding DoLogin_def DoMatch_def DoBattle_def DoRestart_def by (auto intro!: keeps_intros ok_do_clean)

lemma ok_recv_unknown [keeps_intros]: "keeps tc_ok (recv_unknown E header)"
  unfolding recv_unknown_def by (auto intro!: keeps_intros)

lemma ok_auth_message: "keeps tc_ok (auth_message E m)"
  unfolding auth_message_def by (intro keeps_intros ok_sock) (auto simp: ts_SetTimeout_def intro!: keeps_intros ok_sock)

lemma ok_match_message: "keeps tc_ok (match_message E m)"
  unfolding match_message_def by (intro keeps_intros) (auto intro!: keeps_intros)

lemma ok_battle_message: "keeps tc_ok (battle_message E m)"
  unfolding battle_message_def by (intro keeps_intros) (auto intro!: keeps_intros)

lemma ok_recv_message [keeps_intros]: "keeps tc_ok (recv_message E h m)"
  by (cases h) (simp_all add: recv_message_def ok_auth_message ok_match_message ok_battle_message)

lemma ok_start_recv [keeps_intros]: "keeps tc_ok (start_recv E h ms)"
  by (induction ms) (auto intro!: keeps_intros ok_sock)

lemma ok_recv_failed [keeps_intros]: "keeps tc_ok (recv_failed E h ec)"
  unfolding recv_failed_def by (auto intro!: keeps_intros)

lemma ok_failed_step [keeps_intros]: "keeps tc_ok (failed_step E s ec)"
  unfolding failed_step_def by (auto intro!: keeps_intros)

lemma ok_on_closed: "keeps tc_ok (on_closed E)"
proof -
  have "keeps tc_ok (db_bind (gets tc_socket) (\<lambda>sk. case sk of
         None \<Rightarrow> db_return ()
       | Some s \<Rightarrow> (case ts_clean s of None \<Rightarrow> db_return () | Some c \<Rightarrow> run_clean E c)))"
    by (rule keeps_gets) (auto simp: db_return_def ok_cleaned keeps_snd split: option.split)
  then show ?thesis unfolding on_closed_def by (rule keeps_bind [OF ok_sock, rotated]) simp
qed

text \<open>Everything that can happen to a client between two commands.\<close>

inductive client_action :: "tc_env \<Rightarrow> (test_client, unit) db \<Rightarrow> bool" for E where
  connected: "client_action E (on_connected E goal ec)"
| exchanged: "client_action E (on_exchanged E goal ec ms)"
| message: "client_action E (on_message E h m ms)"
| read_error: "client_action E (on_read_error E h ec)"
| late_error: "client_action E (recv_failed E h ec)"
| lost: "client_action E (on_sock (\<lambda>s. s\<lparr>ts_open := still, ts_readable := False\<rparr>))"
| closed: "client_action E (on_closed E)"
| timeout: "client_action E (on_timeout E)"
| restart: "client_action E (on_restart E)"

lemma ok_client_action: "client_action E a \<Longrightarrow> keeps tc_ok a"
proof (induction rule: client_action.induct)
  case (connected goal ec)
  show ?case unfolding on_connected_def by (auto intro!: keeps_intros ok_sock)
next
  case (exchanged goal ec ms)
  show ?case unfolding on_exchanged_def by (cases goal) (auto simp: ts_SetTimeout_def intro!: keeps_intros ok_sock)
next
  case (message h m ms)
  show ?case unfolding on_message_def by (auto intro!: keeps_intros ok_sock)
next
  case (read_error h ec)
  show ?case unfolding on_read_error_def by (auto intro!: keeps_intros ok_sock)
next
  case (late_error h ec)
  show ?case by (rule ok_recv_failed)
next
  case (lost still)
  show ?case by (rule ok_sock) simp
next
  case closed
  show ?case by (rule ok_on_closed)
next
  case timeout
  show ?case unfolding on_timeout_def by (auto intro!: keeps_intros ok_sock)
next
  case restart
  show ?case unfolding on_restart_def LoginProcess_def by (auto intro!: keeps_intros)
qed

section \<open>The overview of the clients\<close>

definition stress_ok :: "stress \<Rightarrow> bool" where
  "stress_ok m \<longleftrightarrow> (\<forall>t\<in>set (sm_clients m). tc_ok t)"

lemma ok_TestClient: "tc_ok (TestClient now n)"
  by (simp add: tc_ok_def TestClient_def)

lemma stress_on_client:
  assumes "keeps tc_ok a"
  shows "keeps stress_ok (on_client k a)"
proof -
  have "tc_ok (snd (a (sm_clients m ! k)))" if "stress_ok m" "k < length (sm_clients m)" for m
    using keeps_snd [OF assms] that by (auto simp: stress_ok_def)
  then show ?thesis
    by (auto simp: keeps_def on_client_def stress_ok_def dest!: set_update_subset_insert [THEN subsetD] split: prod.split) force
qed

lemma stress_insert [keeps_intros]: "keeps stress_ok (insert_client E now)"
proof -
  have "tc_ok (snd (DoLogin E (TestClient now n)))" for n by (rule keeps_snd [OF ok_do(1) ok_TestClient])
  then show ?thesis
    by (auto simp: keeps_def insert_client_def stress_ok_def split: prod.split sum.split) (metis snd_conv)
qed

lemma stress_inserts [keeps_intros]: "keeps stress_ok (insert_clients E now n)"
  by (induction n) (auto intro!: keeps_intros)

lemma stress_Show [keeps_intros]: "keeps stress_ok (g_Show s)"
  by (auto simp: g_Show_def stress_ok_def intro!: keeps_modify)

lemma stress_shows [keeps_intros]:
  "keeps stress_ok show_errors" "keeps stress_ok brief" "keeps stress_ok (show_delays c)" "keeps stress_ok stress_ShowCommands"
proof -
  have "keeps stress_ok (modify (\<lambda>m. m\<lparr>sm_clients := map (\<lambda>t. t\<lparr>tc_last_error := []\<rparr>) (sm_clients m)\<rparr>))"
    by (auto simp: stress_ok_def tc_ok_def intro!: keeps_modify)
  then show "keeps stress_ok show_errors" unfolding show_errors_def by (auto intro!: keeps_intros)
  show "keeps stress_ok brief" "keeps stress_ok (show_delays c)" "keeps stress_ok stress_ShowCommands"
    unfolding brief_def show_delays_def stress_ShowCommands_def Let_def by (auto intro!: keeps_intros)
qed

lemma stress_restarts [keeps_intros]: "keeps stress_ok (restart_clients E)"
proof -
  have "keeps tc_ok (restart_client E)" unfolding restart_client_def by (auto intro!: keeps_intros)
  then show ?thesis unfolding restart_clients_def by (auto intro!: keeps_intros stress_on_client)
qed

lemma stress_ok_command: "keeps stress_ok (stress_command E now input)"
proof -
  have "keeps stress_ok (modify (\<lambda>m. m\<lparr>sm_recent := c\<rparr>))" "keeps stress_ok (modify (\<lambda>m. m\<lparr>sm_kill := True\<rparr>))" for c
    by (auto simp: stress_ok_def intro!: keeps_modify)
  then show ?thesis
    unfolding stress_command_def Let_def by (auto intro!: keeps_intros split: list.split)
qed

inductive stress_reach :: "tc_env \<Rightarrow> stress \<Rightarrow> bool" for E where
  start: "stress_reach E \<lparr>sm_clients = [], sm_id = 1, sm_recent = [], sm_kill = False, sm_out = []\<rparr>"
| more: "stress_reach E m \<Longrightarrow> stress_reach E (snd (insert_client E now m))"
| event: "stress_reach E m \<Longrightarrow> client_action E a \<Longrightarrow> stress_reach E (snd (on_client k a m))"
| command: "stress_reach E m \<Longrightarrow> stress_reach E (snd (stress_command E now input m))"

lemma stress_reach_ok: "stress_reach E m \<Longrightarrow> stress_ok m"
proof (induction rule: stress_reach.induct)
  case start
  show ?case by (simp add: stress_ok_def)
next
  case (more m now)
  show ?case using more.IH by (rule keeps_snd [OF stress_insert])
next
  case (event m a k)
  show ?case using event.IH by (rule keeps_snd [OF stress_on_client [OF ok_client_action [OF event.hyps(2)]]])
next
  case (command m now input)
  show ?case using command.IH by (rule keeps_snd [OF stress_ok_command])
qed

text \<open>What \<open>main\<close> does up to its end is such a run, with no events in between.\<close>

lemma stress_reach_inserts: "stress_reach E m \<Longrightarrow> stress_reach E (snd (insert_clients E now n m))"
proof (induction n arbitrary: m)
  case (Suc n)
  from stress_reach.more [OF Suc.prems, of now] Suc.IH show ?case
    by (cases "insert_client E now m") (auto simp: db_bind_def split: sum.split)
qed (simp add: db_return_def)

lemma stress_reach_loop: "stress_reach E m \<Longrightarrow> stress_reach E (snd (stress_loop E now lines m))"
proof (induction lines arbitrary: m)
  case (Cons input lines)
  from stress_reach.command [OF Cons.prems, of now input] Cons.IH Cons.prems show ?case
    by (cases "stress_command E now input m") (auto simp: db_bind_def split: sum.split)
qed simp

lemma stress_reach_run: "stress_reach E (snd (stress_run E now opt lines stress_new))"
proof -
  have "stress_reach E stress_new" unfolding stress_new_def by (rule stress_reach.start)
  from stress_reach_inserts [OF this, of now "nat (to_client_count opt)"] stress_reach_loop show ?thesis
    by (cases "insert_clients E now (nat (to_client_count opt)) stress_new")
      (auto simp: stress_run_def db_bind_def db_return_def split: sum.split prod.split, (metis snd_conv)+)
qed

text \<open>The number of clients in a state.\<close>

definition in_state :: "int \<Rightarrow> test_client list \<Rightarrow> int" where
  "in_state s ts = int (length (filter (\<lambda>t. tc_now_state t = s) ts))"

lemma brief_loop_counts:
  assumes "\<forall>t\<in>set ts. tc_ok t" "length cs = 5" "length ds = 5"
  shows "\<exists>cs' ds'. brief_loop ts cs ds = Inr (cs', ds') \<and> length cs' = 5 \<and> length ds' = 5 \<and>
    (\<forall>k<5. cs' ! k = cs ! k + in_state (int k - 1) ts \<and> ds' ! k = ds ! k + in_state (int k - 1) (filter (\<lambda>t. \<not> isConnected t) ts))"
  using assms
proof (induction ts arbitrary: cs ds)
  case (Cons t ts)
  define j where "j = nat (tc_now_state t + 1)"
  have j: "j < 5" "0 \<le> tc_now_state t + 1" "tc_now_state t + 1 < 5" "int j - 1 = tc_now_state t"
    using Cons.prems(1) by (auto simp: tc_ok_def j_def)
  let ?cs = "cs[j := cs ! j + 1]" and ?ds = "if isConnected t then ds else ds[j := ds ! j + 1]"
  have run: "brief_loop (t # ts) cs ds = brief_loop ts ?cs ?ds"
    using j Cons.prems(2,3) by (simp add: count_at_def j_def [symmetric])
  obtain cs' ds' where r: "brief_loop ts ?cs ?ds = Inr (cs', ds')" "length cs' = 5" "length ds' = 5"
    "\<forall>k<5. cs' ! k = ?cs ! k + in_state (int k - 1) ts \<and> ds' ! k = ?ds ! k + in_state (int k - 1) (filter (\<lambda>t. \<not> isConnected t) ts)"
  proof -
    have "\<forall>t\<in>set ts. tc_ok t" "length ?cs = 5" "length ?ds = 5" using Cons.prems by auto
    then show thesis using Cons.IH that by blast
  qed
  have "tc_now_state t = int k - 1 \<longleftrightarrow> k = j" for k using j(4) by auto
  with r run Cons.prems(2,3) show ?case by (auto simp: in_state_def nth_list_update)
qed (simp add: in_state_def)

text \<open>
  C29. As long as the stress test runs, whatever happens to its clients and whatever commands are given, the state of every client
  is one of the five that the overview counts: \<open>brief\<close> never counts outside of its arrays, and prints for each state how many clients are
  in it and how many of them are not connected.
\<close>

theorem stress_overview:
  assumes "stress_reach E m"
  shows "\<exists>cs ds. brief_loop (sm_clients m) [0, 0, 0, 0, 0] [0, 0, 0, 0, 0] = Inr (cs, ds) \<and> length cs = 5 \<and> length ds = 5 \<and>
    (\<forall>k<5. cs ! k = in_state (int k - 1) (sm_clients m) \<and> ds ! k = in_state (int k - 1) (filter (\<lambda>t. \<not> isConnected t) (sm_clients m))) \<and>
    brief m = (Inr (), m\<lparr>sm_out := sm_out m @ [brief_line ''Closed'' 0 cs ds, brief_line ''Restart'' 1 cs ds, brief_line ''Login'' 2 cs ds,
      brief_line ''Match'' 3 cs ds, brief_line ''Battle'' 4 cs ds]\<rparr>)"
proof -
  have zero: "[0, 0, 0, 0, 0 :: int] ! k = 0" if "k < 5" for k using that by (auto simp: less_Suc_eq numeral_eq_Suc nth_Cons')
  have "\<forall>t\<in>set (sm_clients m). tc_ok t" using stress_reach_ok [OF assms] by (simp add: stress_ok_def)
  then obtain cs ds where r: "brief_loop (sm_clients m) [0, 0, 0, 0, 0] [0, 0, 0, 0, 0] = Inr (cs, ds)" "length cs = 5" "length ds = 5"
    "\<forall>k<5. cs ! k = in_state (int k - 1) (sm_clients m) \<and> ds ! k = in_state (int k - 1) (filter (\<lambda>t. \<not> isConnected t) (sm_clients m))"
    using brief_loop_counts [of "sm_clients m" "[0, 0, 0, 0, 0]" "[0, 0, 0, 0, 0]"] zero by auto
  then show ?thesis by (simp add: brief_def g_Show_def run_defs)
qed

theorem stress_overview_witness:
  "\<exists>cs ds. brief_loop (sm_clients (snd (insert_client stress_env 0 \<lparr>sm_clients = [], sm_id = 1, sm_recent = [], sm_kill = False, sm_out = []\<rparr>)))
     [0, 0, 0, 0, 0] [0, 0, 0, 0, 0] = Inr (cs, ds) \<and> cs ! 2 = 1"
proof -
  let ?m = "snd (insert_client stress_env 0 \<lparr>sm_clients = [], sm_id = 1, sm_recent = [], sm_kill = False, sm_out = []\<rparr>)"
  have "in_state 1 (sm_clients ?m) = 1"
    by (simp add: insert_client_def DoLogin_def do_clean_def run_clean_def LoginProcess_def connect_to_def TestClient_def stress_env_def in_state_def tc_defs)
  with stress_overview [OF stress_reach.more [OF stress_reach.start], of stress_env 0] show ?thesis by force
qed

end
