(* ===== verification/Directory.thy ===== *)
theory Directory
  imports Redis
begin

text \<open>
  What the three servers use Redis for, as a contract: a directory that gives every account at most one
  session, a cookie and the name of the server that has it, with no cookie in two sessions. The
  abstract directory is a map and its operations are the steps of \<open>dir_step\<close>; \<open>MyRedis\<close> implements them on
  two keys per session, and \<open>directory\<close> relates the two.
\<close>

section \<open>The abstract directory\<close>

type_synonym sessions = "Account_ID_t \<rightharpoonup> Hash_t \<times> string"

datatype dir_op =
  SetSession Account_ID_t Hash_t string
| Refresh Account_ID_t Hash_t string
| Clear Account_ID_t Hash_t string
| By_cookie Hash_t
| By_account Account_ID_t
| Expire Account_ID_t Hash_t

datatype dir_answer =
  A_none
| A_code error_code
| A_bool bool
| A_cookie "error_code + Account_ID_t \<times> string"
| A_account "error_code + Hash_t \<times> string"

definition unused :: "sessions \<Rightarrow> Hash_t \<Rightarrow> bool" where
  "unused d c \<longleftrightarrow> (\<forall>i n. d i \<noteq> Some (c, n))"

abbreviation (input) no_match :: "error_code" where
  "no_match \<equiv> ErrorCode_custom ERR_NO_MATCH_ACCOUNT"

text \<open>
  A session is opened for an account that has none, with a fresh cookie, as the auth server does, or its
  server is changed, as the match and battle servers do; both by \<open>SetInfo\<close>.
\<close>

inductive dir_step :: "sessions \<Rightarrow> dir_op \<Rightarrow> dir_answer \<Rightarrow> sessions \<Rightarrow> bool" where
  opened: "\<lbrakk>d i = None; unused d c; length c = 32; nospace n\<rbrakk> \<Longrightarrow>
    dir_step d (SetSession i c n) (A_code (ErrorCode_custom SUCCESS)) (d(i \<mapsto> (c, n)))"
| moved: "\<lbrakk>d i = Some (c, m); nospace n\<rbrakk> \<Longrightarrow>
    dir_step d (SetSession i c n) (A_code (ErrorCode_custom SUCCESS)) (d(i \<mapsto> (c, n)))"
| refreshed: "dir_step d (Refresh i c n) (A_bool (d i = Some (c, n))) d"
| cleared: "dir_step d (Clear i c n) (A_bool (d i = Some (c, n))) (if d i = Some (c, n) then d(i := None) else d)"
| by_cookie: "d i = Some (c, n) \<Longrightarrow> dir_step d (By_cookie c) (A_cookie (Inr (i, n))) d"
| by_no_cookie: "unused d c \<Longrightarrow> dir_step d (By_cookie c) (A_cookie (Inl no_match)) d"
| by_account: "d i = Some (c, n) \<Longrightarrow> dir_step d (By_account i) (A_account (Inr (c, n))) d"
| by_no_account: "d i = None \<Longrightarrow> dir_step d (By_account i) (A_account (Inl no_match)) d"
| expired: "d i = Some (c, n) \<Longrightarrow> dir_step d (Expire i c) A_none (d(i := None))"

inductive dir_run :: "sessions \<Rightarrow> dir_op list \<Rightarrow> dir_answer list \<Rightarrow> sessions \<Rightarrow> bool" where
  run_done [intro!]: "dir_run d [] [] d"
| run_more [intro]: "\<lbrakk>dir_step d x a d1; dir_run d1 xs as d2\<rbrakk> \<Longrightarrow> dir_run d (x # xs) (a # as) d2"

inductive_cases dir_runE: "dir_run d (x # xs) as d'"

text \<open>No cookie is in two sessions, whatever the operations.\<close>

definition one_each :: "sessions \<Rightarrow> bool" where
  "one_each d \<longleftrightarrow> (\<forall>i j c m n. d i = Some (c, m) \<longrightarrow> d j = Some (c, n) \<longrightarrow> i = j)"

lemma one_each_set: "one_each d \<Longrightarrow> \<forall>j m. j \<noteq> i \<longrightarrow> d j \<noteq> Some (c, m) \<Longrightarrow> one_each (d(i \<mapsto> (c, n)))"
  unfolding one_each_def by (metis fun_upd_apply option.inject prod.inject)

lemma one_each_drop: "one_each d \<Longrightarrow> one_each (d(i := None))"
  unfolding one_each_def by (metis fun_upd_apply option.distinct(1))

lemma one_each_step: "dir_step d x a d' \<Longrightarrow> one_each d \<Longrightarrow> one_each d'"
proof (induction rule: dir_step.induct)
  case (opened d i c n)
  then show ?case by (intro one_each_set) (simp_all add: unused_def)
next
  case (moved d i c m n)
  then show ?case by (intro one_each_set) (auto simp: one_each_def)
qed (simp_all add: one_each_drop)

lemma one_each_run: "dir_run d xs as d' \<Longrightarrow> one_each d \<Longrightarrow> one_each d'"
  by (induction rule: dir_run.induct) (auto dest: one_each_step)

section \<open>The interface\<close>

fun run_ops :: "(dir_op \<Rightarrow> 'w \<Rightarrow> (dir_answer \<times> 'w) result) \<Rightarrow> dir_op list \<Rightarrow> 'w \<Rightarrow> (dir_answer list \<times> 'w) result" where
  "run_ops f [] w = Inr ([], w)"
| "run_ops f (x # xs) w =
     bind_result (f x w) (\<lambda>(a, w). bind_result (run_ops f xs w) (\<lambda>(as, w). Inr (a # as, w)))"

locale session_store =
  fixes apply_op :: "dir_op \<Rightarrow> 'w \<Rightarrow> (dir_answer \<times> 'w) result"
    and holds :: "'w \<Rightarrow> sessions \<Rightarrow> bool"
  assumes implements: "dir_step d x a d' \<Longrightarrow> holds w d \<Longrightarrow> \<exists>w'. apply_op x w = Inr (a, w') \<and> holds w' d'"
begin

lemma run_implements:
  "dir_run d xs as d' \<Longrightarrow> holds w d \<Longrightarrow> \<exists>w'. run_ops apply_op xs w = Inr (as, w') \<and> holds w' d'"
proof (induction arbitrary: w rule: dir_run.induct)
  case (run_more d x a d1 xs as d2)
  then obtain w1 where "apply_op x w = Inr (a, w1)" "holds w1 d1" using implements by blast
  with run_more.IH [of w1] show ?case by auto
qed simp

end

section \<open>Redis as the directory\<close>

text \<open>
  The keys of a session in the store. \<open>expire\<close> stands for the clock of the server: both keys of a session
  get the same lifetime in one transaction, and go together.
\<close>

definition directory :: "rstore \<Rightarrow> sessions \<Rightarrow> bool" where
  "directory s d \<longleftrightarrow>
     (\<forall>i c n. d i = Some (c, n) \<longrightarrow>
        length c = 32 \<and> s (account_key i) = Some (RStr (cookieStr c)) \<and> s (cookie_key c) = Some (RList [idstr i, n])) \<and>
     (\<forall>i. d i = None \<longrightarrow> s (account_key i) = None) \<and>
     (\<forall>c. unused d c \<longrightarrow> s (cookie_key c) = None)"

definition drops :: "('r \<Rightarrow> rstore) \<Rightarrow> (Account_ID_t \<Rightarrow> Hash_t \<Rightarrow> 'r \<Rightarrow> 'r) \<Rightarrow> bool" where
  "drops store expire \<longleftrightarrow> (\<forall>i c r. store (expire i c r) = (store r)(cookie_key c := None, account_key i := None))"

fun redis_op ::
  "'r pipeline \<Rightarrow> (Account_ID_t \<Rightarrow> Hash_t \<Rightarrow> 'r \<Rightarrow> 'r) \<Rightarrow> dir_op \<Rightarrow> 'r redis \<Rightarrow> (dir_answer \<times> 'r redis) result" where
  "redis_op srv expire (SetSession i c n) rd = (case SetInfo srv i c n rd of (e, rd) \<Rightarrow> Inr (A_code e, rd))"
| "redis_op srv expire (Refresh i c n) rd = (case RefreshInfo srv i c n rd of (b, rd) \<Rightarrow> Inr (A_bool b, rd))"
| "redis_op srv expire (Clear i c n) rd = (case ClearInfo srv i c n rd of (b, rd) \<Rightarrow> Inr (A_bool b, rd))"
| "redis_op srv expire (By_cookie c) rd = bind_result (GetInfoFromCookie srv c rd) (\<lambda>(x, rd). Inr (A_cookie x, rd))"
| "redis_op srv expire (By_account i) rd = bind_result (GetInfoFromID srv i rd) (\<lambda>(x, rd). Inr (A_account x, rd))"
| "redis_op srv expire (Expire i c) rd = Inr (A_none, rd\<lparr>rd_server := expire i c (rd_server rd)\<rparr>)"

lemma directory_one_each: "directory s d \<Longrightarrow> one_each d"
  unfolding directory_def one_each_def by (metis idstr_inject list.inject option.inject rvalue.inject(2))

lemma directory_session: "directory s d \<Longrightarrow> has_session s i c n \<longleftrightarrow> d i = Some (c, n)"
proof
  assume D: "directory s d" and h: "has_session s i c n"
  then have "\<not> unused d c" by (auto simp: directory_def has_session_def)
  then obtain j m where "d j = Some (c, m)" by (auto simp: unused_def)
  with D h show "d i = Some (c, n)" by (auto simp: directory_def has_session_def)
qed (auto simp: directory_def has_session_def)

lemma directory_account: "directory s d \<Longrightarrow> s (account_key i) \<noteq> None \<longleftrightarrow> d i \<noteq> None"
  unfolding directory_def by (cases "d i") auto

text \<open>How the relation moves with the two ways the store changes.\<close>

lemma directory_set:
  assumes "directory s d" "length c = 32" "d i = None \<and> unused d c \<or> (\<exists>m. d i = Some (c, m))"
  shows "directory (s(cookie_key c \<mapsto> RList [idstr i, n], account_key i \<mapsto> RStr (cookieStr c))) (d(i \<mapsto> (c, n)))"
proof -
  have o: "d j \<noteq> Some (c, m)" if "j \<noteq> i" for j m
    using assms directory_one_each [OF assms(1)] that by (auto simp: unused_def one_each_def)
  have u: "unused d c'" if "unused (d(i \<mapsto> (c, n))) c'" "c' \<noteq> c" for c'
    using that assms(3) by (metis fun_upd_other fun_upd_same option.inject option.distinct(1) prod.inject unused_def)
  have "\<not> unused (d(i \<mapsto> (c, n))) c" by (auto simp: unused_def)
  with assms(1,2) o u show ?thesis unfolding directory_def by auto
qed

lemma directory_drop:
  assumes "directory s d" "d i = Some (c, n)"
  shows "directory (s(cookie_key c := None, account_key i := None)) (d(i := None))"
proof -
  have o: "d j \<noteq> Some (c, m)" if "j \<noteq> i" for j m
    using assms(2) directory_one_each [OF assms(1)] that by (auto simp: one_each_def)
  have u: "unused d c'" if "unused (d(i := None)) c'" "c' \<noteq> c" for c'
    using that assms(2) by (metis fun_upd_other fun_upd_same option.inject option.distinct(1) prod.inject unused_def)
  from assms(1) o u show ?thesis unfolding directory_def by auto
qed

definition redis_holds ::
  "'r pipeline \<Rightarrow> ('r \<Rightarrow> rstore) \<Rightarrow> (Account_ID_t \<Rightarrow> Hash_t \<Rightarrow> 'r \<Rightarrow> 'r) \<Rightarrow> 'r redis \<Rightarrow> sessions \<Rightarrow> bool" where
  "redis_holds srv store expire rd d \<longleftrightarrow> redis_up srv store rd \<and> drops store expire \<and> directory (store (rd_server rd)) d"

lemma redis_implements:
  assumes "dir_step d x a d'" "redis_holds srv store expire rd d"
  shows "\<exists>rd'. redis_op srv expire x rd = Inr (a, rd') \<and> redis_holds srv store expire rd' d'"
proof -
  let ?s = "store (rd_server rd)"
  have up: "redis_up srv store rd" and dr: "drops store expire" and D: "directory ?s d"
    using assms(2) by (simp_all add: redis_holds_def)
  note S = directory_session [OF D] and A = directory_account [OF D]
  have set: "\<exists>rd'. redis_op srv expire (SetSession i c n) rd = Inr (A_code (ErrorCode_custom SUCCESS), rd') \<and>
      redis_holds srv store expire rd' (d(i \<mapsto> (c, n)))"
    if "length c = 32" "nospace n" "d i = None \<and> unused d c \<or> (\<exists>m. d i = Some (c, m))" for i c n
    by (rule SetInfo_up [OF up that(2), of i c]) (use up dr directory_set [OF D that(1,3)] in \<open>simp add: redis_holds_def\<close>)
  from assms(1) show ?thesis
  proof cases
    case (opened i c n)
    then show ?thesis using set by simp
  next
    case (moved i c m n)
    moreover have "length c = 32" using D moved by (auto simp: directory_def)
    ultimately show ?thesis using set by simp
  next
    case (refreshed i c n)
    then show ?thesis
      by - (rule RefreshInfo_up [OF up, of i c n], use dr D S A in \<open>auto simp: redis_holds_def\<close>)
  next
    case (cleared i c n)
    then show ?thesis
      by - (rule ClearInfo_up [OF up, of i c n], use dr D S A directory_drop [OF D] in \<open>auto simp: redis_holds_def\<close>)
  next
    case (by_cookie i c n)
    then show ?thesis
      by - (rule GetInfoFromCookie_up [OF up, of i c n], use dr D S in \<open>auto simp: redis_holds_def\<close>)
  next
    case (by_no_cookie c)
    then have "?s (cookie_key c) = None" using D by (simp add: directory_def)
    with by_no_cookie show ?thesis
      by - (rule GetInfoFromCookie_none [OF up, of c], use dr D in \<open>auto simp: redis_holds_def\<close>)
  next
    case (by_account i c n)
    then have "?s (account_key i) = Some (RStr (cookieStr c))" "length c = 32" using D by (auto simp: directory_def)
    with by_account show ?thesis
      by - (rule GetInfoFromID_up [OF up, of i c i n], use dr D S in \<open>auto simp: redis_holds_def\<close>)
  next
    case (by_no_account i)
    then have "?s (account_key i) = None" using D by (simp add: directory_def)
    with by_no_account show ?thesis
      by - (rule GetInfoFromID_none [OF up, of i], use dr D in \<open>auto simp: redis_holds_def\<close>)
  next
    case (expired i c n)
    then show ?thesis
      using up dr directory_drop [OF D] by (simp add: redis_holds_def drops_def redis_up_def rd_is_open_def)
  qed
qed

interpretation redis_sessions: session_store "redis_op srv expire" "redis_holds srv store expire" for srv store expire
  by unfold_locales (rule redis_implements)

section \<open>Properties\<close>

text \<open>
  C5. \<open>MyRedis\<close> implements the directory: with a Redis server that is up and behaves as documented, every
  sequence of operations on sessions (opening one under a fresh cookie, moving one to another
  server, refreshing, clearing, both lookups, and sessions that expire in between) gives through
  \<open>MyRedis\<close> the answers that the abstract directory gives, and leaves the keys of the sessions that the
  directory then has, where no cookie is in two sessions.
\<close>

theorem redis_refines_directory:
  assumes "redis_up srv store rd" "drops store expire" "directory (store (rd_server rd)) d" "dir_run d xs as d'"
  shows "\<exists>rd'. run_ops (redis_op srv expire) xs rd = Inr (as, rd') \<and> redis_up srv store rd' \<and>
     directory (store (rd_server rd')) d' \<and> one_each d'"
  using redis_sessions.run_implements [OF assms(4), of srv store expire rd] assms(1-3)
    one_each_run [OF assms(4) directory_one_each [OF assms(3)]]
  by (auto simp: redis_holds_def)

abbreviation (input) ref_expire :: "Account_ID_t \<Rightarrow> Hash_t \<Rightarrow> rstore \<Rightarrow> rstore" where
  "ref_expire \<equiv> \<lambda>i c s. s(cookie_key c := None, account_key i := None)"

theorem redis_refines_directory_witness:
  "\<exists>rd'. run_ops (redis_op ref_redis ref_expire)
     [SetSession 7 (replicate 32 5) ''match'', SetSession 7 (replicate 32 5) ''battle1'', By_account 7, Expire 7 (replicate 32 5), By_account 7]
     ref_conn = Inr ([A_code (ErrorCode_custom SUCCESS), A_code (ErrorCode_custom SUCCESS),
        A_account (Inr (replicate 32 5, ''battle1'')), A_none, A_account (Inl no_match)], rd')"
proof -
  let ?c = "replicate 32 5 :: Hash_t"
  let ?d0 = "\<lambda>_. None :: (Hash_t \<times> string) option"
  let ?d1 = "?d0(7 \<mapsto> (?c, ''match''))"
  let ?d2 = "?d1(7 \<mapsto> (?c, ''battle1''))"
  let ?d3 = "?d2(7 := None)"
  have "dir_step ?d0 (SetSession 7 ?c ''match'') (A_code (ErrorCode_custom SUCCESS)) ?d1"
    by (rule opened) (simp_all add: unused_def nospace_def)
  moreover have "dir_step ?d1 (SetSession 7 ?c ''battle1'') (A_code (ErrorCode_custom SUCCESS)) ?d2"
    by (rule moved [of _ _ _ "''match''"]) (simp_all add: nospace_def)
  moreover have "dir_step ?d2 (By_account 7) (A_account (Inr (?c, ''battle1''))) ?d2" by (rule by_account) simp
  moreover have "dir_step ?d2 (Expire 7 ?c) A_none ?d3" by (rule expired [of _ _ _ "''battle1''"]) simp
  moreover have "dir_step ?d3 (By_account 7) (A_account (Inl no_match)) ?d3" by (rule by_no_account) simp
  ultimately have run: "dir_run ?d0 [SetSession 7 ?c ''match'', SetSession 7 ?c ''battle1'', By_account 7, Expire 7 ?c, By_account 7]
     [A_code (ErrorCode_custom SUCCESS), A_code (ErrorCode_custom SUCCESS), A_account (Inr (?c, ''battle1'')), A_none, A_account (Inl no_match)]
     ?d3" by blast
  have "directory (\<lambda>_. None) (\<lambda>_. None)" by (simp add: directory_def)
  with redis_refines_directory [OF ref_conn_up _ _ run, of ref_expire] show ?thesis
    by (auto simp: drops_def)
qed

end
