(* ===== verification/Lifecycle.thy ===== *)
theory Lifecycle
  imports Directory MatchHandover BattleResults
begin

text \<open>
  The sessions of the two players of a game on their way from the match server to a battle server and
  back, in the terms of the session directory.
\<close>

section \<open>The moves of a pair\<close>

text \<open>Moving both sessions of a pair to one server is two steps of the directory.\<close>

definition pair_at :: "string \<Rightarrow> Account_ID_t \<Rightarrow> Hash_t \<Rightarrow> Account_ID_t \<Rightarrow> Hash_t \<Rightarrow> sessions \<Rightarrow> sessions" where
  "pair_at n i0 k0 i1 k1 d = d(i0 \<mapsto> (k0, n), i1 \<mapsto> (k1, n))"

lemma directory_pair:
  assumes "directory s d" "d i0 = Some (k0, m0)" "d i1 = Some (k1, m1)" "i0 \<noteq> i1"
  shows "directory (put_session i1 k1 n (put_session i0 k0 n s)) (pair_at n i0 k0 i1 k1 d)"
proof -
  have l: "length k0 = 32" "length k1 = 32" using assms(1-3) by (auto simp: directory_def)
  have "directory (put_session i0 k0 n s) (d(i0 \<mapsto> (k0, n)))" using directory_set [OF assms(1) l(1)] assms(2) by blast
  from directory_set [OF this l(2)] assms(3,4) show ?thesis by (simp add: pair_at_def)
qed

lemma keywords_match: "keyword_match = self_keyword"
  by (simp add: keyword_match_def self_keyword_def)

text \<open>The match server moves the pair to the battle server that takes it.\<close>

lemma match_moves_pair:
  assumes "redis_up (en_srv E) store (sv_redis w)" "match_inv w" "GetMatch (mt_matchmaker w) = (lp, rp)"
    and "directory (store (rd_server (sv_redis w))) d"
    and "matchable_player (store (rd_server (sv_redis w))) w (whoami lp) k0 c0 s0"
    and "matchable_player (store (rd_server (sv_redis w))) w (whoami rp) k1 c1 s1"
    and "whoami lp \<noteq> whoami rp" "c0 \<noteq> c1" "TransferMatch peer (mt_service w) = (n, ms)" "0 < n"
  shows "\<exists>w'. match_one E peer w = (Inr True, w') \<and>
     directory (store (rd_server (sv_redis w'))) (pair_at (battle_name n) (whoami lp) k0 (whoami rp) k1 d)"
proof -
  obtain w1 where w1: "match_one E peer w = match_hand_over E peer (whoami lp, k0, c0) (whoami rp, k1, c1) w1"
    "redis_up (en_srv E) store (sv_redis w1)" "store (rd_server (sv_redis w1)) = store (rd_server (sv_redis w))"
    "mt_service w1 = mt_service w"
    using probes_run [OF assms(1-3,5,6,8)] by metis
  obtain w' where w': "match_hand_over E peer (whoami lp, k0, c0) (whoami rp, k1, c1) w1 = (Inr True, w')"
    "store (rd_server (sv_redis w')) = put_session (whoami rp) k1 (battle_name n)
       (put_session (whoami lp) k0 (battle_name n) (store (rd_server (sv_redis w))))"
    using hand_over_run [OF w1(2), of peer n ms "whoami lp" "whoami rp" k0 k1 c0 c1] w1(3,4) assms(7,9,10)
      matched_cookies [OF assms(2,5-7)] by auto
  have "d (whoami lp) = Some (k0, self_keyword)" "d (whoami rp) = Some (k1, self_keyword)"
    using assms(5,6) directory_session [OF assms(4)] by (simp_all add: matchable_player_def)
  from directory_pair [OF assms(4) this assms(7), of "battle_name n"] w1(1) w' show ?thesis by simp
qed

section \<open>Properties\<close>

text \<open>
  C11. A game leaves the directory as it found it. When the match server hands a pair over, the directory
  changes in their two sessions only, which now name the battle server. When later, with whatever
  has happened to the sessions of other accounts, their game ends there with both connected, the
  two sessions are exactly what they were before the match (the same cookies, on the match server) and no other session is
  touched.
\<close>

theorem game_restores_directory:
  assumes "redis_up (en_srv E) store (sv_redis w)" "match_inv w" "GetMatch (mt_matchmaker w) = (lp, rp)"
    and "directory (store (rd_server (sv_redis w))) d"
    and "matchable_player (store (rd_server (sv_redis w))) w (whoami lp) k0 a0 u0"
    and "matchable_player (store (rd_server (sv_redis w))) w (whoami rp) k1 a1 u1"
    and "whoami lp \<noteq> whoami rp" "a0 \<noteq> a1" "TransferMatch peer (mt_service w) = (n, ms)" "0 < n"
    and "redis_up (en_srv F) store (sv_redis v)" "battle_inv {} v" "bt_games v g = Some gi"
    and "dm_rel (gi_session gi) = {(whoami lp, 0, Some c0), (whoami rp, 1, Some c1)}"
    and "seated v g (whoami lp) k0 c0 s0" "seated v g (whoami rp) k1 c1 s1" "c0 \<noteq> c1"
    and "archives (en_sql F)" "pool_good (en_sql F) (sv_pool v)" "process (gi_game gi) = (True, gm)"
    and "directory (store (rd_server (sv_redis v))) d2"
    and "d2 (whoami lp) = Some (k0, battle_name n)" "d2 (whoami rp) = Some (k1, battle_name n)"
  shows "\<exists>w' v' d3. match_one E peer w = (Inr True, w') \<and>
     directory (store (rd_server (sv_redis w'))) (pair_at (battle_name n) (whoami lp) k0 (whoami rp) k1 d) \<and>
     battle_wait_ends F g False v = (Inr (), v') \<and> directory (store (rd_server (sv_redis v'))) d3 \<and>
     d3 (whoami lp) = d (whoami lp) \<and> d3 (whoami rp) = d (whoami rp) \<and>
     (\<forall>i. i \<noteq> whoami lp \<and> i \<noteq> whoami rp \<longrightarrow> d3 i = d2 i)"
proof -
  have d: "d (whoami lp) = Some (k0, keyword_match)" "d (whoami rp) = Some (k1, keyword_match)"
    using assms(5,6) directory_session [OF assms(4)] by (simp_all add: matchable_player_def keywords_match)
  obtain v' where v': "battle_wait_ends F g False v = (Inr (), v')"
    "store (rd_server (sv_redis v')) = put_session (whoami rp) k1 keyword_match
       (put_session (whoami lp) k0 keyword_match (store (rd_server (sv_redis v))))"
    using game_ends_run [OF assms(11-16,7,17-20)] by metis
  then have "directory (store (rd_server (sv_redis v'))) (pair_at keyword_match (whoami lp) k0 (whoami rp) k1 d2)"
    using directory_pair [OF assms(21-23,7)] by simp
  moreover note match_moves_pair [OF assms(1-10)] v'(1)
  moreover have "pair_at keyword_match (whoami lp) k0 (whoami rp) k1 d2 i = (if i \<in> {whoami lp, whoami rp} then d i else d2 i)" for i
    using d assms(7) by (auto simp: pair_at_def)
  ultimately show ?thesis by (metis (no_types, lifting) insertCI insertE singletonD)
qed

lemma pair_directory:
  "directory (put_session 4 cookie4 n (put_session 3 cookie3 n (\<lambda>_. None))) (pair_at n 3 cookie3 4 cookie4 (\<lambda>_. None))"
proof -
  have "directory (put_session 3 cookie3 n (\<lambda>_. None)) ((\<lambda>_. None)(3 \<mapsto> (cookie3, n)))"
    by (rule directory_set) (simp_all add: directory_def unused_def)
  from directory_set [OF this, of cookie4 4 n] show ?thesis
    by (simp add: pair_at_def unused_def replicate_eq_replicate)
qed

theorem game_restores_directory_witness:
  "\<exists>w' v' d3. match_one auth_example_env accepting_peer pair_example = (Inr True, w') \<and>
     battle_wait_ends auth_example_env 0 False (arena (Some 0) (Some 1) won_game) = (Inr (), v') \<and>
     directory (rd_server (sv_redis v')) d3 \<and> d3 3 = Some (cookie3, ''match'') \<and> d3 4 = Some (cookie4, ''match'')"
proof -
  let ?w = pair_example and ?v = "arena (Some 0) (Some 1) won_game"
  let ?d = "pair_at ''match'' 3 cookie3 4 cookie4 (\<lambda>_. None)" and ?d2 = "pair_at (battle_name 1) 3 cookie3 4 cookie4 (\<lambda>_. None)"
  obtain ms where t: "TransferMatch accepting_peer (mt_service ?w) = (1, ms)" using pair_example_transfer by blast
  have D: "directory (id (rd_server (sv_redis ?w))) ?d" "directory (id (rd_server (sv_redis ?v))) ?d2"
    using pair_directory by (simp_all add: pair_example_def arena_store_def)
  note pair = game_restores_directory [OF pair_example_redis pair_example_inv pair_example_head]
  note pair = pair [OF D(1), unfolded pair_example_ids, OF pair_example_players _ _ t]
  have v: "redis_up (en_srv auth_example_env) id (sv_redis ?v)" using arena_redis by simp
  note game = pair [OF _ _ _ v arena_inv [OF won_game_wf] _ arena_seats(1) won_seated _ won_db won_process D(2)]
  show ?thesis using game by (simp add: pair_at_def) blast
qed

end
