(* ===== verification/Handshake.thy ===== *)
theory Handshake
  imports ClientSocket
begin

text \<open>
  Two ends of a connection that exchange keys and then talk: \<open>KeyExchange\<close> of \<open>network/MyClientSocket.cpp\<close>
  with \<open>security/KeyExchanger.cpp\<close> and \<open>security/Encryptor.cpp\<close> behind it, on both sides, with the reads
  of the stream cut anywhere.
\<close>

section \<open>Construction\<close>

text \<open>\<open>ctx\<close> is what \<open>EVP_CIPHER_CTX_new\<close> returns and \<open>fetched\<close> whether the cipher is there; \<open>host\<close> is what \<open>EVP_EC_gen\<close> returns.\<close>

definition Encryptor :: "'c option \<Rightarrow> bool \<Rightarrow> bool \<Rightarrow> ('c \<times> bool) result" where
  "Encryptor ctx fetched isEncrypt =
     (case ctx of
        None \<Rightarrow> Inl (StackTraceExcept ''EVP_CIPHER_CTX_new'')
      | Some c \<Rightarrow> if \<not> fetched then Inl (StackTraceExcept ''EVP_CIPHER_fetch'') else Inr (c, isEncrypt))"

definition Encryptor_keyed ::
  "(bool \<Rightarrow> byte list \<Rightarrow> byte list \<Rightarrow> 'c option) \<Rightarrow> ('c \<Rightarrow> 'c option) \<Rightarrow> 'c option \<Rightarrow> bool \<Rightarrow> byte list \<Rightarrow> byte list \<Rightarrow> bool \<Rightarrow> 'c result" where
  "Encryptor_keyed init set_padding ctx fetched k i isEncrypt =
     bind_result (Encryptor ctx fetched isEncrypt) (\<lambda>(c, e). SetKey init set_padding e k i)"

definition KeyExchanger :: "'h option \<Rightarrow> 'h result" where
  "KeyExchanger host = (case host of None \<Rightarrow> Inl (StackTraceExcept ''EVP_EC_gen'') | Some h \<Rightarrow> Inr h)"

definition MyClientSocket :: "'k option \<Rightarrow> 'k option \<Rightarrow> bool \<Rightarrow> 'h option \<Rightarrow> (('k, 'cb) csock \<times> 'h) result" where
  "MyClientSocket enc_ctx dec_ctx fetched host =
     bind_result (KeyExchanger host) (\<lambda>h.
     bind_result (Encryptor enc_ctx fetched True) (\<lambda>(e, _).
     bind_result (Encryptor dec_ctx fetched False) (\<lambda>(d, _). Inr (cs_new e d, h))))"

section \<open>What a processor is due to deliver\<close>

text \<open>
  \<open>due pp rest ms\<close>: with the bytes \<open>rest\<close> still to come, the messages of the processor are \<open>ms\<close>, those that are
  already in its queue first.
\<close>

definition due :: "packet_processor \<Rightarrow> byte list \<Rightarrow> byte list list \<Rightarrow> bool" where
  "due pp rest ms \<longleftrightarrow> flush_loop (pp_recvbuffer pp @ rest) (pp_msgs pp) = Inr ([], ms)"

lemma flush_loop_acc: "flush_loop buf (a @ acc) = bind_result (flush_loop buf acc) (\<lambda>(r, ms). Inr (r, a @ ms))"
proof (induction buf acc rule: flush_loop.induct)
  case (1 buf acc)
  then show ?case
    by (subst (1 2) flush_loop.simps) (auto simp: Let_def split: option.splits sum.splits)
qed

lemma flush_loop_none: "split buf = None \<Longrightarrow> flush_loop buf acc = Inr (buf, acc)"
  by (simp add: flush_loop.simps)

lemma due_start: "due pp_new (concat (map encapsulate ms)) (filter (\<lambda>m. m \<noteq> []) ms)"
  using flush_loop_frames [of ms "[]"] by (simp add: due_def pp_new_def)

lemma due_Recv:
  assumes "due pp (d @ rest) ms"
  obtains pp' where "PacketProcessor.Recv d pp = Inr pp'" "due pp' rest ms" "pp_wf pp'"
proof -
  obtain r qs where f: "flush_loop (pp_recvbuffer pp @ d) (pp_msgs pp) = Inr (r, qs)"
    using flush_loop_ok [of "pp_recvbuffer pp @ d" "pp_msgs pp"] by (auto simp: is_ok_conv)
  have "flush_loop (r @ rest) qs = Inr ([], ms)"
    using assms f flush_loop_append [of "pp_recvbuffer pp @ d" rest "pp_msgs pp"] by (simp add: due_def)
  with f flush_loop_rest [OF f] show thesis
    by (intro that [of "pp\<lparr>pp_recvbuffer := r, pp_msgs := qs\<rparr>"]) (simp_all add: Recv_simp due_def pp_wf_def)
qed

lemma due_msgs: "due pp rest ms \<Longrightarrow> \<exists>more. ms = pp_msgs pp @ more"
  using flush_loop_acc [of "pp_recvbuffer pp @ rest" "pp_msgs pp" "[]"]
  by (cases "flush_loop (pp_recvbuffer pp @ rest) []") (auto simp: due_def)

lemma due_GetMsg:
  assumes "due pp rest (m # ms)" "isMsgIn pp"
  shows "GetMsg pp = Inr (m, pp\<lparr>pp_msgs := tl (pp_msgs pp)\<rparr>)" "due (pp\<lparr>pp_msgs := tl (pp_msgs pp)\<rparr>) rest ms"
proof -
  obtain q qs where q: "pp_msgs pp = q # qs" using assms(2) by (cases "pp_msgs pp") (auto simp: isMsgIn_def)
  with due_msgs [OF assms(1)] have "q = m" by auto
  with q assms(1) flush_loop_acc [of "pp_recvbuffer pp @ rest" "[m]" qs]
  show "GetMsg pp = Inr (m, pp\<lparr>pp_msgs := tl (pp_msgs pp)\<rparr>)" "due (pp\<lparr>pp_msgs := tl (pp_msgs pp)\<rparr>) rest ms"
    by (cases "flush_loop (pp_recvbuffer pp @ rest) qs"; auto simp: GetMsg_def due_def)+
qed

lemma due_end: "due pp [] ms \<Longrightarrow> pp_wf pp \<Longrightarrow> pp_msgs pp = ms"
  by (simp add: due_def pp_wf_def flush_loop_none)

lemma due_all:
  assumes "due pp (concat ds) ms" "pp_wf pp"
  shows "\<exists>pp'. Recv_all ds pp = Inr pp' \<and> pp_msgs pp' = ms"
  using assms
proof (induction ds arbitrary: pp)
  case Nil
  then show ?case by (simp add: Recv_all_def due_end)
next
  case (Cons d ds)
  obtain pp1 where 1: "PacketProcessor.Recv d pp = Inr pp1" "due pp1 (concat ds) ms" "pp_wf pp1"
    by (rule due_Recv [of pp d "concat ds" ms]) (use Cons.prems(1) in auto)
  with Cons.IH [OF 1(2,3)] show ?case by (simp add: Recv_all_def)
qed

section \<open>Reads\<close>

text \<open>The completions of the reads, one piece of the stream each, as long as a read is pending.\<close>

fun Recv_chunks :: "'k cipher \<Rightarrow> ('k, 'cb) recv_handler \<Rightarrow> byte list list \<Rightarrow> ('k, 'cb) csock \<Rightarrow> (byte list list \<times> ('k, 'cb) csock) result" where
  "Recv_chunks crypt h [] cs = Inr ([], cs)"
| "Recv_chunks crypt h (d # ds) cs =
     (if cs_reading cs then bind_result (Recv_Handle crypt h None d cs) (Recv_chunks crypt h ds) else Inr (d # ds, cs))"

text \<open>A connection that waits, not yet encrypted, for its first message.\<close>

definition waiting :: "('k, 'cb) csock \<Rightarrow> bool" where
  "waiting cs \<longleftrightarrow> cs_reading cs \<and> cs_readable cs \<and> \<not> cs_initiateClose cs \<and> \<not> cs_isSecure cs \<and>
     pp_msgs (cs_recvbuffer cs) = [] \<and> pp_wf (cs_recvbuffer cs)"

lemma first_message:
  assumes "waiting cs" "due (cs_recvbuffer cs) (concat ds) (m # ms)" "\<forall>d\<in>set ds. length d \<le> BUF_SIZE"
  shows "\<exists>ds' pp. Recv_chunks crypt h ds cs =
      bind_result (h m (ErrorCode_custom SUCCESS) (cs\<lparr>cs_reading := False, cs_recvbuffer := pp\<rparr>)) (Recv_chunks crypt h ds') \<and>
    due pp (concat ds') ms \<and> pp_wf pp"
  using assms
proof (induction ds arbitrary: cs)
  case Nil
  then show ?case using due_end [of "cs_recvbuffer cs" "m # ms"] by (simp add: waiting_def)
next
  case (Cons d ds)
  obtain pp where pp: "PacketProcessor.Recv d (cs_recvbuffer cs) = Inr pp" "due pp (concat ds) (m # ms)" "pp_wf pp"
    by (rule due_Recv [of "cs_recvbuffer cs" d "concat ds" "m # ms"]) (use Cons.prems(2) in auto)
  let ?cs = "cs\<lparr>cs_reading := False, cs_recvbuffer := pp\<rparr>"
  have g: "GetRecv d (cs\<lparr>cs_reading := False\<rparr>) = Inr ?cs" using Cons.prems(3) pp(1) by (simp add: GetRecv_def)
  have c: "cs_reading cs" "\<not> cs_isSecure cs" "cs_readable cs" "\<not> cs_initiateClose cs" using Cons.prems(1) by (simp_all add: waiting_def)
  show ?case
  proof (cases "isMsgIn pp")
    case True
    let ?pp = "pp\<lparr>pp_msgs := tl (pp_msgs pp)\<rparr>"
    have "Recv_Handle crypt h None d cs = h m (ErrorCode_custom SUCCESS) (cs\<lparr>cs_reading := False, cs_recvbuffer := ?pp\<rparr>)"
      using due_GetMsg(1) [OF pp(2) True] True c(2) by (simp add: Recv_Handle_def g cs_Recv_def Let_def)
    moreover have "pp_wf ?pp" using pp(3) by (simp add: pp_wf_def)
    ultimately show ?thesis using due_GetMsg(2) [OF pp(2) True] c(1) by (intro exI [of _ ds] exI [of _ ?pp]) simp
  next
    case False
    have "Recv_Handle crypt h None d cs = Inr (cs\<lparr>cs_reading := True, cs_recvbuffer := pp\<rparr>)"
      using False c by (simp add: Recv_Handle_def g cs_Recv_def Let_def StartRecv_def DoRecv_def)
    moreover have "waiting (cs\<lparr>cs_reading := True, cs_recvbuffer := pp\<rparr>)"
      using False pp(3) c by (simp add: waiting_def isMsgIn_def)
    ultimately show ?thesis
      using Cons.IH [of "cs\<lparr>cs_reading := True, cs_recvbuffer := pp\<rparr>"] pp(2) Cons.prems(3) c(1) by simp
  qed
qed

section \<open>The ends of an exchange\<close>

text \<open>
  What one end has of OpenSSL: the public key it sends (or the error when it has none), and how the calls of \<open>ComputeKey\<close> go and what they derive for the
  key of a peer. The rest is the same on both ends: the key derivation, the initialisation of a cipher context and the cipher.
\<close>

record party =
  pt_error :: error_code
  pt_public :: "byte list"
  pt_ok :: "byte list \<Rightarrow> derive_step \<Rightarrow> bool"
  pt_secret :: "byte list \<Rightarrow> byte list"

record 'c openssl =
  os_derive :: "byte list \<Rightarrow> byte list \<Rightarrow> nat \<Rightarrow> (nat \<Rightarrow> byte) option"
  os_init :: "bool \<Rightarrow> byte list \<Rightarrow> byte list \<Rightarrow> 'c option"
  os_padding :: "'c \<Rightarrow> 'c option"
  os_cipher :: "'c openssl_cipher"

definition exchange_recv ::
  "'c openssl \<Rightarrow> party \<Rightarrow> (error_code \<Rightarrow> ('c, 'cb) csock \<Rightarrow> ('c, 'cb) csock result) \<Rightarrow> ('c, 'cb) recv_handler" where
  "exchange_recv ssl x handler =
     KeyExchange_recv (ComputeKey (pt_ok x) (pt_secret x)) (\<lambda>s n. KDF True True (os_derive ssl) s n []) (SetKey (os_init ssl) (os_padding ssl)) handler"

definition exchange ::
  "'c openssl \<Rightarrow> party \<Rightarrow> 'cb \<Rightarrow> (error_code \<Rightarrow> ('c, 'cb) csock \<Rightarrow> ('c, 'cb) csock result) \<Rightarrow> ('c, 'cb) csock \<Rightarrow> ('c, 'cb) csock result" where
  "exchange ssl x closing handler =
     KeyExchange (Crypt (os_cipher ssl)) (GetPublicKey (pt_error x) (pt_public x))
       (ComputeKey (pt_ok x) (pt_secret x)) (\<lambda>s n. KDF True True (os_derive ssl) s n []) (SetKey (os_init ssl) (os_padding ssl)) closing handler"

text \<open>
  What is relied on of OpenSSL. \<open>agree\<close>: Diffie-Hellman, the calls succeed on the keys of the two ends and
  both derive one secret. \<open>keyed\<close>: the key derivation and the initialisation succeed, and an encrypting
  and a decrypting context with one key and one initial vector are in step.
\<close>

definition agree :: "party \<Rightarrow> party \<Rightarrow> bool" where
  "agree x y \<longleftrightarrow> pt_public x \<noteq> [] \<and> pt_public y \<noteq> [] \<and> (\<forall>s. pt_ok x (pt_public y) s) \<and> (\<forall>s. pt_ok y (pt_public x) s) \<and>
     pt_secret x (pt_public y) = pt_secret y (pt_public x)"

definition keyed :: "'c openssl \<Rightarrow> ('c \<Rightarrow> 'c \<Rightarrow> bool) \<Rightarrow> bool" where
  "keyed ssl step \<longleftrightarrow> cipher_ok (Crypt (os_cipher ssl)) step \<and> (\<forall>s. os_derive ssl s [] 48 \<noteq> None) \<and>
     (\<forall>k i. \<exists>e d. SetKey (os_init ssl) (os_padding ssl) True k i = Inr e \<and> SetKey (os_init ssl) (os_padding ssl) False k i = Inr d \<and> step e d)"

lemma agree_sym: "agree x y \<Longrightarrow> agree y x"
  by (auto simp: agree_def)

text \<open>The two contexts that the secret of an agreement gives.\<close>

definition contexts :: "'c openssl \<Rightarrow> byte list \<Rightarrow> 'c \<Rightarrow> 'c \<Rightarrow> bool" where
  "contexts ssl secret e d \<longleftrightarrow> (\<exists>derived. KDF True True (os_derive ssl) secret 48 [] = Inr derived \<and>
     SetKey (os_init ssl) (os_padding ssl) True (fst (SplitKey derived)) (snd (SplitKey derived)) = Inr e \<and>
     SetKey (os_init ssl) (os_padding ssl) False (fst (SplitKey derived)) (snd (SplitKey derived)) = Inr d)"

lemma contexts_exist: "keyed ssl step \<Longrightarrow> \<exists>e d. contexts ssl s e d"
  by (fastforce simp: keyed_def contexts_def KDF_def split: option.splits)

lemma contexts_step: "keyed ssl step \<Longrightarrow> contexts ssl s e d \<Longrightarrow> contexts ssl s e' d' \<Longrightarrow> step e d'"
  by (auto simp: keyed_def contexts_def) (metis Inr_inject)

lemma exchange_recv_ok:
  assumes "agree x y" "contexts ssl (pt_secret x (pt_public y)) e d"
  shows "exchange_recv ssl x h (pt_public y) (ErrorCode_custom SUCCESS) cs =
    h (ErrorCode_custom SUCCESS) ((CancelTimeout cs)\<lparr>cs_encryptor := e, cs_decryptor := d, cs_isSecure := True\<rparr>)"
proof -
  have "first_failure (pt_ok x (pt_public y)) derive_steps = None"
    using assms(1) by (simp add: first_failure_None agree_def)
  moreover obtain k where "KDF True True (os_derive ssl) (pt_secret x (pt_public y)) 48 [] = Inr k" "length k = 48"
    "SetKey (os_init ssl) (os_padding ssl) True (fst (SplitKey k)) (snd (SplitKey k)) = Inr e"
    "SetKey (os_init ssl) (os_padding ssl) False (fst (SplitKey k)) (snd (SplitKey k)) = Inr d"
    using assms(2) length_KDF unfolding contexts_def by blast
  ultimately show ?thesis
    by (simp add: exchange_recv_def KeyExchange_recv_def ComputeKey_def Let_def case_prod_beta ec_isSuccessed_def ErrorCode_custom_def)
qed

text \<open>A fresh connection sends its key and waits for the one of the peer.\<close>

lemma exchange_starts:
  assumes "pt_public x \<noteq> []"
  obtains cs where "exchange ssl x cl h (cs_new e d) = Inr cs" "waiting cs" "cs_recvbuffer cs = pp_new"
    "cs_send_queue cs = [encapsulate (pt_public x)]" "cs_timer cs = Some cl"
  using assms
  by (simp add: exchange_def KeyExchange_def GetPublicKey_def Send_def Send_check_def Send_encode_def Send_enqueue_def DoSend_def
      cs_new_def SetTimeout_def StartRecv_def cs_Recv_def isMsgIn_def DoRecv_def waiting_def pp_new_def pp_wf_def split_def split_from.simps)

lemma exchange_completes:
  assumes "keyed ssl step" "agree x y" "exchange ssl x cl h (cs_new e0 d0) = Inr cs"
    and "concat ds = encapsulate (pt_public y) @ concat (map encapsulate ps)" "[] \<notin> set ps" "\<forall>d\<in>set ds. length d \<le> BUF_SIZE"
  shows "\<exists>ds' cs' e d. Recv_chunks (Crypt (os_cipher ssl)) (exchange_recv ssl x h) ds cs =
      bind_result (h (ErrorCode_custom SUCCESS) cs') (Recv_chunks (Crypt (os_cipher ssl)) (exchange_recv ssl x h) ds') \<and>
    cs_isSecure cs' \<and> Send_check cs' \<and> cs_send_queue cs' = [encapsulate (pt_public x)] \<and>
    contexts ssl (pt_secret x (pt_public y)) (cs_encryptor cs') (cs_decryptor cs') \<and>
    due (cs_recvbuffer cs') (concat ds') ps \<and> pp_wf (cs_recvbuffer cs')"
proof -
  have cs: "waiting cs" "cs_recvbuffer cs = pp_new" "cs_send_queue cs = [encapsulate (pt_public x)]"
    using exchange_starts [of x ssl cl h e0 d0] assms(2,3) by (auto simp: agree_def)
  have "filter (\<lambda>m. m \<noteq> []) (pt_public y # ps) = pt_public y # ps"
    using assms(2,5) by (simp add: agree_def) (metis (mono_tags, lifting) filter_True)
  then have "due (cs_recvbuffer cs) (concat ds) (pt_public y # ps)"
    using due_start [of "pt_public y # ps"] assms(4) cs(2) by simp
  from first_message [OF cs(1) this assms(6), of "Crypt (os_cipher ssl)" "exchange_recv ssl x h"]
  obtain ds' pp where r: "Recv_chunks (Crypt (os_cipher ssl)) (exchange_recv ssl x h) ds cs =
      bind_result (exchange_recv ssl x h (pt_public y) (ErrorCode_custom SUCCESS) (cs\<lparr>cs_reading := False, cs_recvbuffer := pp\<rparr>))
        (Recv_chunks (Crypt (os_cipher ssl)) (exchange_recv ssl x h) ds')" "due pp (concat ds') ps" "pp_wf pp"
    by blast
  obtain e d where c: "contexts ssl (pt_secret x (pt_public y)) e d" using contexts_exist [OF assms(1)] by blast
  show ?thesis
    using r c cs(1,3) exchange_recv_ok [OF assms(2) c, of h "cs\<lparr>cs_reading := False, cs_recvbuffer := pp\<rparr>"]
    by (intro exI [of _ ds'] exI [of _ "(CancelTimeout (cs\<lparr>cs_reading := False, cs_recvbuffer := pp\<rparr>))
          \<lparr>cs_encryptor := e, cs_decryptor := d, cs_isSecure := True\<rparr>"] exI [of _ e] exI [of _ d])
      (simp add: CancelTimeout_def Send_check_def waiting_def)
qed

section \<open>Properties\<close>


text \<open>
  A toy of OpenSSL that satisfies what is relied on: the secret is the sum of two numbers, and the cipher
  appends to every message its number, which starts from the key.
\<close>

definition toy_party :: "byte \<Rightarrow> party" where
  "toy_party n = \<lparr>pt_error = ErrorCode_custom ERR_PROTOCOL_VIOLATION, pt_public = [n], pt_ok = (\<lambda>_ _. True), pt_secret = (\<lambda>p. [n + hd p])\<rparr>"

definition toy_openssl :: "(bool \<times> byte) openssl" where
  "toy_openssl = \<lparr>os_derive = (\<lambda>s _ _. Some (\<lambda>_. hd s)), os_init = (\<lambda>e k i. Some (e, hd k)), os_padding = Some,
     os_cipher = \<lparr>evp_update = (\<lambda>(e, n) m. if e then Some (m, (e, n)) else if m \<noteq> [] \<and> last m = n then Some (butlast m, (e, n)) else None),
       evp_final = (\<lambda>(e, n). Some (if e then [n] else [], (e, n + 1)))\<rparr>\<rparr>"

lemma crypt_room: "length m + 1 \<le> crypt_maxlength (length m)"
  by (simp add: crypt_maxlength_def)

lemma toy_keyed: "keyed toy_openssl (\<lambda>e d. fst e \<and> d = (False, snd e))"
proof -
  let ?c = "Crypt (os_cipher toy_openssl)"
  have "?c (True, n) m = Inr (m @ [n], (True, n + 1))" for n m
    using crypt_room [of m] by (simp add: Crypt_def toy_openssl_def)
  moreover have "?c (False, n) (m @ [n]) = Inr (m, (False, n + 1))" for n m
    using crypt_room [of "m @ [n]"] by (simp add: Crypt_def toy_openssl_def)
  ultimately have "cipher_ok ?c (\<lambda>e d. fst e \<and> d = (False, snd e))" by (auto simp: cipher_ok_def)
  then show ?thesis by (simp add: keyed_def SetKey_def) (auto simp: toy_openssl_def)
qed


end
