(* ===== verification/Programs.thy ===== *)
theory Programs
  imports Options BattleSessions
begin

text \<open>
  The three server programs: the constructors of \<open>templates/MyServer.cpp\<close>, \<open>auth/MyAuth.cpp\<close>, \<open>match/MyMatch.cpp\<close> and
  \<open>battle/MyBattle.cpp\<close> from the settings of the configuration file, and \<open>main\<close> of \<open>auth/main.cpp\<close>, \<open>match/main.cpp\<close> and
  \<open>battle/main.cpp\<close>, which give \<open>MyMain\<close> a function that makes, starts and joins the server and one that stops it.
\<close>

section \<open>Construction\<close>

text \<open>
  What a constructor gets from outside: the port that the acceptor is bound to when a port is asked for, or the failure, the connections to the database by their
  text and number (\<open>None\<close> when one cannot be made), the connection to Redis by address and port, and the states
  of Redis and of the database.
\<close>

record ('r, 'd) outside =
  ou_bind :: "16 word \<Rightarrow> 16 word result"
  ou_dial :: "string \<Rightarrow> nat \<Rightarrow> bool option"
  ou_ctx :: "string \<Rightarrow> int \<Rightarrow> (int \<times> string) option"
  ou_redis :: 'r
  ou_db :: 'd

text \<open>
  The acceptor of the four classes of servers: a port is cut to 16 bits. The TLS classes then load their certificate and their key; \<open>cert\<close> and \<open>key\<close> are
  the errors of the two calls, if there are any.
\<close>

definition MyTCPServer :: "(16 word \<Rightarrow> 16 word result) \<Rightarrow> int \<Rightarrow> int result" where
  "MyTCPServer bound p = bind_result (bound (word_of_int p)) (\<lambda>port. Inr (uint port))"

definition MyTCPTLSServer :: "(16 word \<Rightarrow> 16 word result) \<Rightarrow> string option \<Rightarrow> string option \<Rightarrow> int \<Rightarrow> int result" where
  "MyTCPTLSServer bound cert key p =
     bind_result (MyTCPServer bound p) (\<lambda>port. case cert of
         Some e \<Rightarrow> Inl (StackTraceExcept e)
       | None \<Rightarrow> (case key of Some e \<Rightarrow> Inl (StackTraceExcept e) | None \<Rightarrow> Inr port))"

definition MyWebsocketTLSServer :: "(16 word \<Rightarrow> 16 word result) \<Rightarrow> string option \<Rightarrow> string option \<Rightarrow> int \<Rightarrow> int result" where
  "MyWebsocketTLSServer bound cert key p =
     bind_result (MyTCPServer bound p) (\<lambda>port. case cert of
         Some e \<Rightarrow> Inl (StackTraceExcept e)
       | None \<Rightarrow> (case key of Some e \<Rightarrow> Inl (StackTraceExcept e) | None \<Rightarrow> Inr port))"

definition connection_str :: "string \<Rightarrow> int \<Rightarrow> string \<Rightarrow> string \<Rightarrow> string \<Rightarrow> string" where
  "connection_str host port db user pwd =
     ''host='' @ host @ '' dbname='' @ db @ '' user='' @ user @ '' password='' @ pwd @ '' port='' @ to_string_int port"

text \<open>A negative size is a huge one as \<open>size_t\<close>, which \<open>reserve\<close> refuses.\<close>

definition configured_pool :: "(string \<Rightarrow> nat \<Rightarrow> bool option) \<Rightarrow> dict \<Rightarrow> pool result" where
  "configured_pool dial d =
     (let str = connection_str (GetString ''DBAddr'' ''localhost'' d) (GetInt ''DBPort'' 5432 d) (GetString ''DBName'' ''drgb_db'' d)
            (GetString ''DBUser'' ''drgb_user'' d) (GetString ''DBPwd'' ''drgbpassword'' d);
          size = GetInt ''DBPoolSize'' 10 d
      in if size < 0 then Inl (Invalid_argument ''vector::reserve'') else Inr (MyPostgresPool (map (dial str) [0..<nat size])))"

definition MyServer :: "('r, 'd) outside \<Rightarrow> int \<Rightarrow> dict \<Rightarrow> ('cb, 'h, 'r, 'd) server result" where
  "MyServer out port d =
     bind_result (MyTCPServer (ou_bind out) port) (\<lambda>_.
     bind_result (configured_pool (ou_dial out) d) (\<lambda>dbpool.
       Inr \<lparr>sv_isRunning = False, sv_accepting = True, sv_objects = (\<lambda>_. None), sv_clients = [],
         sv_redis = MyRedis SESSION_TIMEOUT (ou_redis out), sv_pool = dbpool, sv_db = ou_db out, sv_thrown = [], sv_graceful = False\<rparr>))"

definition MyAuth :: "('r, 'd) outside \<Rightarrow> dict \<Rightarrow> ('cb, 'h, 'r, 'd) server result" where
  "MyAuth out d = MyServer out (GetInt ''Client_Port'' 54321 d) d"

definition MyMatch :: "(string \<Rightarrow> rat result) \<Rightarrow> ('r, 'd) outside \<Rightarrow> dict \<Rightarrow> ('r, 'd) match result" where
  "MyMatch stod out d =
     bind_result (MyServer out (GetInt ''Client_Port'' 54321 d) d) (\<lambda>base.
       Inr (server.extend base
         (match.fields dm_empty (MyMatchMaker (GetDouble stod ''Match_Interpolate'' (fl (1 / 10)) d)) MatchServiceServer)))"

definition MyBattle_configured :: "('r, 'd) outside \<Rightarrow> dict \<Rightarrow> ('r, 'd) battle result" where
  "MyBattle_configured out d =
     bind_result (MyServer out (GetInt ''Client_Port'' 54321 d) d) (\<lambda>base.
       Inr (MyBattle (GetInt ''Machine_ID'' 1 d) (GetInt ''Round_Time'' 2000 d) (GetInt ''Disconnect_Time'' 15000 d)
              (GetInt ''StartAnimation_Time'' 2000 d) base))"

text \<open>The defaults of the base class for the manager.\<close>

definition MyServer_GetUsage :: "('cb, 'h, 'r, 'd, 'x) server_scheme \<Rightarrow> nat" where
  "MyServer_GetUsage w = 0"

definition MyServer_CheckAccount :: "Account_ID_t \<Rightarrow> ('cb, 'h, 'r, 'd, 'x) server_scheme \<Rightarrow> bool" where
  "MyServer_CheckAccount i w = False"

section \<open>The programs\<close>

text \<open>
  The world of \<open>MyMain\<close> is the variable \<open>server\<close>, a pointer that is null at first. \<open>join\<close> stands for what the threads of the
  server have made of it by the time \<open>Join\<close> returns. \<open>Open\<close> of the three servers writes to the log; that of the match server
  starts the thread of \<open>MatchMake\<close>.
\<close>

definition server_start ::
  "('r, 'd) outside \<Rightarrow> dict \<Rightarrow> ('cb, 'h, 'r, 'd, 'x) server_scheme \<Rightarrow> ('cb, 'h, 'r, 'd, 'x) server_scheme" where
  "server_start out d = Start (ou_ctx out (GetString ''SessionAddr'' ''localhost'' d) (GetInt ''SessionPort'' 6379 d)) id"

definition server_process ::
  "(dict \<Rightarrow> 's result) \<Rightarrow> (dict \<Rightarrow> 's \<Rightarrow> 's) \<Rightarrow> ('s \<Rightarrow> 's) \<Rightarrow> dict \<Rightarrow> 's option \<Rightarrow> unit result \<times> 's option" where
  "server_process mk start join d server = (case mk d of
       Inl e \<Rightarrow> (Inl e, server)
     | Inr s \<Rightarrow> (Inr (), Some (join (start d s))))"

fun as_exn :: "db_exn \<Rightarrow> exn" where
  "as_exn (Std e) = e"
| "as_exn (Pq _) = Runtime_error ''pqxx''"

definition server_stop :: "('s \<Rightarrow> (db_exn + unit) \<times> 's) \<Rightarrow> 's option \<Rightarrow> unit result \<times> 's option" where
  "server_stop stop server = (case server of
       None \<Rightarrow> (Inl (Undefined ''null pointer''), None)
     | Some s \<Rightarrow> (case stop s of (r, s) \<Rightarrow> (map_sum as_exn id r, Some s)))"

definition match_Close :: "('r, 'd) match \<Rightarrow> ('r, 'd) match" where
  "match_Close w = w"

text \<open>A process that has just been started.\<close>

definition program_start :: "'s option main_state" where
  "program_start = \<lparr>mm_logger = Logger, mm_dict = Map.empty, mm_int = False, mm_term = False, mm_pid = None, mm_world = None\<rparr>"

definition auth_main ::
  "('r, 'd) outside \<Rightarrow> (('cb, 'h, 'r, 'd) server \<Rightarrow> ('cb, 'h, 'r, 'd) server) \<Rightarrow> sys \<Rightarrow> getopt list \<Rightarrow> ('cb, 'h, 'r, 'd) server option main_state
   \<Rightarrow> int result \<times> ('cb, 'h, 'r, 'd) server option main_state" where
  "auth_main out join sys gs =
     MyMain_main sys ''drgb-auth'' gs (server_process (MyAuth out) (server_start out) join) (server_stop (Stop id))"

definition match_main ::
  "(string \<Rightarrow> rat result) \<Rightarrow> ('r, 'd) outside \<Rightarrow> (('r, 'd) match \<Rightarrow> ('r, 'd) match) \<Rightarrow> sys \<Rightarrow> getopt list \<Rightarrow> ('r, 'd) match option main_state
   \<Rightarrow> int result \<times> ('r, 'd) match option main_state" where
  "match_main stod out join sys gs =
     MyMain_main sys ''drgb-match'' gs (server_process (MyMatch stod out) (server_start out) join) (server_stop (Stop match_Close))"

definition battle_main ::
  "('r, 'd) outside \<Rightarrow> (('r, 'd) battle \<Rightarrow> ('r, 'd) battle) \<Rightarrow> sys \<Rightarrow> getopt list \<Rightarrow> ('r, 'd) battle option main_state
   \<Rightarrow> int result \<times> ('r, 'd) battle option main_state" where
  "battle_main out join sys gs =
     MyMain_main sys ''drgb-battle'' gs (server_process (MyBattle_configured out) (server_start out) join) (server_stop (Stop battle_Close))"

section \<open>How a program ends\<close>

text \<open>An attempt that fails before there is a server.\<close>

lemma main_null:
  assumes "main_try sys nm gs pr st = (Inl e, st')" "is_exception e" "lg_isVerbose (mm_logger st') = Some v" "mm_world st' = None"
  shows "fst (MyMain_main sys nm gs pr (server_stop stop) st) = Inl (Undefined ''null pointer'')"
proof -
  obtain lg where "main_log e (mm_logger st') = (Inr (), lg)" using main_log_open [OF assms(3)] by blast
  then show ?thesis using assms by (simp add: MyMain_main_def server_stop_def)
qed

lemma try_fails:
  assumes "MyServerOpt gs (mm_logger st) = (Inr (), opts, lg)" "daemon_flag opts \<longrightarrow> Daemonizer sys = Inr True"
    and "pid_flag opts \<longrightarrow> sys_writable sys (pid_path opts)" "mm_world st = None"
    and "ReadFile (sys_file sys (conf_path opts)) (mm_dict st) = (Inr ok, d)" "ok \<longrightarrow> mk d = Inl e \<and> is_exception e"
  shows "fst (MyMain_main sys nm gs (server_process mk start join) (server_stop stop) st) = Inl (Undefined ''null pointer'')"
proof -
  have bg: "(if daemon_flag opts then Daemonizer sys else Inr True) = Inr True" using assms(2) by simp
  define err where "err = (if ok then e else Runtime_error ''Cannot Open Config File'')"
  have "\<exists>st'. main_try sys nm gs (server_process mk start join) st = (Inl err, st') \<and>
      mm_logger st' = OpenLog nm (verbose_flag opts) lg \<and> mm_world st' = None"
    using assms(1,3-6)
    by (cases "pid_flag opts"; cases ok) (auto simp: main_try_def bg Create_PidFile_def Let_def server_process_def err_def)
  moreover have "is_exception err" using assms(6) by (simp add: err_def)
  ultimately show ?thesis using main_null OpenLog_verbose by metis
qed

lemma make_fails:
  "ou_bind out (word_of_int (GetInt ''Client_Port'' 54321 d)) = Inl e \<Longrightarrow>
   MyAuth out d = Inl e \<and> MyMatch stod out d = Inl e \<and> MyBattle_configured out d = Inl e"
  by (simp add: MyAuth_def MyMatch_def MyBattle_configured_def MyServer_def MyTCPServer_def)

text \<open>A server that is made and started, whatever its class.\<close>

lemma started_up:
  assumes "redis_ok srv store" "ou_ctx out (GetString ''SessionAddr'' ''localhost'' d) (GetInt ''SessionPort'' 6379 d) = Some (0, s)"
    and "\<not> sv_isRunning w" "sv_redis w = MyRedis SESSION_TIMEOUT (ou_redis out)"
  shows "redis_up srv store (sv_redis (server_start out d w)) \<and> sv_isRunning (server_start out d w)"
proof -
  have "nospace (to_string_int SESSION_TIMEOUT)" by (simp add: to_string_int_def nospace_digits)
  with assms show ?thesis
    by (simp add: server_start_def Start_def rd_Connect_def rd_Close_def MyRedis_def redis_up_def rd_is_open_def)
qed

section \<open>Properties\<close>

text \<open>
  C37. A program whose server cannot be made does not end with the exit code \<open>-1\<close> that \<open>MyMain\<close> prepares: when the configuration
  file cannot be opened, or the constructor of the server fails because its port is taken, the exception is logged and then
  \<open>stop\<close> is called, which calls \<open>Stop\<close> through the pointer of the server that was never made. This holds for
  all three programs.
\<close>

theorem unmade_server_stopped:
  assumes "MyServerOpt gs Logger = (Inr (), opts, lg)" "daemon_flag opts \<longrightarrow> Daemonizer sys = Inr True"
    and "pid_flag opts \<longrightarrow> sys_writable sys (pid_path opts)" "ReadFile (sys_file sys (conf_path opts)) Map.empty = (Inr ok, d)"
    and "ok \<longrightarrow> ou_bind out (word_of_int (GetInt ''Client_Port'' 54321 d)) = Inl e \<and> is_exception e"
  shows "fst (auth_main out ja sys gs program_start) = Inl (Undefined ''null pointer'') \<and>
     fst (match_main stod out jm sys gs program_start) = Inl (Undefined ''null pointer'') \<and>
     fst (battle_main out jb sys gs program_start) = Inl (Undefined ''null pointer'')"
proof -
  have p: "mm_logger program_start = Logger" "mm_dict program_start = Map.empty" "mm_world program_start = None" by (simp_all add: program_start_def)
  note f = try_fails [OF _ assms(2,3) p(3), unfolded p, OF assms(1,4)]
  show ?thesis
    unfolding auth_main_def match_main_def battle_main_def using assms(5) make_fails [of out d e stod] by (intro conjI f) auto
qed

definition no_config :: sys where
  "no_config = \<lparr>sys_fork1 = 0, sys_setsid = 0, sys_fork2 = 0, sys_errno = 0, sys_writable = (\<lambda>_. True), sys_file = (\<lambda>_. None)\<rparr>"

definition lone_machine :: "(rstore, unit) outside" where
  "lone_machine = \<lparr>ou_bind = Inr, ou_dial = (\<lambda>_ _. None), ou_ctx = (\<lambda>_ _. Some (0, [])), ou_redis = (\<lambda>_. None), ou_db = ()\<rparr>"

theorem unmade_server_stopped_witness:
  "fst (battle_main lone_machine id no_config [] program_start) = Inl (Undefined ''null pointer'')"
proof -
  have "MyServerOpt [] Logger = (Inr (), ClearOpt, Logger)" by (simp add: MyServerOpt_def)
  then show ?thesis
    using unmade_server_stopped [THEN conjunct2, THEN conjunct2, of "[]" ClearOpt Logger no_config False Map.empty lone_machine]
    by (simp add: ClearOpt_def no_config_def ReadFile_def)
qed

text \<open>The servers that the programs start.\<close>

lemma programs_start:
  assumes "redis_ok srv store" "ou_ctx out (GetString ''SessionAddr'' ''localhost'' d) (GetInt ''SessionPort'' 6379 d) = Some (0, s)"
    and "MyAuth out d = Inr (a :: ('cb, 'h, 'r, 'd) server)" "MyMatch stod out d = Inr m" "MyBattle_configured out d = Inr b"
  shows "redis_up srv store (sv_redis (server_start out d a)) \<and> redis_up srv store (sv_redis (server_start out d m)) \<and>
     redis_up srv store (sv_redis (server_start out d b)) \<and>
     sv_isRunning (server_start out d a) \<and> sv_isRunning (server_start out d m) \<and> sv_isRunning (server_start out d b) \<and>
     match_reach E (server_start out d m) \<and> battle_reach F (server_start out d b) \<and>
     bt_self_keyword (server_start out d b) = battle_name (GetInt ''Machine_ID'' 1 d) \<and>
     sv_pool (server_start out d m) = sv_pool (server_start out d a) \<and> sv_pool (server_start out d b) = sv_pool (server_start out d a)"
proof -
  have a: "\<not> sv_isRunning a" "sv_redis a = MyRedis SESSION_TIMEOUT (ou_redis out)" "configured_pool (ou_dial out) d = Inr (sv_pool a)"
    using assms(3) by (auto simp: MyAuth_def MyServer_def bind_result_Inr_conv)
  have m: "\<not> sv_isRunning m" "sv_redis m = MyRedis SESSION_TIMEOUT (ou_redis out)" "configured_pool (ou_dial out) d = Inr (sv_pool m)"
    "mt_sessions m = dm_empty" "\<exists>i. mt_matchmaker m = MyMatchMaker i"
    using assms(4) by (auto simp: MyMatch_def MyServer_def bind_result_Inr_conv server.defs match.defs)
  have b: "\<not> sv_isRunning b" "sv_redis b = MyRedis SESSION_TIMEOUT (ou_redis out)" "configured_pool (ou_dial out) d = Inr (sv_pool b)"
    "bt_sessions b = dm_empty" "bt_games b = (\<lambda>_. None)" "bt_self_keyword b = battle_name (GetInt ''Machine_ID'' 1 d)"
    using assms(5) by (auto simp: MyBattle_configured_def MyServer_def bind_result_Inr_conv MyBattle_def server.defs battle.defs)
  have "match_reach E (server_start out d m)"
    using m(4,5) by (auto intro: match_reach.start simp: server_start_def Start_def)
  moreover have "battle_reach F (server_start out d b)"
    using b(4,5) by (auto intro: battle_reach.start simp: server_start_def Start_def)
  moreover have "bt_self_keyword (server_start out d b) = battle_name (GetInt ''Machine_ID'' 1 d)"
    using b(6) by (simp add: server_start_def Start_def)
  moreover have "sv_pool (server_start out d m) = sv_pool (server_start out d a)" "sv_pool (server_start out d b) = sv_pool (server_start out d a)"
    using a(3) m(3) b(3) by (simp_all add: server_start_def Start_def)
  ultimately show ?thesis
    using started_up [OF assms(1,2) a(1,2)] started_up [OF assms(1,2) m(1,2)] started_up [OF assms(1,2) b(1,2)] by blast
qed

text \<open>A main thread whose server is there: \<open>Join\<close> has returned because the server does not run any more, and \<open>stop\<close> has nothing left to do.\<close>

lemma main_runs:
  assumes "MyServerOpt gs Logger = (Inr (), opts, lg)" "daemon_flag opts \<longrightarrow> Daemonizer sys = Inr True"
    and "pid_flag opts \<longrightarrow> sys_writable sys (pid_path opts)" "sys_file sys (conf_path opts) = Some txt"
    and "list_all2 line_denotes (getlines txt) ms" "mk (map_of (settings ms)) = Inr s" "\<not> sv_isRunning (join (start (map_of (settings ms)) s))"
  shows "\<exists>st. MyMain_main sys nm gs (server_process mk start join) (server_stop (Stop close)) program_start = (Inr 0, st) \<and>
     mm_world st = Some (join (start (map_of (settings ms)) s)) \<and> mm_dict st = map_of (settings ms)"
proof -
  have p: "mm_logger program_start = Logger" "mm_dict program_start = Map.empty" by (simp_all add: program_start_def)
  have r: "server_process mk start join (map_of (settings ms)) (mm_world program_start) = (Inr (), Some (join (start (map_of (settings ms)) s)))"
    using assms(6) by (simp add: server_process_def)
  have s: "server_stop (Stop close) (Some (join (start (map_of (settings ms)) s))) = (Inr (), Some (join (start (map_of (settings ms)) s)))"
    using assms(7) by (simp add: server_stop_def Stop_def)
  from server_configured [where st = program_start and process = "server_process mk start join" and stop = "server_stop (Stop close)" and nm = nm,
      unfolded p, OF assms(1-5) _ r s] show ?thesis by auto
qed



section \<open>The threads of the sockets\<close>

text \<open>
  \<open>StartThread\<close> of \<open>network/MyServerSocket.cpp\<close>: a thread of the pool runs the handlers of the \<open>io_context\<close> as long as the acceptor is open, and catches
  nothing. An exception that leaves a thread of the pool ends the process.
\<close>

datatype thread_end = Thread_waits | Thread_left | Terminated db_exn

fun io_thread :: "(('cb, 'h, 'r, 'd, 'x) server_scheme, unit) db list \<Rightarrow> ('cb, 'h, 'r, 'd, 'x) server_scheme
   \<Rightarrow> thread_end \<times> ('cb, 'h, 'r, 'd, 'x) server_scheme" where
  "io_thread [] w = (Thread_waits, w)"
| "io_thread (h # hs) w =
     (if \<not> sv_accepting w then (Thread_left, w)
      else case h w of (Inl e, w) \<Rightarrow> (Terminated e, w) | (Inr _, w) \<Rightarrow> io_thread hs w)"

lemma io_thread_calm: "(\<And>h. h \<in> set hs \<Longrightarrow> calm h) \<Longrightarrow> io_thread hs w = (Terminated e, w') \<Longrightarrow> \<not> catchable e"
proof (induction hs arbitrary: w)
  case (Cons h hs)
  then show ?case using calmD [of h w] by (auto split: if_splits prod.splits sum.splits)
qed simp

text \<open>The handlers of the authentication server.\<close>

definition auth_handlers :: "('r, 'd) env \<Rightarrow> (('r, 'd) auth, unit) db set" where
  "auth_handlers E = {h. \<exists>c err ec ms. h = auth_received E c err ms \<or> h = auth_AcceptProcess E c ec ms \<or> h = auth_session_timer c}"

lemma calm_auth_handlers: "h \<in> auth_handlers E \<Longrightarrow> calm h"
  by (auto simp: auth_handlers_def calm_received calm_AcceptProcess calm_session_timer)

lemma battle_short_cookie:
  assumes "length m < 32"
  shows "\<exists>w' e. battle_received E c Battle_Authenticate None (m # ms) w = (Inl e, w') \<and> catchable e"
  using pop_short_cookie [OF assms]
  by (simp add: battle_received_def battle_AuthenticateProcess_def run_defs ec_isSuccessed_def ErrorCode_custom_def catchable_def upd_client_def)



end
